theory Spec2Isabelle
  imports Complex_Main
begin

section \<open>JavaScript values\<close>

text \<open>
  The program is a TypeScript/React module (\<^verbatim>\<open>src/App.tsx\<close>) that handles untyped JSON
  (\<^verbatim>\<open>any\<close>) throughout. Values are modelled by one datatype. A string is a list of
  code units, restricted to the range of \<^typ>\<open>char\<close>. A number is an IEEE double: a
  special value (the negative zero, the infinities, not-a-number) or the rational that a
  finite double denotes; \<open>Fin 0\<close> is the positive zero. The operations on numbers round
  their exact result to a double (see \<open>round_double\<close> below).
\<close>

datatype jsnum = Fin rat | NegZero | PosInf | NegInf | NaN

datatype json =
    JUndefined
  | JNull
  | JBool bool
  | JNumber jsnum
  | JString string
  | JArray "json list"
  | JObject "(string \<times> json) list"

section \<open>Tool registry and health poller (\<^verbatim>\<open>syncTools\<close>)\<close>

datatype server_status = Online | Offline

text \<open>
  An entry of the \<^verbatim>\<open>mcpServers\<close> state:
  \<^verbatim>\<open>{ name: string; url: string; status: 'online' | 'offline'; toolCount?: number; tools?: any[] }\<close>.
  An optional field that is absent is \<open>None\<close>.
\<close>

record mcp_server =
  srv_name :: string
  srv_url :: string
  srv_status :: server_status
  srv_toolCount :: "nat option"
  srv_tools :: "json list option"

text \<open>
  What one \<^verbatim>\<open>tools/list\<close> probe of \<^verbatim>\<open>syncTools\<close> can end in:
  \<^item> \<open>ProbeThrows\<close>: \<^verbatim>\<open>fetch\<close> rejects, the 1500 ms timeout aborts it, or reading the
    body throws; control reaches the \<^verbatim>\<open>catch\<close> branch;
  \<^item> \<open>ProbeNotOk\<close>: a response arrives and \<^verbatim>\<open>response.ok\<close> is false;
  \<^item> \<open>ProbeOk ts\<close>: \<^verbatim>\<open>response.ok\<close> holds and \<open>ts\<close> is \<^verbatim>\<open>data.result?.tools\<close>, an
    array as the \<^verbatim>\<open>tools/list\<close> interface has it (\<open>None\<close> when the field is missing).
\<close>

datatype probe_outcome = ProbeThrows | ProbeNotOk | ProbeOk "json list option"

text \<open>The body of the \<^verbatim>\<open>mcpServers.map(async (server) => ...)\<close> callback, for one endpoint.\<close>

definition sync_server :: "probe_outcome \<Rightarrow> mcp_server \<Rightarrow> mcp_server" where
  "sync_server p server =
     (case p of
        ProbeOk rt \<Rightarrow>
          (let tools = (case rt of Some ts \<Rightarrow> ts | None \<Rightarrow> []) in
           if srv_status server = Offline
              \<or> (case srv_tools server of None \<Rightarrow> True | Some old \<Rightarrow> length old \<noteq> length tools)
           then server\<lparr>srv_status := Online, srv_tools := Some tools,
                        srv_toolCount := Some (length tools)\<rparr>
           else server\<lparr>srv_status := Online\<rparr>)
      | ProbeNotOk \<Rightarrow> server\<lparr>srv_status := Online\<rparr>
      | ProbeThrows \<Rightarrow>
          (if srv_status server = Online
           then server\<lparr>srv_status := Offline, srv_tools := Some [], srv_toolCount := Some 0\<rparr>
           else server))"

text \<open>
  One poll: every endpoint is probed (the i-th outcome belongs to the i-th endpoint), and the
  state is replaced only when the new snapshot differs
  (\<^verbatim>\<open>JSON.stringify(updatedServers) !== JSON.stringify(mcpServers)\<close>).
\<close>

definition syncTools :: "probe_outcome list \<Rightarrow> mcp_server list \<Rightarrow> mcp_server list" where
  "syncTools outcomes mcpServers =
     (let updatedServers = map2 sync_server outcomes mcpServers;
          changed = (updatedServers \<noteq> mcpServers)
      in if changed then updatedServers else mcpServers)"

section \<open>Reading JavaScript values\<close>

text \<open>A thrown value: every one the program can meet is an \<^verbatim>\<open>Error\<close> with a message.\<close>

datatype js_error = TypeError string | SyntaxError string | Error string | AbortError string

fun error_message :: "js_error \<Rightarrow> string" where
  "error_message (TypeError m) = m"
| "error_message (SyntaxError m) = m"
| "error_message (Error m) = m"
| "error_message (AbortError m) = m"

fun num_truthy :: "jsnum \<Rightarrow> bool" where
  "num_truthy (Fin q) = (q \<noteq> 0)"
| "num_truthy NegZero = False"
| "num_truthy NaN = False"
| "num_truthy PosInf = True"
| "num_truthy NegInf = True"

fun truthy :: "json \<Rightarrow> bool" where
  "truthy JUndefined = False"
| "truthy JNull = False"
| "truthy (JBool b) = b"
| "truthy (JNumber n) = num_truthy n"
| "truthy (JString s) = (s \<noteq> [])"
| "truthy (JArray xs) = True"
| "truthy (JObject kvs) = True"

text \<open>\<^verbatim>\<open>a || b\<close>\<close>

definition js_or :: "json \<Rightarrow> json \<Rightarrow> json" where
  "js_or a b = (if truthy a then a else b)"

definition quote :: "string \<Rightarrow> string" where
  "quote k = [CHR 0x27] @ k @ [CHR 0x27]"

text \<open>
  \<^verbatim>\<open>v.k\<close> for the property names the program reads (\<^verbatim>\<open>message\<close>, \<^verbatim>\<open>content\<close>,
  \<^verbatim>\<open>tool_calls\<close>, \<^verbatim>\<open>function\<close>, \<^verbatim>\<open>name\<close>, ...): reading a property of \<^verbatim>\<open>undefined\<close> or
  \<^verbatim>\<open>null\<close> throws a TypeError, an object gives the value stored under the key or
  \<^verbatim>\<open>undefined\<close>, and a primitive or an array has none of these names.
\<close>

definition read_error :: "json \<Rightarrow> string \<Rightarrow> js_error" where
  "read_error v k =
     TypeError (''Cannot read properties of '' @ (if v = JNull then ''null'' else ''undefined'')
                @ '' (reading '' @ quote k @ '')'')"

fun get_prop :: "json \<Rightarrow> string \<Rightarrow> js_error + json" where
  "get_prop JUndefined k = Inl (read_error JUndefined k)"
| "get_prop JNull k = Inl (read_error JNull k)"
| "get_prop (JObject kvs) k = Inr (case map_of kvs k of Some v \<Rightarrow> v | None \<Rightarrow> JUndefined)"
| "get_prop (JBool b) k = Inr JUndefined"
| "get_prop (JNumber n) k = Inr JUndefined"
| "get_prop (JString s) k = Inr JUndefined"
| "get_prop (JArray xs) k = Inr JUndefined"

text \<open>\<^verbatim>\<open>v?.k\<close>\<close>

fun opt_prop :: "json \<Rightarrow> string \<Rightarrow> json" where
  "opt_prop (JObject kvs) k = (case map_of kvs k of Some v \<Rightarrow> v | None \<Rightarrow> JUndefined)"
| "opt_prop v k = JUndefined"

text \<open>\<^verbatim>\<open>v?.[0]\<close>\<close>

fun opt_index0 :: "json \<Rightarrow> json" where
  "opt_index0 (JArray xs) = (case xs of [] \<Rightarrow> JUndefined | x # _ \<Rightarrow> x)"
| "opt_index0 (JString s) = (case s of [] \<Rightarrow> JUndefined | c # _ \<Rightarrow> JString [c])"
| "opt_index0 (JObject kvs) = (case map_of kvs ''0'' of Some v \<Rightarrow> v | None \<Rightarrow> JUndefined)"
| "opt_index0 v = JUndefined"

text \<open>
  Writing a property: the value of an existing key is replaced where the key stands, a new
  key is added at the end.
\<close>

fun obj_put :: "string \<Rightarrow> json \<Rightarrow> (string \<times> json) list \<Rightarrow> (string \<times> json) list" where
  "obj_put k v [] = [(k, v)]"
| "obj_put k v ((k', v') # kvs) = (if k' = k then (k, v) # kvs else (k', v') # obj_put k v kvs)"

text \<open>Decimal digits of a number, as a template literal writes \<^verbatim>\<open>Date.now()\<close> or an index.\<close>

fun nat_text :: "nat \<Rightarrow> string" where
  "nat_text n =
     (if n < 10 then [''0123456789'' ! n]
      else nat_text (n div 10) @ [''0123456789'' ! (n mod 10)])"

declare nat_text.simps [simp del]

text \<open>
  \<^verbatim>\<open>String(v)\<close> and the conversion of a template literal or of \<^verbatim>\<open>+=\<close> on a string. The
  parameter \<open>toStr\<close> is the conversion of the platform for numbers, arrays and objects.
\<close>

definition js_String :: "(json \<Rightarrow> string) \<Rightarrow> json \<Rightarrow> string" where
  "js_String toStr v =
     (case v of
        JString s \<Rightarrow> s
      | JUndefined \<Rightarrow> ''undefined''
      | JNull \<Rightarrow> ''null''
      | JBool b \<Rightarrow> (if b then ''true'' else ''false'')
      | _ \<Rightarrow> toStr v)"

text \<open>
  The conversion to a number that an arithmetic operator applies. The parameter \<open>toNum\<close> is
  the conversion of the platform for strings, arrays and objects.
\<close>

definition js_Number :: "(json \<Rightarrow> jsnum) \<Rightarrow> json \<Rightarrow> jsnum" where
  "js_Number toNum v =
     (case v of
        JNumber n \<Rightarrow> n
      | JUndefined \<Rightarrow> NaN
      | JNull \<Rightarrow> Fin 0
      | JBool b \<Rightarrow> Fin (if b then 1 else 0)
      | _ \<Rightarrow> toNum v)"

text \<open>
  A number of the program is an IEEE 754 double. A finite one is the rational it denotes,
  with \<open>NegZero\<close> for \<^verbatim>\<open>-0\<close>: an integer below \<open>2 ^ 53\<close> in absolute value times a power of two
  from \<open>2 powi - 1074\<close> on, below \<open>2 ^ 1024\<close> in absolute value. An arithmetic operation and
  the reading of a decimal literal give the double nearest to the exact result, the one
  with the even integer when two are equally near, an infinity from the middle between the
  largest double and \<open>2 ^ 1024\<close> on, and a zero of the sign of the exact result below the
  middle between zero and the smallest double. The functions below compute that rounding.
\<close>

text \<open>The number of binary digits of \<open>n\<close>.\<close>

function bit_length :: "int \<Rightarrow> nat" where
  "bit_length n = (if n \<le> 0 then 0 else Suc (bit_length (n div 2)))"
  by auto
termination
  by (relation "measure nat") auto

declare bit_length.simps [simp del]

text \<open>
  For \<open>0 < a\<close>, the exponent \<open>e\<close> with \<open>2 powi e \<le> a < 2 powi (e + 1)\<close>: the digits of the
  integer part of \<open>a\<close> or of \<open>1 / a\<close> give it up to one, and a comparison settles it.
\<close>

definition floor_log2 :: "rat \<Rightarrow> int" where
  "floor_log2 a =
     (let k = (if 1 \<le> a then int (bit_length \<lfloor>a\<rfloor>) - 1
               else - int (bit_length \<lfloor>1 / a\<rfloor>))
      in if 2 powi (k + 1) \<le> a then k + 1 else k)"

text \<open>The integer nearest to \<open>x\<close>, the even one of the two when \<open>x\<close> lies in their middle.\<close>

definition round_half_even :: "rat \<Rightarrow> int" where
  "round_half_even x =
     (let n = \<lfloor>x\<rfloor>; r = x - of_int n
      in if r < 1 / 2 then n else if 1 / 2 < r then n + 1 else if even n then n else n + 1)"

text \<open>
  The double for the exact value \<open>q\<close>. The doubles around \<open>q\<close> are the multiples of
  \<open>2 powi qe\<close>, where \<open>qe\<close> leaves 53 binary digits, and is \<open>- 1074\<close> for the subnormals.
\<close>

definition round_double :: "rat \<Rightarrow> jsnum" where
  "round_double q =
     (let a = \<bar>q\<bar>;
          e = floor_log2 a;
          qe = max (e - 52) (- 1074);
          m = round_half_even (a / 2 powi qe);
          v = of_int m * 2 powi qe
      in if 2 ^ 1024 \<le> v then (if q < 0 then NegInf else PosInf)
         else if m = 0 then (if q < 0 then NegZero else Fin 0)
         else Fin (if q < 0 then - v else v))"

fun is_neg :: "jsnum \<Rightarrow> bool" where
  "is_neg (Fin q) = (q < 0)"
| "is_neg NegZero = True"
| "is_neg NegInf = True"
| "is_neg PosInf = False"
| "is_neg NaN = False"

fun is_inf :: "jsnum \<Rightarrow> bool" where
  "is_inf PosInf = True"
| "is_inf NegInf = True"
| "is_inf n = False"

fun is_zero :: "jsnum \<Rightarrow> bool" where
  "is_zero (Fin q) = (q = 0)"
| "is_zero NegZero = True"
| "is_zero n = False"

fun fin_val :: "jsnum \<Rightarrow> rat" where
  "fin_val (Fin q) = q"
| "fin_val n = 0"

text \<open>
  The division \<^verbatim>\<open>a / b\<close> of two numbers as IEEE 754 has it: it never throws. Not-a-number
  comes from a not-a-number, from two infinities and from two zeros; an infinity from an
  infinity and from a division by a zero; a zero from a zero and from a division by an
  infinity, each with the sign of the two operands combined; and the quotient of two finite
  non-zero numbers is rounded to the nearest double.
\<close>

definition js_div :: "jsnum \<Rightarrow> jsnum \<Rightarrow> jsnum" where
  "js_div a b =
     (if a = NaN \<or> b = NaN then NaN
      else if is_inf a then
        (if is_inf b then NaN else if is_neg a \<noteq> is_neg b then NegInf else PosInf)
      else if is_inf b then (if is_neg a \<noteq> is_neg b then NegZero else Fin 0)
      else if is_zero b then
        (if is_zero a then NaN else if is_neg a \<noteq> is_neg b then NegInf else PosInf)
      else if is_zero a then (if is_neg a \<noteq> is_neg b then NegZero else Fin 0)
      else round_double (fin_val a / fin_val b))"

text \<open>
  The own enumerable properties that an object spread \<^verbatim>\<open>{...v}\<close> copies: those of an
  object, the indexed elements of an array or a string, none for the other values.
\<close>

fun spread :: "json \<Rightarrow> (string \<times> json) list" where
  "spread (JObject kvs) = kvs"
| "spread (JArray xs) = zip (map nat_text [0..<length xs]) xs"
| "spread (JString s) = zip (map nat_text [0..<length s]) (map (\<lambda>c. JString [c]) s)"
| "spread v = []"

section \<open>Tool executor (\<^verbatim>\<open>executeMcpTool\<close>)\<close>

text \<open>
  A request the program sends, recorded in the order of sending: a \<^verbatim>\<open>tools/call\<close> with the
  URL, the tool name and the arguments, or a streaming \<^verbatim>\<open>/api/chat\<close> request with the model,
  the messages and the offered tools (the sampling options are left out).
\<close>

datatype request =
    ToolsCall string json json
  | ChatRequest string "json list" "json list option"

text \<open>
  \<^verbatim>\<open>executeMcpTool(toolName, args, serverUrl)\<close>. The parameter \<open>post\<close> stands for the
  server: what \<^verbatim>\<open>await fetch(serverUrl, ...)\<close> followed by \<^verbatim>\<open>await response.json()\<close> gives for
  the \<^verbatim>\<open>tools/call\<close> request, either a thrown error or the parsed body. \<open>stringify\<close> is
  \<^verbatim>\<open>JSON.stringify\<close> on a value other than \<^verbatim>\<open>undefined\<close>. The function returns its result
  together with the requests it has sent.
\<close>

definition JSON_stringify :: "(json \<Rightarrow> string) \<Rightarrow> json \<Rightarrow> json" where
  "JSON_stringify stringify v = (if v = JUndefined then JUndefined else JString (stringify v))"

definition executeMcpTool ::
  "(json \<Rightarrow> string) \<Rightarrow> (string \<Rightarrow> json \<Rightarrow> json \<Rightarrow> js_error + json)
     \<Rightarrow> json \<Rightarrow> json \<Rightarrow> string \<Rightarrow> json \<times> request list" where
  "executeMcpTool stringify post toolName args serverUrl =
     (let sent = [ToolsCall serverUrl toolName args];
          failed = (\<lambda>e. JString (''Error: Tool execution failed. '' @ error_message e))
      in case post serverUrl toolName args of
           Inl e \<Rightarrow> (failed e, sent)
         | Inr data \<Rightarrow>
             (case get_prop data ''result'' of
                Inl e \<Rightarrow> (failed e, sent)
              | Inr res \<Rightarrow>
                  (let result =
                         js_or (opt_prop (opt_index0 (opt_prop res ''content'')) ''text'')
                           (js_or (opt_prop res ''text'') (JSON_stringify stringify res))
                   in (js_or result (JString ''Tool returned no data.''), sent))))"

section \<open>Conversation loop: executing the resolved tool calls (\<^verbatim>\<open>handleSendMessage\<close>)\<close>

text \<open>
  An element of \<^verbatim>\<open>mcpTools\<close>, as \<^verbatim>\<open>fetchAllMcpTools\<close> builds it:
  \<^verbatim>\<open>{ type: 'function', function: { name, description, parameters, serverUrl } }\<close>.
  The name is the result of a template literal and the URL that of the endpoint, so both
  are strings.
\<close>

record tool_fn =
  fn_name :: string
  fn_description :: json
  fn_parameters :: json
  fn_serverUrl :: string

text \<open>What the loop over \<^verbatim>\<open>toolCalls\<close> builds up.\<close>

record loop_state =
  ls_toolResponses :: "json list"
  ls_mcpContext :: "json list"
  ls_requests :: "request list"

text \<open>
  The loop \<^verbatim>\<open>for (let idx = 0; idx < toolCalls.length; idx++)\<close>; \<open>clock idx\<close> is
  what \<^verbatim>\<open>Date.now()\<close> returns in iteration \<open>idx\<close>. Reading
  \<^verbatim>\<open>call.function.name\<close> throws when \<^verbatim>\<open>call\<close> or \<^verbatim>\<open>call.function\<close> is \<^verbatim>\<open>null\<close> or
  \<^verbatim>\<open>undefined\<close>; the loop then ends with that error (second component), which the
  \<^verbatim>\<open>catch\<close> of \<^verbatim>\<open>handleSendMessage\<close> receives.
\<close>

fun run_tool_calls ::
  "(json \<Rightarrow> string) \<Rightarrow> (json \<Rightarrow> string) \<Rightarrow> (nat \<Rightarrow> nat)
     \<Rightarrow> (string \<Rightarrow> json \<Rightarrow> json \<Rightarrow> js_error + json) \<Rightarrow> tool_fn list
     \<Rightarrow> nat \<Rightarrow> json list \<Rightarrow> loop_state \<Rightarrow> loop_state \<times> js_error option" where
  "run_tool_calls stringify toStr clock post mcpTools idx [] st = (st, None)"
| "run_tool_calls stringify toStr clock post mcpTools idx (call # calls) st =
     (case get_prop call ''function'' of
        Inl e \<Rightarrow> (st, Some e)
      | Inr fn \<Rightarrow>
          (case get_prop fn ''name'' of
             Inl e \<Rightarrow> (st, Some e)
           | Inr toolName \<Rightarrow>
               (let toolArgs = opt_prop fn ''arguments'' in
                case find (\<lambda>t. JString (fn_name t) = toolName) mcpTools of
                  None \<Rightarrow> run_tool_calls stringify toStr clock post mcpTools (Suc idx) calls st
                | Some toolDef \<Rightarrow>
                    (let (result, sent) =
                           executeMcpTool stringify post toolName toolArgs (fn_serverUrl toolDef);
                         source = JObject [(''type'', JString ''tool''), (''name'', toolName),
                                           (''server'', JString (fn_serverUrl toolDef))];
                         response = JObject
                           [(''role'', JString ''tool''),
                            (''content'', JString (js_String toStr result)),
                            (''tool_call_id'',
                               js_or (opt_prop call ''id'')
                                 (JString (''call_'' @ nat_text (clock idx) @ ''_'' @ nat_text idx)))]
                     in run_tool_calls stringify toStr clock post mcpTools (Suc idx) calls
                          (st\<lparr>ls_toolResponses := ls_toolResponses st @ [response],
                              ls_mcpContext := ls_mcpContext st @ [source],
                              ls_requests := ls_requests st @ sent\<rparr>)))))"

text \<open>
  The part of \<^verbatim>\<open>handleSendMessage\<close> from \<^verbatim>\<open>// Check for tool calls\<close> up to the sending of the
  follow-up request: \<open>history\<close> is the transcript sent to the model, \<open>messages\<close> the
  transcript of the session (\<^verbatim>\<open>setSessions\<close>), \<open>mcpContext\<close> the sources.
\<close>

record turn_state =
  ts_history :: "json list"
  ts_messages :: "json list"
  ts_mcpContext :: "json list"
  ts_requests :: "request list"
  ts_error :: "js_error option"

definition offered_tools :: "bool \<Rightarrow> tool_fn list \<Rightarrow> json list option" where
  "offered_tools mcpEnabled mcpTools =
     (if mcpEnabled \<and> mcpTools \<noteq> []
      then Some (map (\<lambda>t. JObject [(''type'', JString ''function''),
                     (''function'', JObject [(''name'', JString (fn_name t)),
                                             (''description'', fn_description t),
                                             (''parameters'', fn_parameters t)])]) mcpTools)
      else None)"

definition tool_phase ::
  "(json \<Rightarrow> string) \<Rightarrow> (json \<Rightarrow> string) \<Rightarrow> (nat \<Rightarrow> nat)
     \<Rightarrow> (string \<Rightarrow> json \<Rightarrow> json \<Rightarrow> js_error + json) \<Rightarrow> bool \<Rightarrow> string \<Rightarrow> tool_fn list
     \<Rightarrow> string \<Rightarrow> json list \<Rightarrow> json \<Rightarrow> turn_state \<Rightarrow> turn_state" where
  "tool_phase stringify toStr clock post mcpEnabled model mcpTools content toolCalls message ts =
     (if toolCalls \<noteq> [] then
        (let toolCallMessage =
               JObject (obj_put ''content'' (JString (if content \<noteq> [] then content else []))
                          (spread message));
             (st, thrown) =
               run_tool_calls stringify toStr clock post mcpTools 0 toolCalls
                 \<lparr>ls_toolResponses = [], ls_mcpContext = ts_mcpContext ts,
                  ls_requests = ts_requests ts\<rparr>
         in case thrown of
              Some e \<Rightarrow> ts\<lparr>ts_mcpContext := ls_mcpContext st, ts_requests := ls_requests st,
                            ts_error := Some e\<rparr>
            | None \<Rightarrow>
                (let history = ts_history ts @ [toolCallMessage] @ ls_toolResponses st
                 in ts\<lparr>ts_history := history,
                       ts_messages := ts_messages ts @ [toolCallMessage] @ ls_toolResponses st,
                       ts_mcpContext := ls_mcpContext st,
                       ts_requests := ls_requests st
                          @ [ChatRequest model history (offered_tools mcpEnabled mcpTools)]\<rparr>))
      else ts)"

section \<open>Vocabulary of the statements about the tool round\<close>

text \<open>
  These definitions are not program code; the theorems use them to speak about the calls
  the loop meets. A call is readable when \<^verbatim>\<open>call.function.name\<close> does not throw.
\<close>

definition call_name :: "json \<Rightarrow> js_error + json" where
  "call_name call =
     (case get_prop call ''function'' of Inl e \<Rightarrow> Inl e | Inr fn \<Rightarrow> get_prop fn ''name'')"

definition readable_call :: "json \<Rightarrow> bool" where
  "readable_call call = (case call_name call of Inl e \<Rightarrow> False | Inr n \<Rightarrow> True)"

text \<open>The manifest entry \<^verbatim>\<open>mcpTools.find(t => t.function.name === toolName)\<close> of a call.\<close>

definition tool_of :: "tool_fn list \<Rightarrow> json \<Rightarrow> tool_fn option" where
  "tool_of mcpTools call =
     (case call_name call of
        Inl e \<Rightarrow> None
      | Inr n \<Rightarrow> find (\<lambda>t. JString (fn_name t) = n) mcpTools)"

definition known_call :: "tool_fn list \<Rightarrow> json \<Rightarrow> bool" where
  "known_call mcpTools call = (tool_of mcpTools call \<noteq> None)"

text \<open>The \<^verbatim>\<open>tools/call\<close> request that executing a known call sends.\<close>

definition tools_call_of :: "tool_fn list \<Rightarrow> json \<Rightarrow> request" where
  "tools_call_of mcpTools call =
     ToolsCall (case tool_of mcpTools call of Some t \<Rightarrow> fn_serverUrl t | None \<Rightarrow> [])
       (case call_name call of Inr n \<Rightarrow> n | Inl e \<Rightarrow> JUndefined)
       (opt_prop (opt_prop call ''function'') ''arguments'')"

definition is_tool_message :: "json \<Rightarrow> bool" where
  "is_tool_message m = (opt_prop m ''role'' = JString ''tool'')"

section \<open>Workflow sequencer (\<^verbatim>\<open>handleRunWorkflow\<close>)\<close>

record agent =
  agent_id :: string
  agent_name :: string
  agent_role :: string
  agent_model :: string
  agent_systemPrompt :: string
  agent_temperature :: jsnum

record workflow_step =
  step_id :: string
  step_agentId :: string
  step_description :: string

record workflow =
  wf_id :: string
  wf_name :: string
  wf_steps :: "workflow_step list"
  wf_createdAt :: nat

text \<open>The status of a log entry: \<^verbatim>\<open>'pending' | 'running' | 'completed' | 'error'\<close>.\<close>

datatype log_status = Pending | Running | Completed | Failed

text \<open>
  An entry of \<^verbatim>\<open>workflowLogs\<close>. The output is declared a string; the program stores
  \<^verbatim>\<open>data.message.content\<close> there whatever it is, so the model keeps a JavaScript value.
\<close>

record step_log =
  log_stepId :: string
  log_agentName :: string
  log_output :: json
  log_status :: log_status

text \<open>The body of the non-streaming \<^verbatim>\<open>/api/chat\<close> request of one step.\<close>

record wf_request =
  rq_model :: string
  rq_system :: string
  rq_prompt :: string
  rq_temperature :: jsnum

text \<open>
  What the request of a step can end in: \<^verbatim>\<open>fetch\<close> or the reading of the body throws; a
  response with \<^verbatim>\<open>response.ok\<close> false and the text of its body; a response with
  \<^verbatim>\<open>response.ok\<close> true and its parsed body.
\<close>

datatype chat_response = ChatThrows js_error | ChatNotOk string | ChatOk json

record wf_state =
  wf_logs :: "step_log list"
  wf_context :: json
  wf_requests :: "wf_request list"

text \<open>\<^verbatim>\<open>prev.map((log, idx) => idx === i ? f(log) : log)\<close>\<close>

definition map_at :: "nat \<Rightarrow> ('a \<Rightarrow> 'a) \<Rightarrow> 'a list \<Rightarrow> 'a list" where
  "map_at i f xs = map (\<lambda>(idx, x). if idx = i then f x else x) (enumerate 0 xs)"

definition is_nullish :: "json \<Rightarrow> bool" where
  "is_nullish v = (v = JUndefined \<or> v = JNull)"

text \<open>
  The request of a step: the prompt is built from the input of the workflow, the context
  (the output of the previous agent, or the input at first) and the instructions of the step.
\<close>

definition step_request ::
  "(json \<Rightarrow> string) \<Rightarrow> agent \<Rightarrow> string \<Rightarrow> json \<Rightarrow> workflow_step \<Rightarrow> wf_request" where
  "step_request toStr agent finalInput currentContext step =
     \<lparr>rq_model = agent_model agent,
      rq_system = agent_systemPrompt agent @ [CHR 0x0A, CHR 0x0A]
        @ ''You are part of a multi-agent workflow. Respond only with the requested analysis or transformation.'',
      rq_prompt = ''Workflow Input: '' @ finalInput
        @ [CHR 0x0A, CHR 0x0A] @ ''Context from previous agents: '' @ js_String toStr currentContext
        @ [CHR 0x0A, CHR 0x0A] @ ''Your specific instructions: '' @ step_description step,
      rq_temperature = agent_temperature agent\<rparr>"

text \<open>
  The \<^verbatim>\<open>for\<close> loop over the steps, from step \<open>i\<close> on. \<open>chat j\<close> is the outcome of the
  request of step \<open>j\<close>. The second component is the error thrown out of the loop, if any.
  The last read, \<^verbatim>\<open>result.length\<close> in the log line, throws when the content is \<^verbatim>\<open>null\<close>
  or \<^verbatim>\<open>undefined\<close>.
\<close>

fun run_steps ::
  "(json \<Rightarrow> string) \<Rightarrow> agent list \<Rightarrow> (nat \<Rightarrow> chat_response) \<Rightarrow> string
     \<Rightarrow> nat \<Rightarrow> workflow_step list \<Rightarrow> wf_state \<Rightarrow> wf_state \<times> js_error option" where
  "run_steps toStr agents chat finalInput i [] st = (st, None)"
| "run_steps toStr agents chat finalInput i (step # steps) st =
     (case find (\<lambda>a. agent_id a = step_agentId step) agents of
        None \<Rightarrow> run_steps toStr agents chat finalInput (Suc i) steps st
      | Some agent \<Rightarrow>
          (let running = map_at i (\<lambda>log. log\<lparr>log_status := Running\<rparr>) (wf_logs st);
               request = step_request toStr agent finalInput (wf_context st) step;
               st1 = st\<lparr>wf_logs := running, wf_requests := wf_requests st @ [request]\<rparr>
           in case chat i of
                ChatThrows e \<Rightarrow> (st1, Some e)
              | ChatNotOk errorText \<Rightarrow>
                  (st1, Some (Error (''Agent '' @ agent_name agent @ '' failed: '' @ errorText)))
              | ChatOk data \<Rightarrow>
                  (case get_prop data ''message'' of
                     Inl e \<Rightarrow> (st1, Some e)
                   | Inr m \<Rightarrow>
                       (case get_prop m ''content'' of
                          Inl e \<Rightarrow> (st1, Some e)
                        | Inr result \<Rightarrow>
                            (if is_nullish result
                             then (st1, Some (read_error result ''length''))
                             else run_steps toStr agents chat finalInput (Suc i) steps
                                    (st1\<lparr>wf_logs := map_at i
                                            (\<lambda>log. log\<lparr>log_output := result, log_status := Completed\<rparr>)
                                            running,
                                         wf_context := result\<rparr>))))))"

definition is_js_space :: "char \<Rightarrow> bool" where
  "is_js_space c = (c = CHR 0x09 \<or> c = CHR 0x0A \<or> c = CHR 0x0B \<or> c = CHR 0x0C
                    \<or> c = CHR 0x0D \<or> c = CHR 0x20 \<or> c = CHR 0xA0)"

text \<open>\<^verbatim>\<open>s.trim()\<close>, for the white space and line terminators among the code units of the model.\<close>

definition trim :: "string \<Rightarrow> string" where
  "trim s = rev (dropWhile is_js_space (rev (dropWhile is_js_space s)))"

text \<open>
  \<^verbatim>\<open>handleRunWorkflow(workflow, overrideInput)\<close> with \<open>finalInput\<close> for
  \<^verbatim>\<open>overrideInput ?? workflowInput\<close>. It returns the logs, the requests sent, and nothing
  else of the state is of interest here. When the guard fails nothing happens: the logs
  stay as they were and no request is sent.
\<close>

definition initial_log :: "agent list \<Rightarrow> workflow_step \<Rightarrow> step_log" where
  "initial_log agents step =
     \<lparr>log_stepId = step_id step,
      log_agentName = (case find (\<lambda>a. agent_id a = step_agentId step) agents of
                          None \<Rightarrow> ''Unknown Agent''
                        | Some a \<Rightarrow> if agent_name a \<noteq> [] then agent_name a else ''Unknown Agent''),
      log_output = JString [],
      log_status = Pending\<rparr>"

definition handleRunWorkflow ::
  "(json \<Rightarrow> string) \<Rightarrow> agent list \<Rightarrow> (nat \<Rightarrow> chat_response) \<Rightarrow> bool \<Rightarrow> step_log list
     \<Rightarrow> workflow \<Rightarrow> string \<Rightarrow> step_log list \<times> wf_request list" where
  "handleRunWorkflow toStr agents chat isWFRunning workflowLogs workflow finalInput =
     (if trim finalInput = [] \<or> isWFRunning then (workflowLogs, [])
      else
        (let initialLogs = map (initial_log agents) (wf_steps workflow);
             (st, thrown) = run_steps toStr agents chat finalInput 0 (wf_steps workflow)
                \<lparr>wf_logs = initialLogs, wf_context = JString finalInput, wf_requests = []\<rparr>
         in case thrown of
              None \<Rightarrow> (wf_logs st, wf_requests st)
            | Some e \<Rightarrow>
                (map (\<lambda>log. if log_status log = Running
                             then log\<lparr>log_status := Failed,
                                      log_output := JString (''Execution failed: '' @ error_message e)\<rparr>
                             else log) (wf_logs st),
                 wf_requests st)))"

section \<open>Vocabulary of the statements about the workflow\<close>

text \<open>
  Not program code. \<open>step_agent\<close> is \<^verbatim>\<open>agents.find(a => a.id === step.agentId)\<close>. A request
  fails by a transport failure (\<open>ChatThrows\<close>) or a non-success response (\<open>ChatNotOk\<close>);
  \<open>content_of\<close> is the content the program reads from a response, if it can.
\<close>

definition step_agent :: "agent list \<Rightarrow> workflow_step \<Rightarrow> agent option" where
  "step_agent agents step = find (\<lambda>a. agent_id a = step_agentId step) agents"

definition has_agent :: "agent list \<Rightarrow> workflow_step \<Rightarrow> bool" where
  "has_agent agents step = (step_agent agents step \<noteq> None)"

fun request_failed :: "chat_response \<Rightarrow> bool" where
  "request_failed (ChatThrows e) = True"
| "request_failed (ChatNotOk errorText) = True"
| "request_failed (ChatOk data) = False"

definition content_of :: "chat_response \<Rightarrow> json option" where
  "content_of r =
     (case r of
        ChatOk data \<Rightarrow>
          (case get_prop data ''message'' of
             Inl e \<Rightarrow> None
           | Inr m \<Rightarrow>
               (case get_prop m ''content'' of
                  Inl e \<Rightarrow> None
                | Inr result \<Rightarrow> if is_nullish result then None else Some result))
      | _ \<Rightarrow> None)"

text \<open>A log entry once its step has completed with the content \<open>r\<close>.\<close>

definition completed :: "json option \<Rightarrow> step_log \<Rightarrow> step_log" where
  "completed r entry =
     (case r of Some result \<Rightarrow> entry\<lparr>log_output := result, log_status := Completed\<rparr>
              | None \<Rightarrow> entry)"

section \<open>A model of \<^verbatim>\<open>JSON.parse\<close>\<close>

text \<open>
  The program calls the parser of the platform. The functions of the program take it as a
  parameter \<open>parse\<close> (\<open>None\<close> when \<^verbatim>\<open>JSON.parse\<close> throws), and what is proved for every
  stream or content holds for every parser. The examples run the parser below, a recursive
  descent through the grammar of JSON; a number is the double nearest to its decimal
  literal. It differs from the platform in what the model of values leaves out: an escape
  \<^verbatim>\<open>\uXXXX\<close> above \<^verbatim>\<open>00FF\<close> is rejected since the strings of the model have no such code
  unit. The tests
  \<open>length rest < length cs\<close> on what a nested call leaves over always succeed (a value is
  never empty, see \<open>parse_elements_plain\<close> and \<open>parse_members_plain\<close> at the end); they are
  what the termination proof rests on.
\<close>

definition is_json_ws :: "char \<Rightarrow> bool" where
  "is_json_ws c = (c = CHR 0x20 \<or> c = CHR 0x09 \<or> c = CHR 0x0A \<or> c = CHR 0x0D)"

definition skip_ws :: "string \<Rightarrow> string" where
  "skip_ws cs = dropWhile is_json_ws cs"

definition starts :: "char \<Rightarrow> string \<Rightarrow> bool" where
  "starts c cs = (case cs of [] \<Rightarrow> False | x # xs \<Rightarrow> x = c)"

definition is_digit :: "char \<Rightarrow> bool" where
  "is_digit c = (48 \<le> (of_char c :: nat) \<and> (of_char c :: nat) \<le> 57)"

definition digit_val :: "char \<Rightarrow> int" where
  "digit_val c = of_char c - 48"

definition digits_val :: "string \<Rightarrow> int" where
  "digits_val ds = foldl (\<lambda>n c. 10 * n + digit_val c) 0 ds"

definition hex_val :: "char \<Rightarrow> nat option" where
  "hex_val c =
     (let n = (of_char c :: nat) in
      if 48 \<le> n \<and> n \<le> 57 then Some (n - 48)
      else if 65 \<le> n \<and> n \<le> 70 then Some (n - 55)
      else if 97 \<le> n \<and> n \<le> 102 then Some (n - 87)
      else None)"

definition unescape :: "char \<Rightarrow> char option" where
  "unescape e =
     (if e = CHR 0x22 then Some (CHR 0x22)
      else if e = CHR 0x5C then Some (CHR 0x5C)
      else if e = CHR ''/'' then Some (CHR ''/'')
      else if e = CHR ''b'' then Some (CHR 0x08)
      else if e = CHR ''f'' then Some (CHR 0x0C)
      else if e = CHR ''n'' then Some (CHR 0x0A)
      else if e = CHR ''r'' then Some (CHR 0x0D)
      else if e = CHR ''t'' then Some (CHR 0x09)
      else None)"

fun parse_string_chars :: "string \<Rightarrow> (string \<times> string) option" where
  "parse_string_chars [] = None"
| "parse_string_chars (c # cs) =
     (if c = CHR 0x22 then Some ([], cs)
      else if c = CHR 0x5C then
        (case cs of
           [] \<Rightarrow> None
         | e # rest \<Rightarrow>
             (if e = CHR ''u'' then
                (case rest of
                   h1 # h2 # h3 # h4 # rest' \<Rightarrow>
                     (case (hex_val h1, hex_val h2, hex_val h3, hex_val h4) of
                        (Some a, Some b, Some c', Some d) \<Rightarrow>
                          (if a = 0 \<and> b = 0
                           then map_option (\<lambda>(s, r). (char_of (16 * c' + d) # s, r))
                                  (parse_string_chars rest')
                           else None)
                      | _ \<Rightarrow> None)
                 | _ \<Rightarrow> None)
              else (case unescape e of
                      None \<Rightarrow> None
                    | Some ch \<Rightarrow> map_option (\<lambda>(s, r). (ch # s, r)) (parse_string_chars rest))))
      else if (of_char c :: nat) < 32 then None
      else map_option (\<lambda>(s, r). (c # s, r)) (parse_string_chars cs))"

definition parse_fraction :: "string \<Rightarrow> (string \<times> string) option" where
  "parse_fraction cs =
     (if starts (CHR ''.'') cs
      then (let ds = takeWhile is_digit (tl cs)
            in if ds = [] then None else Some (ds, dropWhile is_digit (tl cs)))
      else Some ([], cs))"

definition parse_exponent :: "string \<Rightarrow> (int \<times> string) option" where
  "parse_exponent cs =
     (if starts (CHR ''e'') cs \<or> starts (CHR ''E'') cs
      then (let r = tl cs;
                neg = starts (CHR ''-'') r;
                r' = (if starts (CHR ''-'') r \<or> starts (CHR ''+'') r then tl r else r);
                ds = takeWhile is_digit r'
            in if ds = [] then None
               else Some ((if neg then - digits_val ds else digits_val ds),
                          dropWhile is_digit r'))
      else Some (0, cs))"

definition parse_number :: "string \<Rightarrow> (jsnum \<times> string) option" where
  "parse_number cs =
     (let neg = starts (CHR ''-'') cs;
          cs1 = (if neg then tl cs else cs);
          ip = takeWhile is_digit cs1
      in if ip = [] \<or> (1 < length ip \<and> hd ip = CHR ''0'') then None
         else
           (case parse_fraction (dropWhile is_digit cs1) of
              None \<Rightarrow> None
            | Some (fp, cs3) \<Rightarrow>
                (case parse_exponent cs3 of
                   None \<Rightarrow> None
                 | Some (ex, cs4) \<Rightarrow>
                     (let mant = (of_int (digits_val (ip @ fp)) :: rat);
                          e10 = ex - int (length fp);
                          v = (if 0 \<le> e10 then mant * 10 ^ nat e10 else mant / 10 ^ nat (- e10))
                      in Some (if v = 0 then (if neg then NegZero else Fin 0)
                               else round_double (if neg then - v else v), cs4)))))"

function parse_value :: "string \<Rightarrow> (json \<times> string) option"
  and parse_elements :: "string \<Rightarrow> (json list \<times> string) option"
  and parse_members :: "string \<Rightarrow> ((string \<times> json) list \<times> string) option" where
  "parse_value cs =
     (case cs of
        [] \<Rightarrow> None
      | c # rest \<Rightarrow>
          (if c = CHR ''{'' then
             (if starts (CHR ''}'') (skip_ws rest) then Some (JObject [], tl (skip_ws rest))
              else map_option (\<lambda>(kvs, r). (JObject (foldl (\<lambda>obj (k, v). obj_put k v obj) [] kvs), r))
                     (parse_members (skip_ws rest)))
           else if c = CHR ''['' then
             (if starts (CHR '']'') (skip_ws rest) then Some (JArray [], tl (skip_ws rest))
              else map_option (\<lambda>(xs, r). (JArray xs, r)) (parse_elements (skip_ws rest)))
           else if c = CHR 0x22 then
             map_option (\<lambda>(s, r). (JString s, r)) (parse_string_chars rest)
           else if c = CHR ''-'' \<or> is_digit c then
             map_option (\<lambda>(n, r). (JNumber n, r)) (parse_number cs)
           else if take 4 cs = ''true'' then Some (JBool True, drop 4 cs)
           else if take 5 cs = ''false'' then Some (JBool False, drop 5 cs)
           else if take 4 cs = ''null'' then Some (JNull, drop 4 cs)
           else None))"
| "parse_elements cs =
     (case parse_value cs of
        None \<Rightarrow> None
      | Some (v, rest) \<Rightarrow>
          (if length rest < length cs then
             (if starts (CHR '','') (skip_ws rest)
              then map_option (\<lambda>(vs, r). (v # vs, r)) (parse_elements (skip_ws (tl (skip_ws rest))))
              else if starts (CHR '']'') (skip_ws rest) then Some ([v], tl (skip_ws rest))
              else None)
           else None))"
| "parse_members cs =
     (if starts (CHR 0x22) cs then
        (case parse_string_chars (tl cs) of
           None \<Rightarrow> None
         | Some (k, r1) \<Rightarrow>
             (if starts (CHR '':'') (skip_ws r1) \<and> length r1 < length cs then
                (case parse_value (skip_ws (tl (skip_ws r1))) of
                   None \<Rightarrow> None
                 | Some (v, rest) \<Rightarrow>
                     (if length rest < length cs then
                        (if starts (CHR '','') (skip_ws rest)
                         then map_option (\<lambda>(kvs, r). ((k, v) # kvs, r))
                                (parse_members (skip_ws (tl (skip_ws rest))))
                         else if starts (CHR ''}'') (skip_ws rest) then Some ([(k, v)], tl (skip_ws rest))
                         else None)
                      else None))
              else None))
      else None)"
  by pat_completeness auto

termination
proof (relation "measure (\<lambda>x. case x of
          Inl cs \<Rightarrow> 2 * length cs
        | Inr (Inl cs) \<Rightarrow> 2 * length cs + 1
        | Inr (Inr cs) \<Rightarrow> 2 * length cs + 1)", goal_cases)
  case 1
  show ?case by simp
next
  case (2 cs c rest)
  then show ?case
    using length_dropWhile_le [of is_json_ws rest] by (auto simp: skip_ws_def)
next
  case (3 cs c rest)
  then show ?case
    using length_dropWhile_le [of is_json_ws rest] by (auto simp: skip_ws_def)
next
  case (4 cs)
  show ?case by simp
next
  case (5 cs x2 v rest)
  then show ?case
    using length_dropWhile_le [of is_json_ws rest]
      length_dropWhile_le [of is_json_ws "tl (dropWhile is_json_ws rest)"]
    by (auto simp: skip_ws_def)
next
  case (6 cs x2 k r1)
  then show ?case
    using length_dropWhile_le [of is_json_ws r1]
      length_dropWhile_le [of is_json_ws "tl (dropWhile is_json_ws r1)"]
    by (auto simp: skip_ws_def)
next
  case (7 cs x2 k r1 x2a v rest)
  then show ?case
    using length_dropWhile_le [of is_json_ws rest]
      length_dropWhile_le [of is_json_ws "tl (dropWhile is_json_ws rest)"]
    by (auto simp: skip_ws_def)
qed

declare parse_value.simps [simp del] parse_elements.simps [simp del] parse_members.simps [simp del]

definition JSON_parse :: "string \<Rightarrow> json option" where
  "JSON_parse s =
     (case parse_value (skip_ws s) of
        None \<Rightarrow> None
      | Some (v, rest) \<Rightarrow> if skip_ws rest = [] then Some v else None)"

lemmas json_eval = JSON_parse_def parse_value.simps parse_elements.simps parse_members.simps
  skip_ws_def is_json_ws_def starts_def is_digit_def digit_val_def digits_val_def
  parse_number_def parse_fraction_def parse_exponent_def unescape_def hex_val_def Let_def


section \<open>Stream decoder (\<^verbatim>\<open>readStream\<close>)\<close>

text \<open>\<^verbatim>\<open>chunk.split('\n')\<close>: the pieces between the line feeds, at least one.\<close>

fun split_nl :: "string \<Rightarrow> string list" where
  "split_nl [] = [[]]"
| "split_nl (c # cs) =
     (if c = CHR 0x0A then [] # split_nl cs
      else (case split_nl cs of [] \<Rightarrow> [[c]] | l # ls \<Rightarrow> (c # l) # ls))"

text \<open>
  \<^verbatim>\<open>updateAssistantMessage(sessionId, content, stats, sources)\<close> on the messages of the
  session: a new assistant message is appended unless the last message is one, which then
  gets the content, and the statistics and sources if they are given.
\<close>

definition updateAssistantMessage :: "string \<Rightarrow> json \<Rightarrow> json \<Rightarrow> json list \<Rightarrow> json list" where
  "updateAssistantMessage content stats sources messages =
     (if messages = [] \<or> opt_prop (last messages) ''role'' \<noteq> JString ''assistant''
      then messages @ [JObject [(''role'', JString ''assistant''), (''content'', JString content),
                                (''stats'', stats), (''sources'', sources)]]
      else butlast messages @
        [JObject
           (obj_put ''sources'' (js_or sources (opt_prop (last messages) ''sources''))
             (obj_put ''stats'' (js_or stats (opt_prop (last messages) ''stats''))
               (obj_put ''content'' (JString content) (spread (last messages)))))])"

text \<open>
  The local variables of \<^verbatim>\<open>readStream\<close> (\<^verbatim>\<open>assistantMessageContent\<close>, \<^verbatim>\<open>toolCalls\<close>,
  \<^verbatim>\<open>fullMessage\<close>) and the messages of the session that the update callback writes.
\<close>

record stream_state =
  ss_content :: string
  ss_toolCalls :: "json list"
  ss_message :: json
  ss_messages :: "json list"

text \<open>
  The elements that \<^verbatim>\<open>toolCalls.push(...v)\<close> appends: those of an array, the characters of a
  string; spreading another value throws a TypeError.
\<close>

definition spread_elements :: "json \<Rightarrow> js_error + json list" where
  "spread_elements v =
     (case v of
        JArray xs \<Rightarrow> Inr xs
      | JString s \<Rightarrow> Inr (map (\<lambda>c. JString [c]) s)
      | _ \<Rightarrow> Inl (TypeError ''Spread syntax requires ...iterable[Symbol.iterator] to be a function''))"

text \<open>
  What \<^verbatim>\<open>if (data.message.tool_calls) { toolCalls.push(...data.message.tool_calls); }\<close>
  appends, inside \<^verbatim>\<open>if (data.message)\<close>.
\<close>

definition pushed_calls :: "json \<Rightarrow> js_error + json list" where
  "pushed_calls message =
     (if truthy message \<and> truthy (opt_prop message ''tool_calls'')
      then spread_elements (opt_prop message ''tool_calls'')
      else Inr [])"

text \<open>
  \<^verbatim>\<open>data.done ? { totalTokens: data.eval_count, tokensPerSecond: data.eval_count /
  (data.eval_duration / 1e9) } : undefined\<close>
\<close>

definition stats_of :: "(json \<Rightarrow> jsnum) \<Rightarrow> json \<Rightarrow> json" where
  "stats_of toNum data =
     (if truthy (opt_prop data ''done'')
      then JObject
        [(''totalTokens'', opt_prop data ''eval_count''),
         (''tokensPerSecond'',
            JNumber (js_div (js_Number toNum (opt_prop data ''eval_count''))
                       (js_div (js_Number toNum (opt_prop data ''eval_duration''))
                          (Fin 1000000000))))]
      else JUndefined)"

text \<open>
  The body of \<^verbatim>\<open>for (const line of lines)\<close>. An error thrown inside the \<^verbatim>\<open>try\<close> is caught
  and logged: the line is given up where it stands, with what it has already stored.
\<close>

definition process_line ::
  "(string \<Rightarrow> json option) \<Rightarrow> (json \<Rightarrow> string) \<Rightarrow> (json \<Rightarrow> jsnum) \<Rightarrow> json
     \<Rightarrow> stream_state \<Rightarrow> string \<Rightarrow> stream_state" where
  "process_line parse toStr toNum sources st line =
     (if trim line = [] then st
      else
        (case parse line of
           None \<Rightarrow> st
         | Some data \<Rightarrow>
             (case get_prop data ''message'' of
                Inl e \<Rightarrow> st
              | Inr message \<Rightarrow>
                  (let st1 =
                         (if truthy message
                          then st\<lparr>ss_message := message,
                                  ss_content :=
                                    (if truthy (opt_prop message ''content'')
                                     then ss_content st @ js_String toStr (opt_prop message ''content'')
                                     else ss_content st)\<rparr>
                          else st);
                       pushed = pushed_calls message
                   in case pushed of
                        Inl e \<Rightarrow> st1
                      | Inr calls \<Rightarrow>
                          st1\<lparr>ss_toolCalls := ss_toolCalls st1 @ calls,
                              ss_messages :=
                                updateAssistantMessage (ss_content st1) (stats_of toNum data) sources
                                  (ss_messages st1)\<rparr>))))"

text \<open>The inner loop over the lines of one chunk.\<close>

definition process_chunk ::
  "(string \<Rightarrow> json option) \<Rightarrow> (json \<Rightarrow> string) \<Rightarrow> (json \<Rightarrow> jsnum) \<Rightarrow> json
     \<Rightarrow> stream_state \<Rightarrow> string \<Rightarrow> stream_state" where
  "process_chunk parse toStr toNum sources st chunk =
     foldl (process_line parse toStr toNum sources) st (split_nl chunk)"

text \<open>
  \<^verbatim>\<open>readStream(reader, sessionId, sources)\<close>. \<open>chunks\<close> are the texts that
  \<^verbatim>\<open>decoder.decode(value, { stream: true })\<close> gives for the reads up to \<^verbatim>\<open>done\<close>, and
  \<open>messages\<close> the messages of the session. The result holds the returned
  \<^verbatim>\<open>{ content, toolCalls, message }\<close> and the messages of the session at the end.
\<close>

definition readStream ::
  "(string \<Rightarrow> json option) \<Rightarrow> (json \<Rightarrow> string) \<Rightarrow> (json \<Rightarrow> jsnum) \<Rightarrow> json
     \<Rightarrow> string list \<Rightarrow> json list \<Rightarrow> stream_state" where
  "readStream parse toStr toNum sources chunks messages =
     foldl (process_chunk parse toStr toNum sources)
       \<lparr>ss_content = [], ss_toolCalls = [], ss_message = JNull,
        ss_messages =
          (if messages = [] \<or> opt_prop (last messages) ''role'' \<noteq> JString ''assistant''
           then messages @ [JObject [(''role'', JString ''assistant''), (''content'', JString []),
                                     (''sources'', sources)]]
           else messages)\<rparr>
       chunks"

text \<open>
  Stand-ins for the conversions of the platform in the examples, right for an empty object
  (\<^verbatim>\<open>String({})\<close>, \<^verbatim>\<open>Number({})\<close> and \<^verbatim>\<open>JSON.stringify({})\<close>); the examples convert no
  number, array or object to a string, no string, array or object to a number, and take no
  result from \<^verbatim>\<open>JSON.stringify\<close>.
\<close>

definition object_String :: "json \<Rightarrow> string" where
  "object_String v = ''[object Object]''"

definition object_Number :: "json \<Rightarrow> jsnum" where
  "object_Number v = NaN"

definition empty_object_text :: "json \<Rightarrow> string" where
  "empty_object_text v = ''{}''"

section \<open>Tool call resolver (the fallbacks of \<^verbatim>\<open>handleSendMessage\<close>)\<close>

text \<open>
  \<^verbatim>\<open>content.match(/\{[\s\S]*\}/)\<close>: the match, if any, runs from the first \<^verbatim>\<open>{\<close> to the last
  \<^verbatim>\<open>}\<close> after it.
\<close>

definition json_span :: "string \<Rightarrow> string option" where
  "json_span content =
     (let s = dropWhile (\<lambda>c. c \<noteq> CHR ''{'') content
      in if CHR ''}'' \<in> set s then Some (rev (dropWhile (\<lambda>c. c \<noteq> CHR ''}'') (rev s))) else None)"

text \<open>\<^verbatim>\<open>s.replace(pat, "")\<close> for a string \<open>pat\<close>: the first occurrence is removed.\<close>

fun remove_first :: "string \<Rightarrow> string \<Rightarrow> string" where
  "remove_first pat [] = []"
| "remove_first pat (c # cs) =
     (if take (length pat) (c # cs) = pat then drop (length pat) (c # cs)
      else c # remove_first pat cs)"

definition is_string :: "json \<Rightarrow> bool" where
  "is_string v = (case v of JString s \<Rightarrow> True | _ \<Rightarrow> False)"

text \<open>
  \<^verbatim>\<open>potentialTool.name || potentialTool.function\<close> and
  \<^verbatim>\<open>potentialTool.arguments || potentialTool.parameters || potentialTool.params\<close>, the latter
  after \<^verbatim>\<open>if (Array.isArray(toolArgs)) toolArgs = toolArgs[0] || {}\<close>.
\<close>

definition sniffed_name :: "json \<Rightarrow> json" where
  "sniffed_name potentialTool =
     js_or (opt_prop potentialTool ''name'') (opt_prop potentialTool ''function'')"

definition sniffed_args :: "json \<Rightarrow> json" where
  "sniffed_args potentialTool =
     (let toolArgs = js_or (opt_prop potentialTool ''arguments'')
                       (js_or (opt_prop potentialTool ''parameters'')
                              (opt_prop potentialTool ''params''))
      in case toolArgs of
           JArray xs \<Rightarrow> js_or (opt_index0 toolArgs) (JObject [])
         | _ \<Rightarrow> toolArgs)"

text \<open>
  Fallback 1, JSON sniffing, entered with no tool call from the stream. The result is the
  new \<^verbatim>\<open>toolCalls\<close> and \<^verbatim>\<open>content\<close>; \<open>now\<close> is \<^verbatim>\<open>Date.now()\<close>. An error thrown inside the
  \<^verbatim>\<open>try\<close> (by the parser, or by reading a property of \<^verbatim>\<open>null\<close>) leaves both as they were.
\<close>

definition json_sniff :: "(string \<Rightarrow> json option) \<Rightarrow> nat \<Rightarrow> string \<Rightarrow> json list \<times> string" where
  "json_sniff parse now content =
     (if CHR ''{'' \<in> set (trim content) then
        (case json_span content of
           None \<Rightarrow> ([], content)
         | Some jsonMatch \<Rightarrow>
             (case parse jsonMatch of
                None \<Rightarrow> ([], content)
              | Some potentialTool \<Rightarrow>
                  (if is_nullish potentialTool then ([], content)
                   else if truthy (sniffed_name potentialTool)
                           \<and> is_string (sniffed_name potentialTool) then
                     ([JObject
                         [(''id'', JString (''call_fallback_json_'' @ nat_text now)),
                          (''function'', JObject
                             [(''name'', sniffed_name potentialTool),
                              (''arguments'', sniffed_args potentialTool)])]],
                      trim (remove_first jsonMatch content))
                   else ([], content))))
      else ([], content))"

definition is_ident_char :: "char \<Rightarrow> bool" where
  "is_ident_char c =
     (let n = (of_char c :: nat)
      in (97 \<le> n \<and> n \<le> 122) \<or> (65 \<le> n \<and> n \<le> 90) \<or> (48 \<le> n \<and> n \<le> 57) \<or> c = CHR ''_'')"

text \<open>
  The lazy group \<^verbatim>\<open>(.*?)\<close> followed by \<^verbatim>\<open>\)\]\<close>, right after the opening parenthesis: the
  shortest text without a line terminator that is followed by \<^verbatim>\<open>)]\<close>.
\<close>

fun lazy_args :: "string \<Rightarrow> string option" where
  "lazy_args [] = None"
| "lazy_args (c # cs) =
     (if c = CHR '')'' \<and> starts (CHR '']'') cs then Some []
      else if c = CHR 0x0A \<or> c = CHR 0x0D then None
      else map_option ((#) c) (lazy_args cs))"

text \<open>
  \<^verbatim>\<open>/\[([a-zA-Z0-9_]+)(?:\((.*?)\))?\]/\<close> tried at the start of a text: the name, the second
  group if it took part, and the length of the match.
\<close>

definition bracket_at :: "string \<Rightarrow> (string \<times> string option \<times> nat) option" where
  "bracket_at s =
     (if starts (CHR ''['') s then
        (let name = takeWhile is_ident_char (tl s);
             after = dropWhile is_ident_char (tl s)
         in if name = [] then None
            else if starts (CHR '']'') after then Some (name, None, length name + 2)
            else if starts (CHR ''('') after then
              (case lazy_args (tl after) of
                 None \<Rightarrow> None
               | Some raw \<Rightarrow> Some (name, Some raw, length name + length raw + 4))
            else None)
      else None)"

text \<open>\<^verbatim>\<open>content.match(...)\<close>: the leftmost match, as name, second group and matched text.\<close>

fun bracket_match :: "string \<Rightarrow> (string \<times> string option \<times> string) option" where
  "bracket_match [] = None"
| "bracket_match (c # cs) =
     (case bracket_at (c # cs) of
        Some (name, grp, n) \<Rightarrow> Some (name, grp, take n (c # cs))
      | None \<Rightarrow> bracket_match cs)"

text \<open>
  The arguments of a bracket call: none without a second group (or with an empty one, which
  is falsy), else the parsed group, else the raw text under \<^verbatim>\<open>input\<close>.
\<close>

definition bracket_args :: "(string \<Rightarrow> json option) \<Rightarrow> string option \<Rightarrow> json" where
  "bracket_args parse grp =
     (case grp of
        None \<Rightarrow> JObject []
      | Some raw \<Rightarrow>
          (if raw = [] then JObject []
           else (case parse raw of
                   Some v \<Rightarrow> v
                 | None \<Rightarrow> JObject [(''input'', JString raw)])))"

text \<open>Fallback 2, bracket sniffing, entered with no tool call so far.\<close>

definition bracket_sniff ::
  "(string \<Rightarrow> json option) \<Rightarrow> nat \<Rightarrow> tool_fn list \<Rightarrow> string \<Rightarrow> json list \<times> string" where
  "bracket_sniff parse now mcpTools content =
     (if CHR ''['' \<in> set content \<and> CHR '']'' \<in> set content then
        (case bracket_match content of
           None \<Rightarrow> ([], content)
         | Some (toolName, grp, matched) \<Rightarrow>
             (let toolArgs = bracket_args parse grp
              in if list_ex (\<lambda>t. fn_name t = toolName) mcpTools then
                   ([JObject
                       [(''id'', JString (''call_fallback_bracket_'' @ nat_text now)),
                        (''function'', JObject [(''name'', JString toolName),
                                                (''arguments'', toolArgs)])]],
                    trim (remove_first matched content))
                 else ([], content)))
      else ([], content))"

text \<open>
  The block \<^verbatim>\<open>// --- SMART TOOL FALLBACK ---\<close>: the tool calls of the stream are used as
  they are; without any, JSON sniffing is tried, and bracket sniffing if that gave none.
\<close>

definition resolve_tool_calls ::
  "(string \<Rightarrow> json option) \<Rightarrow> nat \<Rightarrow> tool_fn list \<Rightarrow> json list \<Rightarrow> string \<Rightarrow> json list \<times> string" where
  "resolve_tool_calls parse now mcpTools toolCalls content =
     (if toolCalls = [] then
        (let (sniffed, content1) = json_sniff parse now content
         in if sniffed = [] then bracket_sniff parse now mcpTools content1
            else (sniffed, content1))
      else (toolCalls, content))"

text \<open>
  \<^verbatim>\<open>handleSendMessage\<close> from the end of the first stream to the sending of the follow-up
  request: resolution, then the tool round.
\<close>

definition resolve_and_execute ::
  "(string \<Rightarrow> json option) \<Rightarrow> (json \<Rightarrow> string) \<Rightarrow> (json \<Rightarrow> string) \<Rightarrow> nat \<Rightarrow> (nat \<Rightarrow> nat)
     \<Rightarrow> (string \<Rightarrow> json \<Rightarrow> json \<Rightarrow> js_error + json) \<Rightarrow> bool \<Rightarrow> string \<Rightarrow> tool_fn list
     \<Rightarrow> stream_state \<Rightarrow> turn_state \<Rightarrow> turn_state" where
  "resolve_and_execute parse stringify toStr now clock post mcpEnabled model mcpTools streamed ts =
     (let (toolCalls, content) =
            resolve_tool_calls parse now mcpTools (ss_toolCalls streamed) (ss_content streamed)
      in tool_phase stringify toStr clock post mcpEnabled model mcpTools content toolCalls
           (ss_message streamed) (ts\<lparr>ts_messages := ss_messages streamed\<rparr>))"

section \<open>Vocabulary of the statements about the stream decoder\<close>

text \<open>
  Not program code. A chunk ends a line when the read stops right after a line feed (or
  delivers nothing): the next read then starts a new line.
\<close>

definition ends_line :: "string \<Rightarrow> bool" where
  "ends_line chunk = (chunk = [] \<or> last chunk = CHR 0x0A)"

section \<open>Vocabulary of the statements about the resolver\<close>

text \<open>
  Not program code. \<open>bracket_text\<close> is the text a bracket pattern matches:
  \<^verbatim>\<open>[name]\<close> or \<^verbatim>\<open>[name(args)]\<close>.
\<close>

definition bracket_text :: "string \<Rightarrow> string option \<Rightarrow> string" where
  "bracket_text name grp =
     (case grp of
        None \<Rightarrow> ''['' @ name @ '']''
      | Some raw \<Rightarrow> ''['' @ name @ ''('' @ raw @ '')]'')"

section \<open>Properties of the registry poller\<close>

lemma syncTools_eq:
  "length outcomes = length mcpServers \<Longrightarrow>
   syncTools outcomes mcpServers = map2 sync_server outcomes mcpServers"
  by (simp add: syncTools_def Let_def)

lemma syncTools_nth:
  assumes "length outcomes = length mcpServers" and "i < length mcpServers"
  shows "syncTools outcomes mcpServers ! i = sync_server (outcomes ! i) (mcpServers ! i)"
  using assms by (simp add: syncTools_eq)

lemma sync_server_ok:
  "sync_server (ProbeOk rt) server =
     (if srv_status server = Offline \<or> srv_tools server = None
         \<or> (\<exists>old. srv_tools server = Some old \<and> length old \<noteq> length (case rt of Some ts \<Rightarrow> ts | None \<Rightarrow> []))
      then server\<lparr>srv_status := Online,
                   srv_tools := Some (case rt of Some ts \<Rightarrow> ts | None \<Rightarrow> []),
                   srv_toolCount := Some (length (case rt of Some ts \<Rightarrow> ts | None \<Rightarrow> []))\<rparr>
      else server\<lparr>srv_status := Online\<rparr>)"
  by (cases "srv_tools server") (simp_all add: sync_server_def Let_def)

lemma sync_server_throws:
  "sync_server ProbeThrows server =
     (if srv_status server = Online
      then server\<lparr>srv_status := Offline, srv_tools := Some [], srv_toolCount := Some 0\<rparr>
      else server)"
  by (simp add: sync_server_def)

lemma sync_server_not_ok:
  "sync_server ProbeNotOk server = server\<lparr>srv_status := Online\<rparr>"
  by (simp add: sync_server_def)

lemma sync_server_offline_only_throws:
  "srv_status (sync_server p server) = Offline \<Longrightarrow> p = ProbeThrows"
  by (cases p) (auto simp: sync_server_def Let_def split: if_splits option.splits)

text \<open>
  Claim C3, as the code has it. After a successful probe (\<open>ProbeOk\<close>) the endpoint is
  online, and its cached descriptor list and tool count are either replaced wholesale by
  the list of the response, empty when the response has none (when the endpoint was
  offline, had no cached list, or its cached list has another length than the new one), or
  kept wholesale (when it was already online with a cached list of the same length). The
  list is never patched element by element.
\<close>

theorem C3_successful_probe_replaces_unless_same_length:
  assumes len: "length outcomes = length mcpServers"
    and i: "i < length mcpServers"
    and ok: "outcomes ! i = ProbeOk response"
    and new: "newTools = (case response of Some ts \<Rightarrow> ts | None \<Rightarrow> [])"
  shows "srv_status (syncTools outcomes mcpServers ! i) = Online
       \<and> (if srv_status (mcpServers ! i) = Offline
             \<or> srv_tools (mcpServers ! i) = None
             \<or> (\<exists>old. srv_tools (mcpServers ! i) = Some old \<and> length old \<noteq> length newTools)
          then srv_tools (syncTools outcomes mcpServers ! i) = Some newTools
             \<and> srv_toolCount (syncTools outcomes mcpServers ! i) = Some (length newTools)
          else srv_tools (syncTools outcomes mcpServers ! i) = srv_tools (mcpServers ! i)
             \<and> srv_toolCount (syncTools outcomes mcpServers ! i) = srv_toolCount (mcpServers ! i))"
  unfolding syncTools_nth [OF len i] ok sync_server_ok new by auto

theorem C3_witness:
  "srv_status (syncTools [ProbeOk (Some [JString ''get_weather''])]
       [\<lparr>srv_name = ''Time & Weather'', srv_url = ''http://localhost:8000'',
         srv_status = Offline, srv_toolCount = Some 1,
         srv_tools = Some [JString ''get_time'']\<rparr>] ! 0) = Online
   \<and> srv_tools (syncTools [ProbeOk (Some [JString ''get_weather''])]
       [\<lparr>srv_name = ''Time & Weather'', srv_url = ''http://localhost:8000'',
         srv_status = Offline, srv_toolCount = Some 1,
         srv_tools = Some [JString ''get_time'']\<rparr>] ! 0) = Some [JString ''get_weather'']
   \<and> srv_toolCount (syncTools [ProbeOk (Some [JString ''get_weather''])]
       [\<lparr>srv_name = ''Time & Weather'', srv_url = ''http://localhost:8000'',
         srv_status = Offline, srv_toolCount = Some 1,
         srv_tools = Some [JString ''get_time'']\<rparr>] ! 0) = Some 1"
  using C3_successful_probe_replaces_unless_same_length
    [of "[ProbeOk (Some [JString ''get_weather''])]"
        "[\<lparr>srv_name = ''Time & Weather'', srv_url = ''http://localhost:8000'',
          srv_status = Offline, srv_toolCount = Some 1,
          srv_tools = Some [JString ''get_time'']\<rparr>]"
        0 "Some [JString ''get_weather'']" "[JString ''get_weather'']"]
  by simp

text \<open>
  Claim C3 as stated fails: an endpoint that is already online and caches one descriptor
  keeps that descriptor when a successful probe returns one other descriptor.
\<close>

theorem C3_counterexample:
  "srv_tools (syncTools [ProbeOk (Some [JString ''get_weather''])]
       [\<lparr>srv_name = ''Time & Weather'', srv_url = ''http://localhost:8000'',
         srv_status = Online, srv_toolCount = Some 1,
         srv_tools = Some [JString ''get_time'']\<rparr>] ! 0) = Some [JString ''get_time'']
   \<and> Some [JString ''get_time''] \<noteq> Some [JString ''get_weather'']"
  by (simp add: syncTools_def sync_server_def)

text \<open>
  Claim C9, as the code has it. A probe fails for the code when it throws (\<open>ProbeThrows\<close>,
  the \<^verbatim>\<open>catch\<close> branch): after a poll an endpoint is offline only if its probe threw; a
  probe that throws makes an online endpoint offline with an empty tool list and a tool
  count of zero, and leaves an offline endpoint as it was. A probe answered by a response
  that is not a success (\<open>ProbeNotOk\<close>) is not a failure for the code: the endpoint is
  online after it, with the tool list and the tool count it had, so that an offline
  endpoint comes online with its old list.
\<close>

theorem C9_offline_only_after_failed_probe:
  assumes len: "length outcomes = length mcpServers"
    and i: "i < length mcpServers"
  shows "(srv_status (syncTools outcomes mcpServers ! i) = Offline \<longrightarrow> outcomes ! i = ProbeThrows)
       \<and> (srv_status (mcpServers ! i) = Online \<and> outcomes ! i = ProbeThrows \<longrightarrow>
            syncTools outcomes mcpServers ! i =
              (mcpServers ! i)\<lparr>srv_status := Offline, srv_tools := Some [], srv_toolCount := Some 0\<rparr>)
       \<and> (srv_status (mcpServers ! i) = Offline \<and> outcomes ! i = ProbeThrows \<longrightarrow>
            syncTools outcomes mcpServers ! i = mcpServers ! i)
       \<and> (outcomes ! i = ProbeNotOk \<longrightarrow>
            syncTools outcomes mcpServers ! i = (mcpServers ! i)\<lparr>srv_status := Online\<rparr>)"
  unfolding syncTools_nth [OF len i]
  by (auto dest: sync_server_offline_only_throws simp: sync_server_throws sync_server_not_ok)

theorem C9_witness:
  "syncTools [ProbeThrows, ProbeThrows, ProbeNotOk]
       [\<lparr>srv_name = ''A'', srv_url = ''http://a'', srv_status = Online,
         srv_toolCount = Some 1, srv_tools = Some [JString ''get_time'']\<rparr>,
        \<lparr>srv_name = ''B'', srv_url = ''http://b'', srv_status = Offline,
         srv_toolCount = Some 1, srv_tools = Some [JString ''get_weather'']\<rparr>,
        \<lparr>srv_name = ''C'', srv_url = ''http://c'', srv_status = Online,
         srv_toolCount = Some 1, srv_tools = Some [JString ''get_date'']\<rparr>] ! 0
     = \<lparr>srv_name = ''A'', srv_url = ''http://a'', srv_status = Offline,
         srv_toolCount = Some 0, srv_tools = Some []\<rparr>
   \<and> syncTools [ProbeThrows, ProbeThrows, ProbeNotOk]
       [\<lparr>srv_name = ''A'', srv_url = ''http://a'', srv_status = Online,
         srv_toolCount = Some 1, srv_tools = Some [JString ''get_time'']\<rparr>,
        \<lparr>srv_name = ''B'', srv_url = ''http://b'', srv_status = Offline,
         srv_toolCount = Some 1, srv_tools = Some [JString ''get_weather'']\<rparr>,
        \<lparr>srv_name = ''C'', srv_url = ''http://c'', srv_status = Online,
         srv_toolCount = Some 1, srv_tools = Some [JString ''get_date'']\<rparr>] ! 1
     = \<lparr>srv_name = ''B'', srv_url = ''http://b'', srv_status = Offline,
         srv_toolCount = Some 1, srv_tools = Some [JString ''get_weather'']\<rparr>
   \<and> syncTools [ProbeThrows, ProbeThrows, ProbeNotOk]
       [\<lparr>srv_name = ''A'', srv_url = ''http://a'', srv_status = Online,
         srv_toolCount = Some 1, srv_tools = Some [JString ''get_time'']\<rparr>,
        \<lparr>srv_name = ''B'', srv_url = ''http://b'', srv_status = Offline,
         srv_toolCount = Some 1, srv_tools = Some [JString ''get_weather'']\<rparr>,
        \<lparr>srv_name = ''C'', srv_url = ''http://c'', srv_status = Online,
         srv_toolCount = Some 1, srv_tools = Some [JString ''get_date'']\<rparr>] ! 2
     = \<lparr>srv_name = ''C'', srv_url = ''http://c'', srv_status = Online,
         srv_toolCount = Some 1, srv_tools = Some [JString ''get_date'']\<rparr>"
  using C9_offline_only_after_failed_probe
    [of "[ProbeThrows, ProbeThrows, ProbeNotOk]"
        "[\<lparr>srv_name = ''A'', srv_url = ''http://a'', srv_status = Online,
          srv_toolCount = Some 1, srv_tools = Some [JString ''get_time'']\<rparr>,
         \<lparr>srv_name = ''B'', srv_url = ''http://b'', srv_status = Offline,
          srv_toolCount = Some 1, srv_tools = Some [JString ''get_weather'']\<rparr>,
         \<lparr>srv_name = ''C'', srv_url = ''http://c'', srv_status = Online,
          srv_toolCount = Some 1, srv_tools = Some [JString ''get_date'']\<rparr>]" 0]
    C9_offline_only_after_failed_probe
    [of "[ProbeThrows, ProbeThrows, ProbeNotOk]"
        "[\<lparr>srv_name = ''A'', srv_url = ''http://a'', srv_status = Online,
          srv_toolCount = Some 1, srv_tools = Some [JString ''get_time'']\<rparr>,
         \<lparr>srv_name = ''B'', srv_url = ''http://b'', srv_status = Offline,
          srv_toolCount = Some 1, srv_tools = Some [JString ''get_weather'']\<rparr>,
         \<lparr>srv_name = ''C'', srv_url = ''http://c'', srv_status = Online,
          srv_toolCount = Some 1, srv_tools = Some [JString ''get_date'']\<rparr>]" 1]
    C9_offline_only_after_failed_probe
    [of "[ProbeThrows, ProbeThrows, ProbeNotOk]"
        "[\<lparr>srv_name = ''A'', srv_url = ''http://a'', srv_status = Online,
          srv_toolCount = Some 1, srv_tools = Some [JString ''get_time'']\<rparr>,
         \<lparr>srv_name = ''B'', srv_url = ''http://b'', srv_status = Offline,
          srv_toolCount = Some 1, srv_tools = Some [JString ''get_weather'']\<rparr>,
         \<lparr>srv_name = ''C'', srv_url = ''http://c'', srv_status = Online,
          srv_toolCount = Some 1, srv_tools = Some [JString ''get_date'']\<rparr>]" 2]
  by simp

text \<open>
  Claim C9 as stated fails when a response that is not a success counts as a failed probe:
  such a probe of an offline endpoint does not leave it unchanged, the endpoint comes
  online with the tool list it had; and such a probe of an online endpoint neither makes it
  offline nor clears its tools.
\<close>

theorem C9_counterexample:
  "syncTools [ProbeNotOk]
       [\<lparr>srv_name = ''B'', srv_url = ''http://b'', srv_status = Offline,
         srv_toolCount = Some 1, srv_tools = Some [JString ''get_weather'']\<rparr>]
     = [\<lparr>srv_name = ''B'', srv_url = ''http://b'', srv_status = Online,
         srv_toolCount = Some 1, srv_tools = Some [JString ''get_weather'']\<rparr>]
   \<and> [\<lparr>srv_name = ''B'', srv_url = ''http://b'', srv_status = Online,
         srv_toolCount = Some 1, srv_tools = Some [JString ''get_weather'']\<rparr>]
       \<noteq> [\<lparr>srv_name = ''B'', srv_url = ''http://b'', srv_status = Offline,
         srv_toolCount = Some 1, srv_tools = Some [JString ''get_weather'']\<rparr>]
   \<and> syncTools [ProbeNotOk]
       [\<lparr>srv_name = ''C'', srv_url = ''http://c'', srv_status = Online,
         srv_toolCount = Some 1, srv_tools = Some [JString ''get_date'']\<rparr>]
     = [\<lparr>srv_name = ''C'', srv_url = ''http://c'', srv_status = Online,
         srv_toolCount = Some 1, srv_tools = Some [JString ''get_date'']\<rparr>]"
  by (simp add: syncTools_def sync_server_def)

section \<open>Properties of the tool executor\<close>

lemma executeMcpTool_sent:
  "snd (executeMcpTool stringify post toolName args serverUrl) = [ToolsCall serverUrl toolName args]"
  by (simp add: executeMcpTool_def Let_def split: sum.splits)

lemma truthy_js_or_string:
  "s \<noteq> [] \<Longrightarrow> truthy (js_or a (JString s))"
  by (simp add: js_or_def)

text \<open>
  Claim C8. \<^verbatim>\<open>executeMcpTool\<close> always returns a value and sends exactly one request (no
  retry). A failure, which is a thrown error of the request or of reading the body, or a
  body that is \<^verbatim>\<open>null\<close>, becomes the string \<^verbatim>\<open>Error: Tool execution failed. <message>\<close>.
  Otherwise the result is the first one that is present with a truthy (non-empty) value
  of: the \<^verbatim>\<open>text\<close> of the first element of \<^verbatim>\<open>result.content\<close>, \<^verbatim>\<open>result.text\<close>,
  \<^verbatim>\<open>JSON.stringify(result)\<close>; when there is none it is \<^verbatim>\<open>Tool returned no data.\<close>
\<close>

theorem C8_executeMcpTool_returns_text_or_error_string:
  "snd (executeMcpTool stringify post toolName args serverUrl) = [ToolsCall serverUrl toolName args]
   \<and> truthy (fst (executeMcpTool stringify post toolName args serverUrl))
   \<and> (\<forall>e. post serverUrl toolName args = Inl e \<longrightarrow>
          fst (executeMcpTool stringify post toolName args serverUrl)
            = JString (''Error: Tool execution failed. '' @ error_message e))
   \<and> (\<forall>data e. post serverUrl toolName args = Inr data \<and> get_prop data ''result'' = Inl e \<longrightarrow>
          fst (executeMcpTool stringify post toolName args serverUrl)
            = JString (''Error: Tool execution failed. '' @ error_message e))
   \<and> (\<forall>data res. post serverUrl toolName args = Inr data \<and> get_prop data ''result'' = Inr res \<longrightarrow>
          fst (executeMcpTool stringify post toolName args serverUrl)
            = (if truthy (opt_prop (opt_index0 (opt_prop res ''content'')) ''text'')
               then opt_prop (opt_index0 (opt_prop res ''content'')) ''text''
               else if truthy (opt_prop res ''text'') then opt_prop res ''text''
               else if truthy (JSON_stringify stringify res) then JSON_stringify stringify res
               else JString ''Tool returned no data.''))"
proof (intro conjI allI impI)
  show "snd (executeMcpTool stringify post toolName args serverUrl) = [ToolsCall serverUrl toolName args]"
    by (rule executeMcpTool_sent)
next
  show "truthy (fst (executeMcpTool stringify post toolName args serverUrl))"
    by (simp add: executeMcpTool_def Let_def truthy_js_or_string split: sum.splits)
next
  fix e assume "post serverUrl toolName args = Inl e"
  then show "fst (executeMcpTool stringify post toolName args serverUrl)
      = JString (''Error: Tool execution failed. '' @ error_message e)"
    by (simp add: executeMcpTool_def Let_def)
next
  fix data e assume "post serverUrl toolName args = Inr data \<and> get_prop data ''result'' = Inl e"
  then show "fst (executeMcpTool stringify post toolName args serverUrl)
      = JString (''Error: Tool execution failed. '' @ error_message e)"
    by (simp add: executeMcpTool_def Let_def)
next
  fix data res
  assume "post serverUrl toolName args = Inr data \<and> get_prop data ''result'' = Inr res"
  then show "fst (executeMcpTool stringify post toolName args serverUrl)
      = (if truthy (opt_prop (opt_index0 (opt_prop res ''content'')) ''text'')
         then opt_prop (opt_index0 (opt_prop res ''content'')) ''text''
         else if truthy (opt_prop res ''text'') then opt_prop res ''text''
         else if truthy (JSON_stringify stringify res) then JSON_stringify stringify res
         else JString ''Tool returned no data.'')"
    by (simp add: executeMcpTool_def Let_def js_or_def)
qed

theorem C8_witness:
  "\<forall>stringify.
     executeMcpTool stringify
       (\<lambda>url name args. Inr (JObject [(''result'',
          JObject [(''content'', JArray [JObject [(''text'', JString ''Sunny, 18 C'')]])])]))
       (JString ''get_weather'') (JObject [(''city'', JString ''Rome'')]) ''http://localhost:8000''
     = (JString ''Sunny, 18 C'',
        [ToolsCall ''http://localhost:8000'' (JString ''get_weather'')
           (JObject [(''city'', JString ''Rome'')])])
   \<and> executeMcpTool stringify (\<lambda>url name args. Inl (TypeError ''Failed to fetch''))
       (JString ''get_weather'') (JObject [(''city'', JString ''Rome'')]) ''http://localhost:8000''
     = (JString ''Error: Tool execution failed. Failed to fetch'',
        [ToolsCall ''http://localhost:8000'' (JString ''get_weather'')
           (JObject [(''city'', JString ''Rome'')])])"
proof (intro allI conjI)
  fix stringify :: "json \<Rightarrow> string"
  show "executeMcpTool stringify
       (\<lambda>url name args. Inr (JObject [(''result'',
          JObject [(''content'', JArray [JObject [(''text'', JString ''Sunny, 18 C'')]])])]))
       (JString ''get_weather'') (JObject [(''city'', JString ''Rome'')]) ''http://localhost:8000''
     = (JString ''Sunny, 18 C'',
        [ToolsCall ''http://localhost:8000'' (JString ''get_weather'')
           (JObject [(''city'', JString ''Rome'')])])"
    using C8_executeMcpTool_returns_text_or_error_string
      [of stringify
          "\<lambda>url name args. Inr (JObject [(''result'',
             JObject [(''content'', JArray [JObject [(''text'', JString ''Sunny, 18 C'')]])])])"
          "JString ''get_weather''" "JObject [(''city'', JString ''Rome'')]" "''http://localhost:8000''"]
    by (simp add: prod_eq_iff)
next
  fix stringify :: "json \<Rightarrow> string"
  show "executeMcpTool stringify (\<lambda>url name args. Inl (TypeError ''Failed to fetch''))
       (JString ''get_weather'') (JObject [(''city'', JString ''Rome'')]) ''http://localhost:8000''
     = (JString ''Error: Tool execution failed. Failed to fetch'',
        [ToolsCall ''http://localhost:8000'' (JString ''get_weather'')
           (JObject [(''city'', JString ''Rome'')])])"
    using C8_executeMcpTool_returns_text_or_error_string
      [of stringify "\<lambda>url name args. Inl (TypeError ''Failed to fetch'')"
          "JString ''get_weather''" "JObject [(''city'', JString ''Rome'')]" "''http://localhost:8000''"]
    by (simp add: prod_eq_iff)
qed

text \<open>
  Claim C8 as stated fails where a text is present but empty: the first text field of the
  content array is there (the empty string), and the result is taken from the flat
  \<^verbatim>\<open>text\<close> field instead, since \<^verbatim>\<open>||\<close> passes over a falsy value.
\<close>

theorem C8_counterexample:
  "opt_prop (opt_index0 (opt_prop
       (JObject [(''content'', JArray [JObject [(''text'', JString [])]]), (''text'', JString ''flat'')])
       ''content'')) ''text'' = JString []
   \<and> fst (executeMcpTool empty_object_text
       (\<lambda>url name args. Inr (JObject [(''result'',
          JObject [(''content'', JArray [JObject [(''text'', JString [])]]),
                   (''text'', JString ''flat'')])]))
       (JString ''get_weather'') (JObject [(''city'', JString ''Rome'')]) ''http://localhost:8000'')
     = JString ''flat''
   \<and> JString ''flat'' \<noteq> JString []"
  by (simp add: executeMcpTool_def js_or_def JSON_stringify_def)

section \<open>Properties of the tool round\<close>

lemma readable_callE:
  assumes "readable_call call"
  obtains fn n where "get_prop call ''function'' = Inr fn" and "get_prop fn ''name'' = Inr n"
  using assms by (auto simp: readable_call_def call_name_def split: sum.splits)

lemma get_prop_Inr_opt_prop: "get_prop v k = Inr x \<Longrightarrow> opt_prop v k = x"
  by (cases v) auto

text \<open>One iteration of the loop on a readable call: skipped when unknown, executed when known.\<close>

lemma run_tool_calls_unknown:
  assumes "readable_call call" and "\<not> known_call mcpTools call"
  shows "run_tool_calls stringify toStr clock post mcpTools idx (call # calls) st
       = run_tool_calls stringify toStr clock post mcpTools (Suc idx) calls st"
proof -
  from assms(1) obtain fn n
    where fn: "get_prop call ''function'' = Inr fn" and n: "get_prop fn ''name'' = Inr n"
    by (rule readable_callE)
  from assms(2) have "find (\<lambda>t. JString (fn_name t) = n) mcpTools = None"
    by (simp add: known_call_def tool_of_def call_name_def fn n)
  then show ?thesis by (simp add: fn n)
qed

lemma run_tool_calls_known:
  assumes "readable_call call" and "known_call mcpTools call"
  shows "\<exists>response. is_tool_message response
       \<and> run_tool_calls stringify toStr clock post mcpTools idx (call # calls) st
         = run_tool_calls stringify toStr clock post mcpTools (Suc idx) calls
             (st\<lparr>ls_toolResponses := ls_toolResponses st @ [response],
                 ls_mcpContext := ls_mcpContext st
                    @ [JObject [(''type'', JString ''tool''),
                                (''name'', (case call_name call of Inr n \<Rightarrow> n | Inl e \<Rightarrow> JUndefined)),
                                (''server'', JString (case tool_of mcpTools call of
                                                        Some t \<Rightarrow> fn_serverUrl t | None \<Rightarrow> []))]],
                 ls_requests := ls_requests st @ [tools_call_of mcpTools call]\<rparr>)"
proof -
  from assms(1) obtain fn n
    where fn: "get_prop call ''function'' = Inr fn" and n: "get_prop fn ''name'' = Inr n"
    by (rule readable_callE)
  from assms(2) obtain t where t: "find (\<lambda>t. JString (fn_name t) = n) mcpTools = Some t"
    by (auto simp: known_call_def tool_of_def call_name_def fn n)
  have args: "opt_prop (opt_prop call ''function'') ''arguments'' = opt_prop fn ''arguments''"
    by (simp add: get_prop_Inr_opt_prop [OF fn])
  obtain result sent
    where ex: "executeMcpTool stringify post n (opt_prop fn ''arguments'') (fn_serverUrl t) = (result, sent)"
    by (cases "executeMcpTool stringify post n (opt_prop fn ''arguments'') (fn_serverUrl t)")
  have sent: "sent = [ToolsCall (fn_serverUrl t) n (opt_prop fn ''arguments'')]"
    using executeMcpTool_sent [of stringify post n "opt_prop fn ''arguments''" "fn_serverUrl t"] ex
    by simp
  show ?thesis
    by (rule exI [where x = "JObject
           [(''role'', JString ''tool''), (''content'', JString (js_String toStr result)),
            (''tool_call_id'', js_or (opt_prop call ''id'')
               (JString (''call_'' @ nat_text (clock idx) @ ''_'' @ nat_text idx)))]"])
       (simp add: fn n t ex sent args is_tool_message_def tools_call_of_def tool_of_def call_name_def)
qed

lemma run_tool_calls_readable:
  assumes "\<forall>call\<in>set calls. readable_call call"
  shows "\<exists>responses.
           length responses = length (filter (known_call mcpTools) calls)
         \<and> (\<forall>r\<in>set responses. is_tool_message r)
         \<and> snd (run_tool_calls stringify toStr clock post mcpTools idx calls st) = None
         \<and> ls_toolResponses (fst (run_tool_calls stringify toStr clock post mcpTools idx calls st))
             = ls_toolResponses st @ responses
         \<and> ls_requests (fst (run_tool_calls stringify toStr clock post mcpTools idx calls st))
             = ls_requests st @ map (tools_call_of mcpTools) (filter (known_call mcpTools) calls)"
  using assms
proof (induction calls arbitrary: idx st)
  case Nil
  then show ?case by simp
next
  case (Cons call calls)
  then have rd: "readable_call call" and rest: "\<forall>c\<in>set calls. readable_call c"
    by simp_all
  show ?case
  proof (cases "known_call mcpTools call")
    case False
    from Cons.IH [OF rest, of "Suc idx" st] obtain responses where
      "length responses = length (filter (known_call mcpTools) calls)"
      "\<forall>r\<in>set responses. is_tool_message r"
      "snd (run_tool_calls stringify toStr clock post mcpTools (Suc idx) calls st) = None"
      "ls_toolResponses (fst (run_tool_calls stringify toStr clock post mcpTools (Suc idx) calls st))
         = ls_toolResponses st @ responses"
      "ls_requests (fst (run_tool_calls stringify toStr clock post mcpTools (Suc idx) calls st))
         = ls_requests st @ map (tools_call_of mcpTools) (filter (known_call mcpTools) calls)"
      by blast
    then show ?thesis
      unfolding run_tool_calls_unknown [OF rd False] using False
      by (intro exI [where x = responses]) simp
  next
    case True
    from run_tool_calls_known [OF rd True, of stringify toStr clock post idx calls st]
    obtain response where
      resp: "is_tool_message response"
      and step0: "run_tool_calls stringify toStr clock post mcpTools idx (call # calls) st
         = run_tool_calls stringify toStr clock post mcpTools (Suc idx) calls
             (st\<lparr>ls_toolResponses := ls_toolResponses st @ [response],
                 ls_mcpContext := ls_mcpContext st
                    @ [JObject [(''type'', JString ''tool''),
                                (''name'', (case call_name call of Inr n \<Rightarrow> n | Inl e \<Rightarrow> JUndefined)),
                                (''server'', JString (case tool_of mcpTools call of
                                                        Some t \<Rightarrow> fn_serverUrl t | None \<Rightarrow> []))]],
                 ls_requests := ls_requests st @ [tools_call_of mcpTools call]\<rparr>)"
      by blast
    define st' where "st' = st\<lparr>ls_toolResponses := ls_toolResponses st @ [response],
                 ls_mcpContext := ls_mcpContext st
                    @ [JObject [(''type'', JString ''tool''),
                                (''name'', (case call_name call of Inr n \<Rightarrow> n | Inl e \<Rightarrow> JUndefined)),
                                (''server'', JString (case tool_of mcpTools call of
                                                        Some t \<Rightarrow> fn_serverUrl t | None \<Rightarrow> []))]],
                 ls_requests := ls_requests st @ [tools_call_of mcpTools call]\<rparr>"
    have st': "ls_toolResponses st' = ls_toolResponses st @ [response]"
              "ls_requests st' = ls_requests st @ [tools_call_of mcpTools call]"
      by (simp_all add: st'_def)
    have step: "run_tool_calls stringify toStr clock post mcpTools idx (call # calls) st
         = run_tool_calls stringify toStr clock post mcpTools (Suc idx) calls st'"
      unfolding st'_def by (rule step0)
    from Cons.IH [OF rest, of "Suc idx" st'] obtain responses where
      "length responses = length (filter (known_call mcpTools) calls)"
      "\<forall>r\<in>set responses. is_tool_message r"
      "snd (run_tool_calls stringify toStr clock post mcpTools (Suc idx) calls st') = None"
      "ls_toolResponses (fst (run_tool_calls stringify toStr clock post mcpTools (Suc idx) calls st'))
         = ls_toolResponses st' @ responses"
      "ls_requests (fst (run_tool_calls stringify toStr clock post mcpTools (Suc idx) calls st'))
         = ls_requests st' @ map (tools_call_of mcpTools) (filter (known_call mcpTools) calls)"
      by blast
    then show ?thesis
      unfolding step using True resp st'
      by (intro exI [where x = "response # responses"]) simp
  qed
qed

text \<open>
  Claim C10. In a turn whose resolved invocations are all readable
  (\<^verbatim>\<open>call.function.name\<close> does not throw), the loop executes exactly the invocations whose
  name is in the manifest, in their order, one \<^verbatim>\<open>tools/call\<close> request and one tool-role
  message each; an invocation with an unknown name sends no request and adds no message.
  The assistant message, followed by the tool messages, is appended to the history and to
  the transcript of the session, and the follow-up request is sent with that history. When
  no invocation names a known tool, the follow-up request follows the assistant message
  with no tool message in between.
\<close>

theorem C10_unknown_tools_are_skipped:
  fixes stringify toStr :: "json \<Rightarrow> string" and clock :: "nat \<Rightarrow> nat"
    and post :: "string \<Rightarrow> json \<Rightarrow> json \<Rightarrow> js_error + json"
    and mcpEnabled :: bool and model content :: string and mcpTools :: "tool_fn list"
    and toolCalls :: "json list" and message :: json and ts :: turn_state
    and toolCallMessage :: json and ts' :: turn_state and executed :: "json list"
  defines "toolCallMessage \<equiv> JObject (obj_put ''content'' (JString content) (spread message))"
    and "ts' \<equiv> tool_phase stringify toStr clock post mcpEnabled model mcpTools content toolCalls
                  message ts"
    and "executed \<equiv> filter (known_call mcpTools) toolCalls"
  assumes ne: "toolCalls \<noteq> []"
    and rd: "\<forall>call\<in>set toolCalls. readable_call call"
  shows "(\<exists>responses.
            length responses = length executed
          \<and> (\<forall>r\<in>set responses. is_tool_message r)
          \<and> ts_error ts' = ts_error ts
          \<and> ts_history ts' = ts_history ts @ [toolCallMessage] @ responses
          \<and> ts_messages ts' = ts_messages ts @ [toolCallMessage] @ responses
          \<and> ts_requests ts' = ts_requests ts @ map (tools_call_of mcpTools) executed
               @ [ChatRequest model (ts_history ts @ [toolCallMessage] @ responses)
                    (offered_tools mcpEnabled mcpTools)])
       \<and> (executed = [] \<longrightarrow>
            ts_history ts' = ts_history ts @ [toolCallMessage]
          \<and> ts_messages ts' = ts_messages ts @ [toolCallMessage]
          \<and> ts_requests ts' = ts_requests ts
               @ [ChatRequest model (ts_history ts @ [toolCallMessage])
                    (offered_tools mcpEnabled mcpTools)])"
proof -
  let ?st0 = "\<lparr>ls_toolResponses = [], ls_mcpContext = ts_mcpContext ts,
               ls_requests = ts_requests ts\<rparr>"
  let ?run = "run_tool_calls stringify toStr clock post mcpTools 0 toolCalls ?st0"
  from run_tool_calls_readable [OF rd, of mcpTools stringify toStr clock post 0 ?st0]
  obtain responses where
    len: "length responses = length executed"
    and tool: "\<forall>r\<in>set responses. is_tool_message r"
    and ok: "snd ?run = None"
    and resp: "ls_toolResponses (fst ?run) = responses"
    and reqs: "ls_requests (fst ?run) = ts_requests ts @ map (tools_call_of mcpTools) executed"
    unfolding executed_def by auto
  have msg: "JObject (obj_put ''content'' (JString (if content \<noteq> [] then content else []))
                (spread message)) = toolCallMessage"
    by (simp add: toolCallMessage_def)
  have phase: "ts' = ts\<lparr>ts_history := ts_history ts @ [toolCallMessage] @ responses,
         ts_messages := ts_messages ts @ [toolCallMessage] @ responses,
         ts_mcpContext := ls_mcpContext (fst ?run),
         ts_requests := (ts_requests ts @ map (tools_call_of mcpTools) executed)
            @ [ChatRequest model (ts_history ts @ [toolCallMessage] @ responses)
                 (offered_tools mcpEnabled mcpTools)]\<rparr>"
    using ne ok resp reqs
    unfolding ts'_def tool_phase_def msg
    by (cases ?run) (simp add: Let_def)
  have first: "\<exists>responses.
            length responses = length executed
          \<and> (\<forall>r\<in>set responses. is_tool_message r)
          \<and> ts_error ts' = ts_error ts
          \<and> ts_history ts' = ts_history ts @ [toolCallMessage] @ responses
          \<and> ts_messages ts' = ts_messages ts @ [toolCallMessage] @ responses
          \<and> ts_requests ts' = ts_requests ts @ map (tools_call_of mcpTools) executed
               @ [ChatRequest model (ts_history ts @ [toolCallMessage] @ responses)
                    (offered_tools mcpEnabled mcpTools)]"
    using len tool by (intro exI [where x = responses]) (simp add: phase)
  have second: "executed = [] \<longrightarrow>
            ts_history ts' = ts_history ts @ [toolCallMessage]
          \<and> ts_messages ts' = ts_messages ts @ [toolCallMessage]
          \<and> ts_requests ts' = ts_requests ts
               @ [ChatRequest model (ts_history ts @ [toolCallMessage])
                    (offered_tools mcpEnabled mcpTools)]"
    using len by (auto simp: phase)
  from first second show ?thesis by blast
qed

theorem C10_witness:
  "\<forall>stringify toStr clock post.
     ts_history (tool_phase stringify toStr clock post True ''qwen2.5:1.5b''
        [\<lparr>fn_name = ''get_weather'', fn_description = JString ''Weather of a city'',
          fn_parameters = JObject [], fn_serverUrl = ''http://localhost:8000''\<rparr>]
        ''Let me check.''
        [JObject [(''function'', JObject [(''name'', JString ''get_stock_price''),
                                          (''arguments'', JObject [])])]]
        (JObject [(''role'', JString ''assistant''), (''content'', JString ''Let me check.'')])
        \<lparr>ts_history = [JObject [(''role'', JString ''user''), (''content'', JString ''Price?'')]],
         ts_messages = [], ts_mcpContext = [], ts_requests = [], ts_error = None\<rparr>)
     = [JObject [(''role'', JString ''user''), (''content'', JString ''Price?'')],
        JObject [(''role'', JString ''assistant''), (''content'', JString ''Let me check.'')]]
   \<and> ts_requests (tool_phase stringify toStr clock post True ''qwen2.5:1.5b''
        [\<lparr>fn_name = ''get_weather'', fn_description = JString ''Weather of a city'',
          fn_parameters = JObject [], fn_serverUrl = ''http://localhost:8000''\<rparr>]
        ''Let me check.''
        [JObject [(''function'', JObject [(''name'', JString ''get_stock_price''),
                                          (''arguments'', JObject [])])]]
        (JObject [(''role'', JString ''assistant''), (''content'', JString ''Let me check.'')])
        \<lparr>ts_history = [JObject [(''role'', JString ''user''), (''content'', JString ''Price?'')]],
         ts_messages = [], ts_mcpContext = [], ts_requests = [], ts_error = None\<rparr>)
     = [ChatRequest ''qwen2.5:1.5b''
          [JObject [(''role'', JString ''user''), (''content'', JString ''Price?'')],
           JObject [(''role'', JString ''assistant''), (''content'', JString ''Let me check.'')]]
          (Some [JObject [(''type'', JString ''function''),
                   (''function'', JObject [(''name'', JString ''get_weather''),
                                           (''description'', JString ''Weather of a city''),
                                           (''parameters'', JObject [])])]])]"
proof (intro allI)
  fix stringify toStr :: "json \<Rightarrow> string" and clock :: "nat \<Rightarrow> nat"
    and post :: "string \<Rightarrow> json \<Rightarrow> json \<Rightarrow> js_error + json"
  have unknown: "filter (known_call
        [\<lparr>fn_name = ''get_weather'', fn_description = JString ''Weather of a city'',
          fn_parameters = JObject [], fn_serverUrl = ''http://localhost:8000''\<rparr>])
        [JObject [(''function'', JObject [(''name'', JString ''get_stock_price''),
                                          (''arguments'', JObject [])])]] = []"
    by (simp add: known_call_def tool_of_def call_name_def)
  have readable: "\<forall>call\<in>set [JObject [(''function'', JObject [(''name'', JString ''get_stock_price''),
                                          (''arguments'', JObject [])])]]. readable_call call"
    by (simp add: readable_call_def call_name_def)
  show "ts_history (tool_phase stringify toStr clock post True ''qwen2.5:1.5b''
        [\<lparr>fn_name = ''get_weather'', fn_description = JString ''Weather of a city'',
          fn_parameters = JObject [], fn_serverUrl = ''http://localhost:8000''\<rparr>]
        ''Let me check.''
        [JObject [(''function'', JObject [(''name'', JString ''get_stock_price''),
                                          (''arguments'', JObject [])])]]
        (JObject [(''role'', JString ''assistant''), (''content'', JString ''Let me check.'')])
        \<lparr>ts_history = [JObject [(''role'', JString ''user''), (''content'', JString ''Price?'')]],
         ts_messages = [], ts_mcpContext = [], ts_requests = [], ts_error = None\<rparr>)
     = [JObject [(''role'', JString ''user''), (''content'', JString ''Price?'')],
        JObject [(''role'', JString ''assistant''), (''content'', JString ''Let me check.'')]]
   \<and> ts_requests (tool_phase stringify toStr clock post True ''qwen2.5:1.5b''
        [\<lparr>fn_name = ''get_weather'', fn_description = JString ''Weather of a city'',
          fn_parameters = JObject [], fn_serverUrl = ''http://localhost:8000''\<rparr>]
        ''Let me check.''
        [JObject [(''function'', JObject [(''name'', JString ''get_stock_price''),
                                          (''arguments'', JObject [])])]]
        (JObject [(''role'', JString ''assistant''), (''content'', JString ''Let me check.'')])
        \<lparr>ts_history = [JObject [(''role'', JString ''user''), (''content'', JString ''Price?'')]],
         ts_messages = [], ts_mcpContext = [], ts_requests = [], ts_error = None\<rparr>)
     = [ChatRequest ''qwen2.5:1.5b''
          [JObject [(''role'', JString ''user''), (''content'', JString ''Price?'')],
           JObject [(''role'', JString ''assistant''), (''content'', JString ''Let me check.'')]]
          (Some [JObject [(''type'', JString ''function''),
                   (''function'', JObject [(''name'', JString ''get_weather''),
                                           (''description'', JString ''Weather of a city''),
                                           (''parameters'', JObject [])])]])]"
    using C10_unknown_tools_are_skipped
      [of "[JObject [(''function'', JObject [(''name'', JString ''get_stock_price''),
                                             (''arguments'', JObject [])])]]"
          "[\<lparr>fn_name = ''get_weather'', fn_description = JString ''Weather of a city'',
             fn_parameters = JObject [], fn_serverUrl = ''http://localhost:8000''\<rparr>]"
          stringify toStr clock post True "''qwen2.5:1.5b''" "''Let me check.''"
          "JObject [(''role'', JString ''assistant''), (''content'', JString ''Let me check.'')]"
          "\<lparr>ts_history = [JObject [(''role'', JString ''user''), (''content'', JString ''Price?'')]],
            ts_messages = [], ts_mcpContext = [], ts_requests = [], ts_error = None\<rparr>",
       OF _ readable]
    unfolding unknown
    by (simp add: offered_tools_def)
qed

section \<open>Properties of the workflow sequencer\<close>


lemma map_at_eq: "map_at i f xs = (if i < length xs then xs[i := f (xs ! i)] else xs)"
  by (auto simp: map_at_def list_eq_iff_nth_eq nth_enumerate_eq)

lemma length_map_at [simp]: "length (map_at i f xs) = length xs"
  by (simp add: map_at_def)

lemma nth_map_at: "n < length xs \<Longrightarrow> map_at i f xs ! n = (if n = i then f (xs ! n) else xs ! n)"
  by (simp add: map_at_def nth_enumerate_eq)

text \<open>One iteration, by cases.\<close>

lemma run_steps_no_agent:
  "\<not> has_agent agents step \<Longrightarrow>
   run_steps toStr agents chat finalInput i (step # steps) st
     = run_steps toStr agents chat finalInput (Suc i) steps st"
  by (simp add: has_agent_def step_agent_def)

lemma run_steps_success:
  assumes "has_agent agents step" and "content_of (chat i) = Some result"
  shows "\<exists>a. step_agent agents step = Some a \<and> run_steps toStr agents chat finalInput i (step # steps) st
     = run_steps toStr agents chat finalInput (Suc i) steps
         \<lparr>wf_logs = map_at i (\<lambda>log. log\<lparr>log_output := result, log_status := Completed\<rparr>)
                           (wf_logs st),
          wf_context = result,
          wf_requests = wf_requests st
                @ [step_request toStr a finalInput (wf_context st) step]\<rparr>"
proof -
  from assms(1) obtain a where a: "find (\<lambda>a. agent_id a = step_agentId step) agents = Some a"
    by (auto simp: has_agent_def step_agent_def)
  from assms(2) obtain data m where
    r: "chat i = ChatOk data" "get_prop data ''message'' = Inr m"
       "get_prop m ''content'' = Inr result" "\<not> is_nullish result"
    by (auto simp: content_of_def split: chat_response.splits sum.splits if_splits)
  have twice: "\<And>logs. map_at i (\<lambda>log. log\<lparr>log_output := result, log_status := Completed\<rparr>)
          (map_at i (\<lambda>log. log\<lparr>log_status := Running\<rparr>) logs)
        = map_at i (\<lambda>log. log\<lparr>log_output := result, log_status := Completed\<rparr>) logs"
    by (simp add: map_at_eq)
  show ?thesis
    by (cases st) (simp add: a r Let_def twice step_agent_def)
qed

lemma run_steps_failure:
  assumes "has_agent agents step" and "content_of (chat i) = None"
  shows "\<exists>a e. step_agent agents step = Some a \<and> run_steps toStr agents chat finalInput i (step # steps) st
     = (\<lparr>wf_logs = map_at i (\<lambda>log. log\<lparr>log_status := Running\<rparr>) (wf_logs st),
         wf_context = wf_context st,
         wf_requests = wf_requests st
              @ [step_request toStr a finalInput (wf_context st) step]\<rparr>, Some e)"
proof -
  from assms(1) obtain a where a: "find (\<lambda>a. agent_id a = step_agentId step) agents = Some a"
    by (auto simp: has_agent_def step_agent_def)
  show ?thesis
    using assms(2)
    by (cases st)
       (simp add: a Let_def content_of_def step_agent_def split: chat_response.splits sum.splits if_splits)
qed

lemma run_steps_prefix:
  assumes "\<forall>j<length pre. has_agent agents (pre ! j) \<longrightarrow> content_of (chat (i + j)) \<noteq> None"
  shows "\<exists>st'. run_steps toStr agents chat finalInput i (pre @ post) st
            = run_steps toStr agents chat finalInput (i + length pre) post st'
         \<and> length (wf_logs st') = length (wf_logs st)
         \<and> (\<forall>n<length (wf_logs st). wf_logs st' ! n =
               (if i \<le> n \<and> n < i + length pre \<and> has_agent agents (pre ! (n - i))
                then completed (content_of (chat n)) (wf_logs st ! n)
                else wf_logs st ! n))
         \<and> length (wf_requests st') = length (wf_requests st) + length (filter (has_agent agents) pre)"
  using assms
proof (induction pre arbitrary: i st)
  case Nil
  show ?case by (rule exI [where x = st]) auto
next
  case (Cons s pre)
  have shifted: "\<forall>j<length pre. has_agent agents (pre ! j) \<longrightarrow> content_of (chat (Suc i + j)) \<noteq> None"
  proof (intro allI impI)
    fix j assume "j < length pre" and "has_agent agents (pre ! j)"
    with Cons.prems [rule_format, of "Suc j"] show "content_of (chat (Suc i + j)) \<noteq> None"
      by simp
  qed
  show ?case
  proof (cases "has_agent agents s")
    case False
    from Cons.IH [OF shifted, of st] obtain st' where st':
      "run_steps toStr agents chat finalInput (Suc i) (pre @ post) st
         = run_steps toStr agents chat finalInput (Suc i + length pre) post st'"
      "length (wf_logs st') = length (wf_logs st)"
      "\<forall>n<length (wf_logs st). wf_logs st' ! n =
               (if Suc i \<le> n \<and> n < Suc i + length pre \<and> has_agent agents (pre ! (n - Suc i))
                then completed (content_of (chat n)) (wf_logs st ! n)
                else wf_logs st ! n)"
      "length (wf_requests st') = length (wf_requests st) + length (filter (has_agent agents) pre)"
      by blast
    have nth: "\<forall>n<length (wf_logs st). wf_logs st' ! n =
               (if i \<le> n \<and> n < i + length (s # pre) \<and> has_agent agents ((s # pre) ! (n - i))
                then completed (content_of (chat n)) (wf_logs st ! n)
                else wf_logs st ! n)"
    proof (intro allI impI)
      fix n assume n: "n < length (wf_logs st)"
      show "wf_logs st' ! n =
               (if i \<le> n \<and> n < i + length (s # pre) \<and> has_agent agents ((s # pre) ! (n - i))
                then completed (content_of (chat n)) (wf_logs st ! n)
                else wf_logs st ! n)"
      proof (cases "n = i")
        case True
        with st'(3) n False show ?thesis by simp
      next
        case ne: False
        then have "(s # pre) ! (n - i) = pre ! (n - Suc i)" if "i \<le> n"
        proof -
          from ne that have "n - i = Suc (n - Suc i)" by arith
          then show ?thesis by simp
        qed
        with st'(3) n ne show ?thesis by auto
      qed
    qed
    have "run_steps toStr agents chat finalInput i ((s # pre) @ post) st
        = run_steps toStr agents chat finalInput (i + length (s # pre)) post st'"
      using run_steps_no_agent [OF False, of toStr chat finalInput i "pre @ post" st] st'(1)
      by (simp del: run_steps.simps)
    then show ?thesis
      using st'(2,4) nth False
      by (intro exI [where x = st']) (simp del: run_steps.simps)
  next
    case True
    from Cons.prems [rule_format, of 0] True obtain result where
      result: "content_of (chat i) = Some result" by auto
    from run_steps_success [where chat = chat and i = i and toStr = toStr
        and finalInput = finalInput and steps = "pre @ post" and st = st, OF True result]
    obtain a where a: "step_agent agents s = Some a"
      and step: "run_steps toStr agents chat finalInput i (s # pre @ post) st
        = run_steps toStr agents chat finalInput (Suc i) (pre @ post)
            \<lparr>wf_logs = map_at i (\<lambda>log. log\<lparr>log_output := result, log_status := Completed\<rparr>)
                           (wf_logs st),
             wf_context = result,
             wf_requests = wf_requests st @ [step_request toStr a finalInput (wf_context st) s]\<rparr>"
      by blast
    define st1 where "st1 = \<lparr>wf_logs = map_at i (\<lambda>log. log\<lparr>log_output := result, log_status := Completed\<rparr>)
                           (wf_logs st),
             wf_context = result,
             wf_requests = wf_requests st @ [step_request toStr a finalInput (wf_context st) s]\<rparr>"
    have st1: "length (wf_logs st1) = length (wf_logs st)"
      "length (wf_requests st1) = Suc (length (wf_requests st))"
      "\<And>n. n < length (wf_logs st) \<Longrightarrow> wf_logs st1 ! n =
          (if n = i then completed (content_of (chat n)) (wf_logs st ! n) else wf_logs st ! n)"
      by (simp_all add: st1_def nth_map_at completed_def result)
    from Cons.IH [OF shifted, of st1] obtain st' where st':
      "run_steps toStr agents chat finalInput (Suc i) (pre @ post) st1
         = run_steps toStr agents chat finalInput (Suc i + length pre) post st'"
      "length (wf_logs st') = length (wf_logs st1)"
      "\<forall>n<length (wf_logs st1). wf_logs st' ! n =
               (if Suc i \<le> n \<and> n < Suc i + length pre \<and> has_agent agents (pre ! (n - Suc i))
                then completed (content_of (chat n)) (wf_logs st1 ! n)
                else wf_logs st1 ! n)"
      "length (wf_requests st') = length (wf_requests st1) + length (filter (has_agent agents) pre)"
      by blast
    have nth: "\<forall>n<length (wf_logs st). wf_logs st' ! n =
               (if i \<le> n \<and> n < i + length (s # pre) \<and> has_agent agents ((s # pre) ! (n - i))
                then completed (content_of (chat n)) (wf_logs st ! n)
                else wf_logs st ! n)"
    proof (intro allI impI)
      fix n assume n: "n < length (wf_logs st)"
      show "wf_logs st' ! n =
               (if i \<le> n \<and> n < i + length (s # pre) \<and> has_agent agents ((s # pre) ! (n - i))
                then completed (content_of (chat n)) (wf_logs st ! n)
                else wf_logs st ! n)"
      proof (cases "n = i")
        case eq: True
        with st'(3) n st1 True show ?thesis by simp
      next
        case ne: False
        then have "(s # pre) ! (n - i) = pre ! (n - Suc i)" if "i \<le> n"
        proof -
          from ne that have "n - i = Suc (n - Suc i)" by arith
          then show ?thesis by simp
        qed
        with st'(3) n ne st1 show ?thesis by auto
      qed
    qed
    have "run_steps toStr agents chat finalInput i ((s # pre) @ post) st
        = run_steps toStr agents chat finalInput (i + length (s # pre)) post st'"
      using step st'(1) unfolding st1_def
      by (simp del: run_steps.simps)
    then show ?thesis
      using st'(2,4) nth True st1(1,2)
      by (intro exI [where x = st']) (simp del: run_steps.simps)
  qed
qed

lemma request_failed_no_content: "request_failed r \<Longrightarrow> content_of r = None"
  by (cases r) (simp_all add: content_of_def)

lemma initial_log_pending [simp]: "log_status (initial_log agents step) = Pending"
  by (simp add: initial_log_def)

text \<open>
  Claim C7. In a run of a workflow (non-blank input, no run in progress) let step \<open>k\<close> be
  bound to an agent, let its request fail (transport failure or non-success response), and
  let every earlier step that is bound to an agent have succeeded. Then the log of step \<open>k\<close>
  is marked as error with the output \<^verbatim>\<open>Execution failed: <message>\<close>, every later log is
  the pending log the run started with, every earlier step bound to an agent is completed
  with the content its response carried, an earlier step without an agent was skipped and is
  still pending, and requests were sent only for the steps up to \<open>k\<close> that are bound to an
  agent: none for a later step.
\<close>

theorem C7_failed_step_aborts_workflow:
  fixes toStr :: "json \<Rightarrow> string" and agents :: "agent list" and chat :: "nat \<Rightarrow> chat_response"
    and isWFRunning :: bool and workflowLogs :: "step_log list" and workflow :: workflow
    and finalInput :: string and k :: nat
    and steps :: "workflow_step list" and logs :: "step_log list" and requests :: "wf_request list"
  defines "steps \<equiv> wf_steps workflow"
    and "logs \<equiv> fst (handleRunWorkflow toStr agents chat isWFRunning workflowLogs workflow finalInput)"
    and "requests \<equiv> snd (handleRunWorkflow toStr agents chat isWFRunning workflowLogs workflow finalInput)"
  assumes guard: "trim finalInput \<noteq> []" "\<not> isWFRunning"
    and k: "k < length steps"
    and agent: "has_agent agents (steps ! k)"
    and failed: "request_failed (chat k)"
    and earlier: "\<forall>j<k. has_agent agents (steps ! j) \<longrightarrow> content_of (chat j) \<noteq> None"
  shows "length logs = length steps
       \<and> log_status (logs ! k) = Failed
       \<and> (\<exists>msg. log_output (logs ! k) = JString (''Execution failed: '' @ msg))
       \<and> (\<forall>j. k < j \<and> j < length steps \<longrightarrow> logs ! j = initial_log agents (steps ! j))
       \<and> (\<forall>j<k. has_agent agents (steps ! j) \<longrightarrow>
             (\<exists>result. content_of (chat j) = Some result
                \<and> logs ! j = (initial_log agents (steps ! j))
                               \<lparr>log_output := result, log_status := Completed\<rparr>))
       \<and> (\<forall>j<k. \<not> has_agent agents (steps ! j) \<longrightarrow> logs ! j = initial_log agents (steps ! j))
       \<and> length requests = length (filter (has_agent agents) (take (Suc k) steps))"
proof -
  let ?pre = "take k steps" and ?post = "steps ! k # drop (Suc k) steps"
  let ?init = "map (initial_log agents) steps"
  let ?st0 = "\<lparr>wf_logs = ?init, wf_context = JString finalInput, wf_requests = []\<rparr>"
  have split: "steps = ?pre @ ?post"
    using k by (rule id_take_nth_drop)
  have pre_ok: "\<forall>j<length ?pre. has_agent agents (?pre ! j) \<longrightarrow> content_of (chat (0 + j)) \<noteq> None"
    using earlier k by simp
  from run_steps_prefix [OF pre_ok, of toStr finalInput ?post ?st0]
  obtain st' where
    run: "run_steps toStr agents chat finalInput 0 (?pre @ ?post) ?st0
            = run_steps toStr agents chat finalInput (0 + length ?pre) ?post st'"
    and len: "length (wf_logs st') = length (wf_logs ?st0)"
    and nth: "\<forall>n<length (wf_logs ?st0). wf_logs st' ! n =
               (if 0 \<le> n \<and> n < 0 + length ?pre \<and> has_agent agents (?pre ! (n - 0))
                then completed (content_of (chat n)) (wf_logs ?st0 ! n)
                else wf_logs ?st0 ! n)"
    and reqs: "length (wf_requests st') = length (wf_requests ?st0) + length (filter (has_agent agents) ?pre)"
    by blast
  have lenk: "length ?pre = k" using k by simp
  from run_steps_failure [where chat = chat and i = k and toStr = toStr and finalInput = finalInput
      and steps = "drop (Suc k) steps" and st = st', OF agent request_failed_no_content [OF failed]]
  obtain a e where
    fail: "run_steps toStr agents chat finalInput k ?post st'
      = (\<lparr>wf_logs = map_at k (\<lambda>log. log\<lparr>log_status := Running\<rparr>) (wf_logs st'),
          wf_context = wf_context st',
          wf_requests = wf_requests st' @ [step_request toStr a finalInput (wf_context st') (steps ! k)]\<rparr>,
         Some e)"
    by blast
  have whole: "run_steps toStr agents chat finalInput 0 steps ?st0
      = (\<lparr>wf_logs = map_at k (\<lambda>log. log\<lparr>log_status := Running\<rparr>) (wf_logs st'),
          wf_context = wf_context st',
          wf_requests = wf_requests st' @ [step_request toStr a finalInput (wf_context st') (steps ! k)]\<rparr>,
         Some e)"
    using run fail lenk split by (simp del: run_steps.simps)
  let ?handler = "\<lambda>log. if log_status log = Running
                      then log\<lparr>log_status := Failed,
                               log_output := JString (''Execution failed: '' @ error_message e)\<rparr>
                      else log"
  have result: "handleRunWorkflow toStr agents chat isWFRunning workflowLogs workflow finalInput
      = (map ?handler (map_at k (\<lambda>log. log\<lparr>log_status := Running\<rparr>) (wf_logs st')),
         wf_requests st' @ [step_request toStr a finalInput (wf_context st') (steps ! k)])"
    using guard whole unfolding handleRunWorkflow_def steps_def
    by (simp del: run_steps.simps)
  have logs: "logs = map ?handler (map_at k (\<lambda>log. log\<lparr>log_status := Running\<rparr>) (wf_logs st'))"
    and requests: "requests = wf_requests st' @ [step_request toStr a finalInput (wf_context st') (steps ! k)]"
    unfolding logs_def requests_def result by simp_all
  have len': "length (wf_logs st') = length steps"
    using len by simp
  have before: "wf_logs st' ! n =
      (if n < k \<and> has_agent agents (steps ! n)
       then completed (content_of (chat n)) (initial_log agents (steps ! n))
       else initial_log agents (steps ! n))" if "n < length steps" for n
    using nth [rule_format, of n] that k by (simp cong: conj_cong)
  have c1: "length logs = length steps"
    by (simp add: logs len')
  have atk: "logs ! k = (wf_logs st' ! k)\<lparr>log_status := Failed,
        log_output := JString (''Execution failed: '' @ error_message e)\<rparr>"
    using k by (simp add: logs len' nth_map_at)
  have c2: "log_status (logs ! k) = Failed"
    by (simp add: atk)
  have c3: "\<exists>msg. log_output (logs ! k) = JString (''Execution failed: '' @ msg)"
    by (simp add: atk)
  have other: "logs ! n = wf_logs st' ! n" if "n < length steps" and "n \<noteq> k"
      and "log_status (wf_logs st' ! n) \<noteq> Running" for n
    using that by (simp add: logs len' nth_map_at)
  have c4: "\<forall>j. k < j \<and> j < length steps \<longrightarrow> logs ! j = initial_log agents (steps ! j)"
  proof (intro allI impI)
    fix j assume j: "k < j \<and> j < length steps"
    then have "wf_logs st' ! j = initial_log agents (steps ! j)"
      using before [of j] by simp
    with j other [of j] show "logs ! j = initial_log agents (steps ! j)" by simp
  qed
  have c5: "\<forall>j<k. has_agent agents (steps ! j) \<longrightarrow>
             (\<exists>result. content_of (chat j) = Some result
                \<and> logs ! j = (initial_log agents (steps ! j))
                               \<lparr>log_output := result, log_status := Completed\<rparr>)"
  proof (intro allI impI)
    fix j assume j: "j < k" and ha: "has_agent agents (steps ! j)"
    with earlier obtain result where r: "content_of (chat j) = Some result" by auto
    from j k have jl: "j < length steps" by simp
    have "wf_logs st' ! j = (initial_log agents (steps ! j))\<lparr>log_output := result, log_status := Completed\<rparr>"
      using before [OF jl] j ha r by (simp add: completed_def)
    with other [of j] jl j r
    show "\<exists>result. content_of (chat j) = Some result
                \<and> logs ! j = (initial_log agents (steps ! j))
                               \<lparr>log_output := result, log_status := Completed\<rparr>"
      by simp
  qed
  have c6: "\<forall>j<k. \<not> has_agent agents (steps ! j) \<longrightarrow> logs ! j = initial_log agents (steps ! j)"
  proof (intro allI impI)
    fix j assume j: "j < k" and na: "\<not> has_agent agents (steps ! j)"
    from j k have jl: "j < length steps" by simp
    have "wf_logs st' ! j = initial_log agents (steps ! j)"
      using before [OF jl] na by simp
    with other [of j] jl j show "logs ! j = initial_log agents (steps ! j)" by simp
  qed
  have c7: "length requests = length (filter (has_agent agents) (take (Suc k) steps))"
    using reqs agent k by (simp add: requests take_Suc_conv_app_nth)
  from c1 c2 c3 c4 c5 c6 c7 show ?thesis by blast
qed

theorem C7_witness:
  "\<forall>toStr.
     map log_status (fst (handleRunWorkflow toStr
        [\<lparr>agent_id = ''a1'', agent_name = ''Writer'', agent_role = ''WRITER'',
          agent_model = ''qwen2.5:1.5b'', agent_systemPrompt = ''You write.'',
          agent_temperature = Fin (7 / 10)\<rparr>]
        (\<lambda>i. if i = 0 then ChatOk (JObject [(''message'', JObject [(''content'', JString ''draft'')])])
             else if i = 1 then ChatNotOk ''model not found''
             else ChatOk (JObject [(''message'', JObject [(''content'', JString ''final'')])]))
        False []
        \<lparr>wf_id = ''w1'', wf_name = ''Pipeline'',
         wf_steps = [\<lparr>step_id = ''s1'', step_agentId = ''a1'', step_description = ''Draft''\<rparr>,
                     \<lparr>step_id = ''s2'', step_agentId = ''a1'', step_description = ''Edit''\<rparr>,
                     \<lparr>step_id = ''s3'', step_agentId = ''a1'', step_description = ''Polish''\<rparr>],
         wf_createdAt = 0\<rparr>
        ''Write a story''))
     = [Completed, Failed, Pending]
   \<and> log_output (fst (handleRunWorkflow toStr
        [\<lparr>agent_id = ''a1'', agent_name = ''Writer'', agent_role = ''WRITER'',
          agent_model = ''qwen2.5:1.5b'', agent_systemPrompt = ''You write.'',
          agent_temperature = Fin (7 / 10)\<rparr>]
        (\<lambda>i. if i = 0 then ChatOk (JObject [(''message'', JObject [(''content'', JString ''draft'')])])
             else if i = 1 then ChatNotOk ''model not found''
             else ChatOk (JObject [(''message'', JObject [(''content'', JString ''final'')])]))
        False []
        \<lparr>wf_id = ''w1'', wf_name = ''Pipeline'',
         wf_steps = [\<lparr>step_id = ''s1'', step_agentId = ''a1'', step_description = ''Draft''\<rparr>,
                     \<lparr>step_id = ''s2'', step_agentId = ''a1'', step_description = ''Edit''\<rparr>,
                     \<lparr>step_id = ''s3'', step_agentId = ''a1'', step_description = ''Polish''\<rparr>],
         wf_createdAt = 0\<rparr>
        ''Write a story'') ! 1)
     = JString ''Execution failed: Agent Writer failed: model not found''
   \<and> length (snd (handleRunWorkflow toStr
        [\<lparr>agent_id = ''a1'', agent_name = ''Writer'', agent_role = ''WRITER'',
          agent_model = ''qwen2.5:1.5b'', agent_systemPrompt = ''You write.'',
          agent_temperature = Fin (7 / 10)\<rparr>]
        (\<lambda>i. if i = 0 then ChatOk (JObject [(''message'', JObject [(''content'', JString ''draft'')])])
             else if i = 1 then ChatNotOk ''model not found''
             else ChatOk (JObject [(''message'', JObject [(''content'', JString ''final'')])]))
        False []
        \<lparr>wf_id = ''w1'', wf_name = ''Pipeline'',
         wf_steps = [\<lparr>step_id = ''s1'', step_agentId = ''a1'', step_description = ''Draft''\<rparr>,
                     \<lparr>step_id = ''s2'', step_agentId = ''a1'', step_description = ''Edit''\<rparr>,
                     \<lparr>step_id = ''s3'', step_agentId = ''a1'', step_description = ''Polish''\<rparr>],
         wf_createdAt = 0\<rparr>
        ''Write a story'')) = 2"
proof (intro allI)
  fix toStr :: "json \<Rightarrow> string"
  define agents where "agents =
        [\<lparr>agent_id = ''a1'', agent_name = ''Writer'', agent_role = ''WRITER'',
          agent_model = ''qwen2.5:1.5b'', agent_systemPrompt = ''You write.'',
          agent_temperature = Fin (7 / 10)\<rparr>]"
  define chat where "chat =
        (\<lambda>i::nat. if i = 0 then ChatOk (JObject [(''message'', JObject [(''content'', JString ''draft'')])])
             else if i = 1 then ChatNotOk ''model not found''
             else ChatOk (JObject [(''message'', JObject [(''content'', JString ''final'')])]))"
  define workflow where "workflow =
        \<lparr>wf_id = ''w1'', wf_name = ''Pipeline'',
         wf_steps = [\<lparr>step_id = ''s1'', step_agentId = ''a1'', step_description = ''Draft''\<rparr>,
                     \<lparr>step_id = ''s2'', step_agentId = ''a1'', step_description = ''Edit''\<rparr>,
                     \<lparr>step_id = ''s3'', step_agentId = ''a1'', step_description = ''Polish''\<rparr>],
         wf_createdAt = 0\<rparr>"
  have guard: "trim ''Write a story'' \<noteq> []" "\<not> False"
    by (simp_all add: trim_def is_js_space_def)
  have k: "1 < length (wf_steps workflow)"
    by (simp add: workflow_def)
  have agent: "has_agent agents (wf_steps workflow ! 1)"
    by (simp add: workflow_def agents_def has_agent_def step_agent_def)
  have failed: "request_failed (chat 1)"
    by (simp add: chat_def)
  have earlier: "\<forall>j<1. has_agent agents (wf_steps workflow ! j) \<longrightarrow> content_of (chat j) \<noteq> None"
    by (simp add: chat_def content_of_def is_nullish_def)
  have run: "handleRunWorkflow toStr agents chat False [] workflow ''Write a story''
     = ([\<lparr>log_stepId = ''s1'', log_agentName = ''Writer'', log_output = JString ''draft'',
          log_status = Completed\<rparr>,
         \<lparr>log_stepId = ''s2'', log_agentName = ''Writer'',
          log_output = JString ''Execution failed: Agent Writer failed: model not found'',
          log_status = Failed\<rparr>,
         \<lparr>log_stepId = ''s3'', log_agentName = ''Writer'', log_output = JString [],
          log_status = Pending\<rparr>],
        [step_request toStr (hd agents) ''Write a story'' (JString ''Write a story'')
           (wf_steps workflow ! 0),
         step_request toStr (hd agents) ''Write a story'' (JString ''draft'')
           (wf_steps workflow ! 1)])"
    using guard
    by (simp add: handleRunWorkflow_def workflow_def agents_def chat_def initial_log_def
        map_at_def is_nullish_def Let_def)
  show "map log_status (fst (handleRunWorkflow toStr
        [\<lparr>agent_id = ''a1'', agent_name = ''Writer'', agent_role = ''WRITER'',
          agent_model = ''qwen2.5:1.5b'', agent_systemPrompt = ''You write.'',
          agent_temperature = Fin (7 / 10)\<rparr>]
        (\<lambda>i. if i = 0 then ChatOk (JObject [(''message'', JObject [(''content'', JString ''draft'')])])
             else if i = 1 then ChatNotOk ''model not found''
             else ChatOk (JObject [(''message'', JObject [(''content'', JString ''final'')])]))
        False []
        \<lparr>wf_id = ''w1'', wf_name = ''Pipeline'',
         wf_steps = [\<lparr>step_id = ''s1'', step_agentId = ''a1'', step_description = ''Draft''\<rparr>,
                     \<lparr>step_id = ''s2'', step_agentId = ''a1'', step_description = ''Edit''\<rparr>,
                     \<lparr>step_id = ''s3'', step_agentId = ''a1'', step_description = ''Polish''\<rparr>],
         wf_createdAt = 0\<rparr>
        ''Write a story''))
     = [Completed, Failed, Pending]
   \<and> log_output (fst (handleRunWorkflow toStr
        [\<lparr>agent_id = ''a1'', agent_name = ''Writer'', agent_role = ''WRITER'',
          agent_model = ''qwen2.5:1.5b'', agent_systemPrompt = ''You write.'',
          agent_temperature = Fin (7 / 10)\<rparr>]
        (\<lambda>i. if i = 0 then ChatOk (JObject [(''message'', JObject [(''content'', JString ''draft'')])])
             else if i = 1 then ChatNotOk ''model not found''
             else ChatOk (JObject [(''message'', JObject [(''content'', JString ''final'')])]))
        False []
        \<lparr>wf_id = ''w1'', wf_name = ''Pipeline'',
         wf_steps = [\<lparr>step_id = ''s1'', step_agentId = ''a1'', step_description = ''Draft''\<rparr>,
                     \<lparr>step_id = ''s2'', step_agentId = ''a1'', step_description = ''Edit''\<rparr>,
                     \<lparr>step_id = ''s3'', step_agentId = ''a1'', step_description = ''Polish''\<rparr>],
         wf_createdAt = 0\<rparr>
        ''Write a story'') ! 1)
     = JString ''Execution failed: Agent Writer failed: model not found''
   \<and> length (snd (handleRunWorkflow toStr
        [\<lparr>agent_id = ''a1'', agent_name = ''Writer'', agent_role = ''WRITER'',
          agent_model = ''qwen2.5:1.5b'', agent_systemPrompt = ''You write.'',
          agent_temperature = Fin (7 / 10)\<rparr>]
        (\<lambda>i. if i = 0 then ChatOk (JObject [(''message'', JObject [(''content'', JString ''draft'')])])
             else if i = 1 then ChatNotOk ''model not found''
             else ChatOk (JObject [(''message'', JObject [(''content'', JString ''final'')])]))
        False []
        \<lparr>wf_id = ''w1'', wf_name = ''Pipeline'',
         wf_steps = [\<lparr>step_id = ''s1'', step_agentId = ''a1'', step_description = ''Draft''\<rparr>,
                     \<lparr>step_id = ''s2'', step_agentId = ''a1'', step_description = ''Edit''\<rparr>,
                     \<lparr>step_id = ''s3'', step_agentId = ''a1'', step_description = ''Polish''\<rparr>],
         wf_createdAt = 0\<rparr>
        ''Write a story'')) = 2"
    using C7_failed_step_aborts_workflow [where toStr = toStr and agents = agents and chat = chat
        and isWFRunning = False and workflowLogs = "[]" and workflow = workflow
        and finalInput = "''Write a story''" and k = 1, OF guard k agent failed earlier]
    unfolding run
    unfolding agents_def [symmetric] chat_def [symmetric] workflow_def [symmetric] run
    by simp
qed

section \<open>Properties of the number model\<close>

text \<open>Facts for computing with the rounding on numerals.\<close>

lemma floor_rat_numeral [simp]: "\<lfloor>numeral a / numeral b :: rat\<rfloor> = numeral a div numeral b"
  using floor_divide_of_int_eq [of "numeral a" "numeral b", where ?'a = rat] by simp

lemma bit_length_numeral:
  "bit_length 0 = 0" "bit_length 1 = Suc 0"
  "bit_length (numeral k) = Suc (bit_length (numeral k div 2))"
  by (simp_all add: bit_length.simps [of 0] bit_length.simps [of 1] bit_length.simps [of "numeral k"])

lemma Let_fraction: "Let (numeral a / numeral b :: rat) f = f (numeral a / numeral b)"
  by (simp add: Let_def)

lemmas rd_eval = round_double_def floor_log2_def round_half_even_def bit_length_numeral
  Let_fraction

lemma bit_length_bounds:
  "0 < n \<Longrightarrow> 2 ^ (bit_length n - 1) \<le> n \<and> n < 2 ^ bit_length n"
proof (induction n rule: bit_length.induct)
  case (1 n)
  show ?case
  proof (cases "n div 2 \<le> 0")
    case True
    with 1 have "n = 1" by auto
    then show ?thesis by (simp add: bit_length_numeral)
  next
    case False
    then have pos: "0 < n div 2" by simp
    from 1 have n: "\<not> n \<le> 0" by simp
    from "1.IH" [OF n pos] have lo: "2 ^ (bit_length (n div 2) - 1) \<le> n div 2"
      and hi: "n div 2 < 2 ^ bit_length (n div 2)" by auto
    have bl: "bit_length n = Suc (bit_length (n div 2))"
      using n by (subst bit_length.simps) simp
    have "0 < bit_length (n div 2)"
      using pos by (subst bit_length.simps) simp
    then obtain j where j: "bit_length (n div 2) = Suc j" by (cases "bit_length (n div 2)") auto
    from lo hi show ?thesis unfolding bl j by auto
  qed
qed

lemma log2_guess_bounds:
  fixes a :: rat
  assumes "0 < a"
  defines "k \<equiv> (if 1 \<le> a then int (bit_length \<lfloor>a\<rfloor>) - 1
               else - int (bit_length \<lfloor>1 / a\<rfloor>))"
  shows "2 powi k \<le> a \<and> a < 2 powi (k + 2)"
proof (cases "1 \<le> a")
  case True
  define n where "n = \<lfloor>a\<rfloor>"
  from True have n: "0 < n" by (simp add: n_def)
  have na: "of_int n \<le> a" "a < of_int n + 1"
    using floor_correct [of a] by (auto simp: n_def)
  from bit_length_bounds [OF n] have lo: "2 ^ (bit_length n - 1) \<le> n" and hi: "n < 2 ^ bit_length n"
    by auto
  from n hi have blpos: "0 < bit_length n" by (cases "bit_length n") auto
  have k: "k = int (bit_length n - 1)"
    using True blpos by (simp add: k_def n_def)
  have "(2::rat) powi k = of_int (2 ^ (bit_length n - 1))"
    unfolding k power_int_of_nat by simp
  also have "\<dots> \<le> of_int n" using lo by (simp only: of_int_le_iff)
  finally have l: "2 powi k \<le> a" using na(1) by simp
  have "k + 2 = int (Suc (bit_length n))" using blpos by (simp add: k)
  then have "(2::rat) powi (k + 2) = of_int (2 ^ Suc (bit_length n))"
    by (simp only: power_int_of_nat of_int_power of_int_numeral)
  moreover have "n + 1 \<le> 2 ^ Suc (bit_length n)" using hi n by simp
  then have "(of_int (n + 1) :: rat) \<le> of_int (2 ^ Suc (bit_length n))" by (simp only: of_int_le_iff)
  ultimately have "a < 2 powi (k + 2)" using na(2) by simp
  with l show ?thesis by simp
next
  case False
  define b where "b = 1 / a"
  define n where "n = \<lfloor>b\<rfloor>"
  from False assms have b1: "1 < b" by (simp add: b_def)
  then have n: "0 < n" by (simp add: n_def)
  have nb: "of_int n \<le> b" "b < of_int n + 1"
    using floor_correct [of b] by (auto simp: n_def)
  from bit_length_bounds [OF n] have lo: "2 ^ (bit_length n - 1) \<le> n" and hi: "n < 2 ^ bit_length n"
    by auto
  from n hi have blpos: "0 < bit_length n" by (cases "bit_length n") auto
  have k: "k = - int (bit_length n)"
    using False by (simp add: k_def n_def b_def)
  have a: "a = 1 / b" using assms by (simp add: b_def)
  have "n + 1 \<le> 2 ^ bit_length n" using hi by simp
  then have "(of_int (n + 1) :: rat) \<le> of_int (2 ^ bit_length n)" by (simp only: of_int_le_iff)
  then have "b < 2 ^ bit_length n" using nb(2) by simp
  then have "1 / 2 ^ bit_length n < a" unfolding a using b1
    by (simp add: field_simps)
  moreover have "(2::rat) powi k = 1 / 2 ^ bit_length n"
    unfolding k by (simp add: power_int_minus_divide)
  ultimately have l: "2 powi k \<le> a" by simp
  have "(of_int (2 ^ (bit_length n - 1)) :: rat) \<le> of_int n" using lo by (simp only: of_int_le_iff)
  then have "(2::rat) ^ (bit_length n - 1) \<le> of_int n" by (simp only: of_int_power of_int_numeral)
  then have "2 ^ (bit_length n - 1) \<le> b" using nb(1) by (rule order_trans)
  then have "a \<le> 1 / 2 ^ (bit_length n - 1)" unfolding a using b1
    by (simp add: field_simps)
  moreover have "k + 1 = - int (bit_length n - 1)" using blpos by (simp add: k)
  then have "(2::rat) powi (k + 1) = 1 / 2 ^ (bit_length n - 1)"
    by (simp add: power_int_minus_divide)
  moreover have "(2::rat) powi (k + 1) < 2 powi (k + 2)"
    by (rule power_int_strict_increasing) simp_all
  ultimately have "a < 2 powi (k + 2)" by simp
  with l show ?thesis by simp
qed

lemma floor_log2_bounds:
  assumes "0 < a"
  shows "2 powi floor_log2 a \<le> a \<and> a < 2 powi (floor_log2 a + 1)"
  using log2_guess_bounds [OF assms]
  by (auto simp: floor_log2_def Let_def add.commute [of 1] simp flip: add.assoc)

lemma round_half_even_of_int [simp]: "round_half_even (of_int z) = z"
  by (simp add: round_half_even_def)

lemma round_double_exact:
  fixes M E :: int
  assumes q: "q = of_int M * 2 powi E"
    and M: "M \<noteq> 0" "\<bar>M\<bar> < 2 ^ 53"
    and E: "- 1074 \<le> E"
    and fin: "\<bar>q\<bar> < 2 ^ 1024"
  shows "round_double q = Fin q"
proof -
  define a where "a = \<bar>q\<bar>"
  define e where "e = floor_log2 a"
  define qe where "qe = max (e - 52) (- 1074)"
  have two: "0 < (2::rat) powi k" for k by simp
  have a: "a = of_int \<bar>M\<bar> * 2 powi E"
    unfolding a_def q by (simp add: abs_mult)
  have apos: "0 < a" unfolding a using M(1) two by simp
  from floor_log2_bounds [OF apos] have "2 powi e \<le> a" by (simp add: e_def)
  also have "a < 2 ^ 53 * 2 powi E"
  proof -
    have "(of_int \<bar>M\<bar> :: rat) < of_int (2 ^ 53)" using M(2) by (simp only: of_int_less_iff)
    then have "(of_int \<bar>M\<bar> :: rat) < 2 ^ 53" by simp
    then show ?thesis unfolding a using two [of E] by simp
  qed
  also have "\<dots> = 2 powi (53 + E)"
    by (simp add: power_int_add)
  finally have lt: "(2::rat) powi e < 2 powi (53 + E)" .
  have "e < 53 + E"
  proof (rule ccontr)
    assume "\<not> e < 53 + E"
    then have "(2::rat) powi (53 + E) \<le> 2 powi e"
      by (intro power_int_increasing) simp_all
    with lt show False by simp
  qed
  with E have qeE: "qe \<le> E" by (simp add: qe_def)
  define d where "d = nat (E - qe)"
  have Ed: "E = qe + int d" using qeE by (simp add: d_def)
  have quot: "a / 2 powi qe = of_int (\<bar>M\<bar> * 2 ^ d)"
    unfolding a Ed by (simp add: power_int_add)
  have m: "round_half_even (a / 2 powi qe) = \<bar>M\<bar> * 2 ^ d"
    unfolding quot by (rule round_half_even_of_int)
  have v: "of_int (\<bar>M\<bar> * 2 ^ d) * 2 powi qe = a"
    unfolding a Ed by (simp add: power_int_add)
  have mne: "\<bar>M\<bar> * 2 ^ d \<noteq> 0" using M(1) by simp
  have "round_double q =
      (if 2 ^ 1024 \<le> a then (if q < 0 then NegInf else PosInf)
       else if \<bar>M\<bar> * 2 ^ d = 0 then (if q < 0 then NegZero else Fin 0)
       else Fin (if q < 0 then - a else a))"
    unfolding round_double_def Let_def a_def [symmetric] e_def [symmetric] qe_def [symmetric] m v ..
  also have "\<dots> = Fin q"
    using fin mne by (simp add: a_def)
  finally show ?thesis .
qed

lemma round_double_numeral [simp]:
  assumes "(numeral k :: int) < 2 ^ 53"
  shows "round_double (numeral k) = Fin (numeral k)"
proof (rule round_double_exact [where M = "numeral k" and E = 0])
  show "(numeral k :: rat) = of_int (numeral k) * 2 powi 0" by simp
  show "(numeral k :: int) \<noteq> 0" by simp
  show "\<bar>numeral k :: int\<bar> < 2 ^ 53" using assms by simp
  show "- 1074 \<le> (0::int)" by simp
  have "(of_int (numeral k) :: rat) < of_int (2 ^ 53)" using assms by (simp only: of_int_less_iff)
  then have "(numeral k :: rat) < 2 ^ 53" by simp
  also have "(2::rat) ^ 53 < 2 ^ 1024" by (rule power_strict_increasing) simp_all
  finally show "\<bar>numeral k :: rat\<bar> < 2 ^ 1024" by simp
qed

lemma round_double_one [simp]: "round_double 1 = Fin 1"
proof (rule round_double_exact [where M = 1 and E = 0])
  have "(1::rat) < 2 ^ 1024" by (rule one_less_power) simp_all
  then show "\<bar>1 :: rat\<bar> < 2 ^ 1024" by simp
qed simp_all

section \<open>Properties of the stream decoder\<close>


lemma split_nl_not_Nil [simp]: "split_nl s \<noteq> []"
  by (induction s) (auto split: list.splits)

lemma split_nl_append_nl: "split_nl (xs @ CHR 0x0A # ys) = split_nl xs @ split_nl ys"
  by (induction xs) (auto split: list.splits)

lemma process_line_blank: "process_line parse toStr toNum sources st [] = st"
  by (simp add: process_line_def trim_def)

lemma process_chunk_empty: "process_chunk parse toStr toNum sources st [] = st"
  by (simp add: process_chunk_def process_line_blank)

lemma process_chunk_line_end:
  "process_chunk parse toStr toNum sources st (xs @ CHR 0x0A # ys)
     = process_chunk parse toStr toNum sources (process_chunk parse toStr toNum sources st xs) ys"
  by (simp add: process_chunk_def split_nl_append_nl)

lemma process_chunk_ends_line:
  assumes "ends_line a"
  shows "process_chunk parse toStr toNum sources (process_chunk parse toStr toNum sources st a) b
       = process_chunk parse toStr toNum sources st (a @ b)"
proof (cases "a = []")
  case True
  then show ?thesis by (simp add: process_chunk_empty)
next
  case False
  with assms have a: "a = butlast a @ [CHR 0x0A]"
    by (metis ends_line_def append_butlast_last_id)
  have "process_chunk parse toStr toNum sources st (a @ b)
      = process_chunk parse toStr toNum sources st (butlast a @ CHR 0x0A # b)"
    by (subst a) simp
  also have "\<dots> = process_chunk parse toStr toNum sources
                     (process_chunk parse toStr toNum sources st (butlast a)) b"
    by (rule process_chunk_line_end)
  also have "process_chunk parse toStr toNum sources st (butlast a)
      = process_chunk parse toStr toNum sources st a"
  proof -
    have "process_chunk parse toStr toNum sources st a
        = process_chunk parse toStr toNum sources st (butlast a @ CHR 0x0A # [])"
      by (subst a) simp
    also have "\<dots> = process_chunk parse toStr toNum sources st (butlast a)"
      by (simp only: process_chunk_line_end process_chunk_empty)
    finally show ?thesis by simp
  qed
  finally show ?thesis by simp
qed

lemma foldl_process_chunk_concat:
  assumes "\<forall>c\<in>set (butlast chunks). ends_line c"
  shows "foldl (process_chunk parse toStr toNum sources) st chunks
       = process_chunk parse toStr toNum sources st (concat chunks)"
  using assms
proof (induction chunks arbitrary: st)
  case Nil
  show ?case by (simp add: process_chunk_empty)
next
  case (Cons c chunks)
  show ?case
  proof (cases "chunks = []")
    case True
    then show ?thesis by simp
  next
    case False
    with Cons.prems have c: "ends_line c" and rest: "\<forall>c\<in>set (butlast chunks). ends_line c"
      by simp_all
    show ?thesis
      using Cons.IH [OF rest] by (simp add: process_chunk_ends_line [OF c])
  qed
qed

text \<open>
  Claim C1, as the code has it. \<^verbatim>\<open>readStream\<close> splits every chunk into lines by itself and
  keeps no fragment from one read to the next. When every read but the last ends right
  after a line feed (or is empty), decoding the chunks gives the same result, content, tool
  calls, message and session messages, as decoding their concatenation as one chunk.
\<close>

theorem C1_chunks_on_line_boundaries:
  assumes "\<forall>c\<in>set (butlast chunks). ends_line c"
  shows "readStream parse toStr toNum sources chunks messages
       = readStream parse toStr toNum sources [concat chunks] messages"
  using foldl_process_chunk_concat [OF assms] by (simp add: readStream_def)

text \<open>Facts for running the decoder on the examples.\<close>

lemmas stream_eval = readStream_def process_chunk_def process_line_def trim_def is_js_space_def
  updateAssistantMessage_def stats_of_def js_or_def js_String_def js_Number_def spread_elements_def
  pushed_calls_def
  Let_def

lemma parse_hello:
  "JSON_parse ''{\"message\":{\"role\":\"assistant\",\"content\":\"Hello\"}}''
     = Some (JObject [(''message'', JObject [(''role'', JString ''assistant''),
                                              (''content'', JString ''Hello'')])])"
  by (simp add: json_eval)

lemma parse_hello_head: "JSON_parse ''{\"message\":{\"role\":\"assistant\",\"con'' = None"
  by (simp add: json_eval)

lemma parse_hello_tail: "JSON_parse ''tent\":\"Hello\"}}'' = None"
  by (simp add: json_eval)

text \<open>
  Claim C1 as stated fails: a line cut in two by a chunk boundary is lost, since each
  fragment is parsed on its own and neither is JSON. The stream holds one line with the
  content \<^verbatim>\<open>Hello\<close>; read in two chunks it decodes to the empty content.
\<close>

theorem C1_counterexample:
  "ss_content (readStream JSON_parse object_String object_Number JUndefined
      [''{\"message\":{\"role\":\"assistant\",\"con'',
       ''tent\":\"Hello\"}}'' @ [CHR 0x0A]] []) = []
   \<and> ss_content (readStream JSON_parse object_String object_Number JUndefined
      [''{\"message\":{\"role\":\"assistant\",\"con'' @ ''tent\":\"Hello\"}}'' @ [CHR 0x0A]] [])
     = ''Hello''"
  by (simp add: stream_eval parse_hello parse_hello_head parse_hello_tail)

theorem C1_witness:
  "ss_content (readStream JSON_parse object_String object_Number JUndefined
      [''{\"message\":{\"role\":\"assistant\",\"content\":\"Hello\"}}'' @ [CHR 0x0A],
       ''{\"message\":{\"role\":\"assistant\",\"content\":\"Hello\"}}'' @ [CHR 0x0A]] [])
     = ''HelloHello''
   \<and> readStream JSON_parse object_String object_Number JUndefined
      [''{\"message\":{\"role\":\"assistant\",\"content\":\"Hello\"}}'' @ [CHR 0x0A],
       ''{\"message\":{\"role\":\"assistant\",\"content\":\"Hello\"}}'' @ [CHR 0x0A]] []
     = readStream JSON_parse object_String object_Number JUndefined
      [concat [''{\"message\":{\"role\":\"assistant\",\"content\":\"Hello\"}}'' @ [CHR 0x0A],
               ''{\"message\":{\"role\":\"assistant\",\"content\":\"Hello\"}}'' @ [CHR 0x0A]]] []"
proof
  show "ss_content (readStream JSON_parse object_String object_Number JUndefined
      [''{\"message\":{\"role\":\"assistant\",\"content\":\"Hello\"}}'' @ [CHR 0x0A],
       ''{\"message\":{\"role\":\"assistant\",\"content\":\"Hello\"}}'' @ [CHR 0x0A]] [])
     = ''HelloHello''"
    by (simp add: stream_eval parse_hello)
next
  have "\<forall>c\<in>set (butlast
      [''{\"message\":{\"role\":\"assistant\",\"content\":\"Hello\"}}'' @ [CHR 0x0A],
       ''{\"message\":{\"role\":\"assistant\",\"content\":\"Hello\"}}'' @ [CHR 0x0A]]). ends_line c"
    by (simp add: ends_line_def)
  then show "readStream JSON_parse object_String object_Number JUndefined
      [''{\"message\":{\"role\":\"assistant\",\"content\":\"Hello\"}}'' @ [CHR 0x0A],
       ''{\"message\":{\"role\":\"assistant\",\"content\":\"Hello\"}}'' @ [CHR 0x0A]] []
     = readStream JSON_parse object_String object_Number JUndefined
      [concat [''{\"message\":{\"role\":\"assistant\",\"content\":\"Hello\"}}'' @ [CHR 0x0A],
               ''{\"message\":{\"role\":\"assistant\",\"content\":\"Hello\"}}'' @ [CHR 0x0A]]] []"
    by (rule C1_chunks_on_line_boundaries)
qed

lemma map_of_obj_put: "map_of (obj_put k v kvs) k' = (if k' = k then Some v else map_of kvs k')"
  by (induction kvs) auto

lemma opt_prop_obj_put:
  "opt_prop (JObject (obj_put k v kvs)) k' = (if k' = k then v else opt_prop (JObject kvs) k')"
  by (simp add: map_of_obj_put)

lemma updateAssistantMessage_not_Nil [simp]:
  "updateAssistantMessage content stats sources messages \<noteq> []"
  by (simp add: updateAssistantMessage_def)

lemma updateAssistantMessage_stats:
  "truthy stats \<Longrightarrow>
   opt_prop (last (updateAssistantMessage content stats sources messages)) ''stats'' = stats"
  by (simp add: updateAssistantMessage_def map_of_obj_put js_or_def)

lemma updateAssistantMessage_content:
  "opt_prop (last (updateAssistantMessage content stats sources messages)) ''content''
     = JString content"
  by (simp add: updateAssistantMessage_def map_of_obj_put)

lemma round_double_zero_sign:
  "is_zero (round_double q) \<Longrightarrow> is_neg (round_double q) = (q < 0)"
  by (auto simp: round_double_def Let_def split: if_splits)

lemma js_div_regular:
  "c \<noteq> 0 \<Longrightarrow> s \<noteq> 0 \<Longrightarrow> js_div (Fin c) (Fin s) = round_double (c / s)"
  by (simp add: js_div_def)

lemma js_div_by_num:
  "s \<noteq> 0 \<Longrightarrow> js_div (Fin 0) (Fin s) = (if s < 0 then NegZero else Fin 0)"
  by (simp add: js_div_def)

lemma js_div_NaN: "js_div NaN b = NaN" "js_div a NaN = NaN"
  by (simp_all add: js_div_def)

lemma js_div_by_zero:
  "is_zero z \<Longrightarrow>
   js_div (Fin c) z = (if c = 0 then NaN else if (c < 0) \<noteq> is_neg z then NegInf else PosInf)"
  by (cases z) (auto simp: js_div_def)

lemma process_line_terminal:
  assumes "trim line \<noteq> []" and "parse line = Some data"
    and "get_prop data ''message'' = Inr message" and "pushed_calls message = Inr calls"
  shows "ss_messages (process_line parse toStr toNum sources st line)
     = updateAssistantMessage
         (if truthy message \<and> truthy (opt_prop message ''content'')
          then ss_content st @ js_String toStr (opt_prop message ''content'')
          else ss_content st)
         (stats_of toNum data) sources (ss_messages st)"
  using assms by (simp add: process_line_def Let_def)

text \<open>
  Claim C4, as the code has it. For a line that parses to a terminal object (\<^verbatim>\<open>done\<close> is
  truthy) and is processed without an error, the update callback receives the statistics
  \<^verbatim>\<open>totalTokens = eval_count\<close> and
  \<^verbatim>\<open>tokensPerSecond = eval_count / (eval_duration / 1e9)\<close>, two divisions of doubles that
  never throw. For a finite count \<open>c\<close> and a finite duration \<open>d\<close>, both non-zero: the
  duration in seconds is \<open>d / 1e9\<close> rounded to a double \<open>s\<close>, and the rate is \<open>c / s\<close> rounded
  to a double; when the seconds underflow to a zero, the rate is \<^verbatim>\<open>Infinity\<close> or
  \<^verbatim>\<open>-Infinity\<close>, by the signs of \<open>c\<close> and \<open>d\<close>. A zero count in non-zero seconds gives
  a zero rate. A duration of zero gives \<^verbatim>\<open>Infinity\<close> for a
  positive count, \<^verbatim>\<open>-Infinity\<close> for a negative one and not-a-number for a zero count; a
  duration of \<^verbatim>\<open>-0\<close> gives the same with the signs swapped. A missing count or duration
  gives not-a-number.
\<close>

theorem C4_terminal_object_stats:
  fixes parse :: "string \<Rightarrow> json option" and toStr :: "json \<Rightarrow> string" and toNum :: "json \<Rightarrow> jsnum"
    and sources :: json and st :: stream_state and line :: string and data message :: json
    and calls :: "json list" and stats :: json
  defines "stats \<equiv> opt_prop (last (ss_messages (process_line parse toStr toNum sources st line))) ''stats''"
  assumes line: "trim line \<noteq> []"
    and parsed: "parse line = Some data"
    and message: "get_prop data ''message'' = Inr message"
    and pushed: "pushed_calls message = Inr calls"
    and terminal: "truthy (opt_prop data ''done'')"
  shows "stats = JObject
           [(''totalTokens'', opt_prop data ''eval_count''),
            (''tokensPerSecond'', JNumber
               (js_div (js_Number toNum (opt_prop data ''eval_count''))
                  (js_div (js_Number toNum (opt_prop data ''eval_duration''))
                     (Fin 1000000000))))]
       \<and> (\<forall>c d s. opt_prop data ''eval_count'' = JNumber (Fin c)
              \<and> opt_prop data ''eval_duration'' = JNumber (Fin d)
              \<and> c \<noteq> 0 \<and> d \<noteq> 0 \<and> round_double (d / 1000000000) = Fin s \<and> s \<noteq> 0 \<longrightarrow>
            opt_prop stats ''totalTokens'' = JNumber (Fin c)
          \<and> opt_prop stats ''tokensPerSecond'' = JNumber (round_double (c / s)))
       \<and> (\<forall>d s. opt_prop data ''eval_count'' = JNumber (Fin 0)
              \<and> opt_prop data ''eval_duration'' = JNumber (Fin d)
              \<and> d \<noteq> 0 \<and> round_double (d / 1000000000) = Fin s \<and> s \<noteq> 0 \<longrightarrow>
            opt_prop stats ''tokensPerSecond'' = JNumber (if s < 0 then NegZero else Fin 0))
       \<and> (\<forall>c d. opt_prop data ''eval_count'' = JNumber (Fin c)
              \<and> opt_prop data ''eval_duration'' = JNumber (Fin d)
              \<and> c \<noteq> 0 \<and> d \<noteq> 0 \<and> is_zero (round_double (d / 1000000000)) \<longrightarrow>
            opt_prop stats ''tokensPerSecond''
              = JNumber (if (c < 0) \<noteq> (d < 0) then NegInf else PosInf))
       \<and> (\<forall>c. opt_prop data ''eval_count'' = JNumber (Fin c)
              \<and> opt_prop data ''eval_duration'' = JNumber (Fin 0) \<longrightarrow>
            opt_prop stats ''tokensPerSecond''
              = JNumber (if c = 0 then NaN else if c < 0 then NegInf else PosInf))
       \<and> (\<forall>c. opt_prop data ''eval_count'' = JNumber (Fin c)
              \<and> opt_prop data ''eval_duration'' = JNumber NegZero \<longrightarrow>
            opt_prop stats ''tokensPerSecond''
              = JNumber (if c = 0 then NaN else if c < 0 then PosInf else NegInf))
       \<and> (opt_prop data ''eval_count'' = JUndefined \<or> opt_prop data ''eval_duration'' = JUndefined \<longrightarrow>
            opt_prop stats ''tokensPerSecond'' = JNumber NaN)"
proof -
  let ?stats = "JObject
           [(''totalTokens'', opt_prop data ''eval_count''),
            (''tokensPerSecond'', JNumber
               (js_div (js_Number toNum (opt_prop data ''eval_count''))
                  (js_div (js_Number toNum (opt_prop data ''eval_duration''))
                     (Fin 1000000000))))]"
  have so: "stats_of toNum data = ?stats"
    using terminal by (simp add: stats_of_def)
  have stats: "stats = ?stats"
    unfolding stats_def
      process_line_terminal [where parse = parse and line = line, OF line parsed message pushed] so
    by (rule updateAssistantMessage_stats) simp
  have seconds: "js_div (Fin d) (Fin 1000000000) = round_double (d / 1000000000)" if "d \<noteq> 0" for d
    using that by (simp add: js_div_def)
  have regular: "opt_prop stats ''totalTokens'' = JNumber (Fin c)
          \<and> opt_prop stats ''tokensPerSecond'' = JNumber (round_double (c / s))"
    if "opt_prop data ''eval_count'' = JNumber (Fin c)
              \<and> opt_prop data ''eval_duration'' = JNumber (Fin d)
              \<and> c \<noteq> 0 \<and> d \<noteq> 0 \<and> round_double (d / 1000000000) = Fin s \<and> s \<noteq> 0" for c d s
    using that by (simp add: stats js_Number_def seconds js_div_regular)
  have no_tokens: "opt_prop stats ''tokensPerSecond'' = JNumber (if s < 0 then NegZero else Fin 0)"
    if "opt_prop data ''eval_count'' = JNumber (Fin 0)
              \<and> opt_prop data ''eval_duration'' = JNumber (Fin d)
              \<and> d \<noteq> 0 \<and> round_double (d / 1000000000) = Fin s \<and> s \<noteq> 0" for d s
    using that by (simp add: stats js_Number_def seconds js_div_by_num)
  have underflow: "opt_prop stats ''tokensPerSecond''
              = JNumber (if (c < 0) \<noteq> (d < 0) then NegInf else PosInf)"
    if "opt_prop data ''eval_count'' = JNumber (Fin c)
              \<and> opt_prop data ''eval_duration'' = JNumber (Fin d)
              \<and> c \<noteq> 0 \<and> d \<noteq> 0 \<and> is_zero (round_double (d / 1000000000))" for c d
  proof -
    from that have z: "is_zero (round_double (d / 1000000000))" by simp
    from round_double_zero_sign [OF z] have "is_neg (round_double (d / 1000000000)) = (d < 0)"
      by (simp add: divide_less_0_iff)
    with that show ?thesis
      by (simp add: stats js_Number_def seconds js_div_by_zero [OF z])
  qed
  have zero: "opt_prop stats ''tokensPerSecond''
              = JNumber (if c = 0 then NaN else if c < 0 then NegInf else PosInf)"
    if "opt_prop data ''eval_count'' = JNumber (Fin c)
              \<and> opt_prop data ''eval_duration'' = JNumber (Fin 0)" for c
    using that by (simp add: stats js_Number_def js_div_def)
  have neg_zero: "opt_prop stats ''tokensPerSecond''
              = JNumber (if c = 0 then NaN else if c < 0 then PosInf else NegInf)"
    if "opt_prop data ''eval_count'' = JNumber (Fin c)
              \<and> opt_prop data ''eval_duration'' = JNumber NegZero" for c
    using that by (simp add: stats js_Number_def js_div_def)
  have missing: "opt_prop stats ''tokensPerSecond'' = JNumber NaN"
    if "opt_prop data ''eval_count'' = JUndefined \<or> opt_prop data ''eval_duration'' = JUndefined"
    using that by (auto simp: stats js_Number_def js_div_NaN)
  from stats regular no_tokens underflow zero neg_zero missing show ?thesis by blast
qed

lemma parse_done_2e9:
  "JSON_parse ''{\"done\":true,\"eval_count\":100,\"eval_duration\":2000000000}''
     = Some (JObject [(''done'', JBool True), (''eval_count'', JNumber (Fin 100)),
                      (''eval_duration'', JNumber (Fin 2000000000))])"
  by (simp add: json_eval)

lemma parse_done_3:
  "JSON_parse ''{\"done\":true,\"eval_count\":1,\"eval_duration\":3}''
     = Some (JObject [(''done'', JBool True), (''eval_count'', JNumber (Fin 1)),
                      (''eval_duration'', JNumber (Fin 3))])"
  by (simp add: json_eval)

lemma parse_done_zero:
  "JSON_parse ''{\"done\":true,\"eval_count\":100,\"eval_duration\":0}''
     = Some (JObject [(''done'', JBool True), (''eval_count'', JNumber (Fin 100)),
                      (''eval_duration'', JNumber (Fin 0))])"
  by (simp add: json_eval)

text \<open>
  Three nanoseconds are \<^verbatim>\<open>3e-9\<close> seconds, the double \<open>7253554917687775 / 2 ^ 81\<close>, and one
  token in that time is the double \<open>5592405333333333 / 2 ^ 24\<close>, which prints as
  \<^verbatim>\<open>333333333.3333333\<close>.
\<close>

lemma three_nanoseconds:
  "round_double (3 / 1000000000) = Fin (7253554917687775 / 2417851639229258349412352)"
  by (simp add: rd_eval cong: let_weak_cong)

lemma one_in_three_nanoseconds:
  "round_double (1 / (7253554917687775 / 2417851639229258349412352))
     = Fin (5592405333333333 / 16777216)"
  by (simp add: rd_eval cong: let_weak_cong)

text \<open>
  Claim C4 as stated fails: \<^verbatim>\<open>eval_count = 100\<close> with a zero duration yields \<^verbatim>\<open>Infinity\<close>,
  which is not not-a-number.
\<close>

theorem C4_counterexample:
  "opt_prop (opt_prop (last (ss_messages
       (readStream JSON_parse object_String object_Number JUndefined
          [''{\"done\":true,\"eval_count\":100,\"eval_duration\":0}'' @ [CHR 0x0A]] [])))
      ''stats'') ''tokensPerSecond'' = JNumber PosInf
   \<and> JNumber PosInf \<noteq> JNumber NaN"
  by (simp add: stream_eval parse_done_zero js_div_def)

theorem C4_witness:
  "opt_prop (last (ss_messages
       (process_line JSON_parse object_String object_Number JUndefined
          \<lparr>ss_content = ''Hi'', ss_toolCalls = [], ss_message = JNull,
           ss_messages = [JObject [(''role'', JString ''assistant''), (''content'', JString ''Hi'')]]\<rparr>
          ''{\"done\":true,\"eval_count\":100,\"eval_duration\":2000000000}''))) ''stats''
     = JObject [(''totalTokens'', JNumber (Fin 100)), (''tokensPerSecond'', JNumber (Fin 50))]
   \<and> opt_prop (opt_prop (last (ss_messages
       (process_line JSON_parse object_String object_Number JUndefined
          \<lparr>ss_content = ''Hi'', ss_toolCalls = [], ss_message = JNull,
           ss_messages = [JObject [(''role'', JString ''assistant''), (''content'', JString ''Hi'')]]\<rparr>
          ''{\"done\":true,\"eval_count\":1,\"eval_duration\":3}''))) ''stats'') ''tokensPerSecond''
     = JNumber (Fin (5592405333333333 / 16777216))"
proof
  have line: "trim ''{\"done\":true,\"eval_count\":100,\"eval_duration\":2000000000}'' \<noteq> []"
    by (simp add: trim_def is_js_space_def)
  have message: "get_prop (JObject [(''done'', JBool True), (''eval_count'', JNumber (Fin 100)),
                      (''eval_duration'', JNumber (Fin 2000000000))]) ''message'' = Inr JUndefined"
    by simp
  have pushed: "pushed_calls JUndefined = Inr []"
    by (simp add: pushed_calls_def)
  have terminal: "truthy (opt_prop (JObject [(''done'', JBool True), (''eval_count'', JNumber (Fin 100)),
                      (''eval_duration'', JNumber (Fin 2000000000))]) ''done'')"
    by simp
  show "opt_prop (last (ss_messages
       (process_line JSON_parse object_String object_Number JUndefined
          \<lparr>ss_content = ''Hi'', ss_toolCalls = [], ss_message = JNull,
           ss_messages = [JObject [(''role'', JString ''assistant''), (''content'', JString ''Hi'')]]\<rparr>
          ''{\"done\":true,\"eval_count\":100,\"eval_duration\":2000000000}''))) ''stats''
     = JObject [(''totalTokens'', JNumber (Fin 100)), (''tokensPerSecond'', JNumber (Fin 50))]"
    using C4_terminal_object_stats [where parse = JSON_parse and toStr = object_String
        and toNum = object_Number and sources = JUndefined,
        OF line parse_done_2e9 message pushed terminal]
    by (simp add: js_Number_def js_div_def)
next
  have line: "trim ''{\"done\":true,\"eval_count\":1,\"eval_duration\":3}'' \<noteq> []"
    by (simp add: trim_def is_js_space_def)
  have message: "get_prop (JObject [(''done'', JBool True), (''eval_count'', JNumber (Fin 1)),
                      (''eval_duration'', JNumber (Fin 3))]) ''message'' = Inr JUndefined"
    by simp
  have pushed: "pushed_calls JUndefined = Inr []"
    by (simp add: pushed_calls_def)
  have terminal: "truthy (opt_prop (JObject [(''done'', JBool True), (''eval_count'', JNumber (Fin 1)),
                      (''eval_duration'', JNumber (Fin 3))]) ''done'')"
    by simp
  have regular: "opt_prop (JObject [(''done'', JBool True), (''eval_count'', JNumber (Fin 1)),
                      (''eval_duration'', JNumber (Fin 3))]) ''eval_count'' = JNumber (Fin 1)
      \<and> opt_prop (JObject [(''done'', JBool True), (''eval_count'', JNumber (Fin 1)),
                      (''eval_duration'', JNumber (Fin 3))]) ''eval_duration'' = JNumber (Fin 3)
      \<and> (1::rat) \<noteq> 0 \<and> (3::rat) \<noteq> 0
      \<and> round_double (3 / 1000000000) = Fin (7253554917687775 / 2417851639229258349412352)
      \<and> (7253554917687775 / 2417851639229258349412352 :: rat) \<noteq> 0"
    by (simp add: three_nanoseconds)
  from C4_terminal_object_stats [where parse = JSON_parse and toStr = object_String
        and toNum = object_Number and sources = JUndefined,
        OF line parse_done_3 message pushed terminal] regular
  have "opt_prop (opt_prop (last (ss_messages
       (process_line JSON_parse object_String object_Number JUndefined
          \<lparr>ss_content = ''Hi'', ss_toolCalls = [], ss_message = JNull,
           ss_messages = [JObject [(''role'', JString ''assistant''), (''content'', JString ''Hi'')]]\<rparr>
          ''{\"done\":true,\"eval_count\":1,\"eval_duration\":3}''))) ''stats'') ''tokensPerSecond''
     = JNumber (round_double (1 / (7253554917687775 / 2417851639229258349412352)))"
    by blast
  then show "opt_prop (opt_prop (last (ss_messages
       (process_line JSON_parse object_String object_Number JUndefined
          \<lparr>ss_content = ''Hi'', ss_toolCalls = [], ss_message = JNull,
           ss_messages = [JObject [(''role'', JString ''assistant''), (''content'', JString ''Hi'')]]\<rparr>
          ''{\"done\":true,\"eval_count\":1,\"eval_duration\":3}''))) ''stats'') ''tokensPerSecond''
     = JNumber (Fin (5592405333333333 / 16777216))"
    unfolding one_in_three_nanoseconds .
qed

section \<open>Properties of the resolver\<close>





lemma remove_first_at:
  assumes "m \<noteq> []" and "\<forall>c\<in>set pre. c \<noteq> hd m"
  shows "remove_first m (pre @ m @ suf) = pre @ suf"
  using assms(2)
proof (induction pre)
  case Nil
  from assms(1) obtain c cs where m: "m = c # cs" by (cases m) auto
  show ?case by (simp add: m)
next
  case (Cons p pre)
  from assms(1) obtain c cs where m: "m = c # cs" by (cases m) auto
  from Cons.prems have "p \<noteq> c" by (simp add: m)
  then have "take (length m) (p # pre @ m @ suf) \<noteq> m"
    by (simp add: m)
  with Cons show ?case by simp
qed













lemma starts_iff: "starts c s \<longleftrightarrow> (\<exists>r. s = c # r)"
  by (cases s) (auto simp: starts_def)

lemma lazy_args_SomeD:
  "lazy_args r = Some raw \<Longrightarrow> \<exists>rest. r = raw @ '')]'' @ rest"
proof (induction r arbitrary: raw)
  case Nil
  then show ?case by simp
next
  case (Cons c cs)
  show ?case
  proof (cases "c = CHR '')'' \<and> starts (CHR '']'') cs")
    case True
    with Cons.prems show ?thesis by (auto simp: starts_iff)
  next
    case False
    with Cons.prems obtain raw' where raw: "raw = c # raw'" and rec: "lazy_args cs = Some raw'"
      by (auto split: if_splits)
    from Cons.IH [OF rec] show ?thesis by (auto simp: raw)
  qed
qed

text \<open>The lazy group depends only on the text it has read.\<close>

lemma lazy_args_local:
  "lazy_args (raw @ '')]'' @ rest) = Some raw \<Longrightarrow> lazy_args (raw @ '')]'' @ x) = Some raw"
proof (induction raw)
  case Nil
  show ?case by (simp add: starts_def)
next
  case (Cons c raw)
  have not_end: "\<not> (c = CHR '')'' \<and> starts (CHR '']'') (raw @ '')]'' @ rest))"
    using Cons.prems by (auto split: if_splits)
  have same: "starts (CHR '']'') (raw @ '')]'' @ x) = starts (CHR '']'') (raw @ '')]'' @ rest)"
    by (cases raw) (simp_all add: starts_def)
  from Cons.prems not_end have nl: "\<not> (c = CHR 0x0A \<or> c = CHR 0x0D)"
    and rec: "lazy_args (raw @ '')]'' @ rest) = Some raw"
    by (auto split: if_splits)
  from Cons.IH [OF rec] not_end same nl show ?case by auto
qed

lemma takeWhile_ident_append:
  assumes "\<forall>c\<in>set name. is_ident_char c" and "\<not> is_ident_char d"
  shows "takeWhile is_ident_char (name @ d # r) = name"
    and "dropWhile is_ident_char (name @ d # r) = d # r"
  using assms by (induction name) auto

lemma bracket_at_SomeD:
  assumes "bracket_at s = Some (name, grp, n)"
  shows "name \<noteq> [] \<and> (\<forall>c\<in>set name. is_ident_char c)
       \<and> n = length (bracket_text name grp)
       \<and> (\<exists>rest. s = bracket_text name grp @ rest)"
proof -
  from assms obtain t where s: "s = CHR ''['' # t"
    by (auto simp: bracket_at_def starts_iff split: if_splits)
  let ?after = "dropWhile is_ident_char t"
  from assms have name: "name = takeWhile is_ident_char t" and ne: "name \<noteq> []"
    by (auto simp: bracket_at_def s starts_def Let_def split: if_splits option.splits)
  have t: "t = name @ ?after" by (simp add: name)
  have idents: "\<forall>c\<in>set name. is_ident_char c"
    unfolding name by (auto dest: set_takeWhileD)
  show ?thesis
  proof (cases "starts (CHR '']'') ?after")
    case True
    then obtain r where r: "?after = CHR '']'' # r" by (auto simp: starts_iff)
    from assms True ne have "grp = None" "n = length name + 2"
      by (auto simp: bracket_at_def s starts_def Let_def name [symmetric] split: if_splits)
    moreover have "s = (''['' @ name @ '']'') @ r"
      using t r by (simp add: s)
    ultimately show ?thesis using ne idents by (auto simp: bracket_text_def)
  next
    case False
    with assms ne obtain raw where open_paren: "starts (CHR ''('') ?after"
      and raw: "lazy_args (tl ?after) = Some raw" and grp: "grp = Some raw"
      and n: "n = length name + length raw + 4"
      by (auto simp: bracket_at_def s starts_def Let_def name [symmetric]
          split: if_splits option.splits list.splits)
    from open_paren obtain r where r: "?after = CHR ''('' # r" by (auto simp: starts_iff)
    from raw r lazy_args_SomeD obtain rest where rest: "r = raw @ '')]'' @ rest"
      by fastforce
    have "s = (''['' @ name @ ''('' @ raw @ '')]'') @ rest"
      using t r rest by (simp add: s)
    then show ?thesis using ne idents grp n by (auto simp: bracket_text_def)
  qed
qed

lemma not_ident_close: "\<not> is_ident_char (CHR '']'')" "\<not> is_ident_char (CHR ''('')"
  by (simp_all add: is_ident_char_def)

text \<open>The match at a position depends only on the matched text.\<close>

lemma bracket_at_local:
  assumes "bracket_at (bracket_text name grp @ rest) = Some (name, grp, n)"
  shows "bracket_at (bracket_text name grp @ x) = Some (name, grp, n)"
proof -
  from bracket_at_SomeD [OF assms] have ne: "name \<noteq> []" and idents: "\<forall>c\<in>set name. is_ident_char c"
    by simp_all
  show ?thesis
  proof (cases grp)
    case None
    with assms ne idents show ?thesis
      by (simp add: bracket_at_def bracket_text_def starts_def Let_def
          takeWhile_ident_append not_ident_close)
  next
    case (Some raw)
    from assms ne idents have la: "lazy_args (raw @ '')]'' @ rest) = Some raw"
      by (auto simp: Some bracket_at_def bracket_text_def starts_def Let_def
          takeWhile_ident_append not_ident_close split: option.splits)
    from assms ne idents la have n: "n = length name + length raw + 4"
      by (simp add: Some bracket_at_def bracket_text_def starts_def Let_def
          takeWhile_ident_append not_ident_close)
    from lazy_args_local [OF la, of x] ne idents n show ?thesis
      by (simp add: Some bracket_at_def bracket_text_def starts_def Let_def
          takeWhile_ident_append not_ident_close)
  qed
qed

lemma remove_first_prefix: "m \<noteq> [] \<Longrightarrow> remove_first m (m @ rest) = rest"
  using remove_first_at [of m "[]" rest] by simp

lemma bracket_text_not_Nil [simp]: "bracket_text name grp \<noteq> []"
  by (simp add: bracket_text_def split: option.splits)

lemma bracket_match_SomeD:
  assumes "bracket_match content = Some (name, grp, matched)"
  shows "matched = bracket_text name grp \<and> name \<noteq> [] \<and> (\<forall>c\<in>set name. is_ident_char c)
       \<and> (\<exists>pre suf. content = pre @ matched @ suf
             \<and> bracket_at (matched @ suf) = Some (name, grp, length matched)
             \<and> (\<forall>i<length pre. bracket_at (drop i content) = None)
             \<and> remove_first matched content = pre @ suf)"
  using assms
proof (induction content)
  case Nil
  then show ?case by simp
next
  case (Cons c cs)
  show ?case
  proof (cases "bracket_at (c # cs)")
    case (Some r)
    obtain nm g n where r: "r = (nm, g, n)" by (cases r) auto
    from Cons.prems Some r have eq: "nm = name" "g = grp" "matched = take n (c # cs)"
      by simp_all
    have at0: "bracket_at (c # cs) = Some (name, grp, n)"
      using Some r eq by simp
    from bracket_at_SomeD [OF at0] obtain rest where
      d: "name \<noteq> []" "\<forall>c\<in>set name. is_ident_char c" "n = length (bracket_text name grp)"
         "c # cs = bracket_text name grp @ rest"
      by blast
    have m: "matched = bracket_text name grp"
      unfolding eq(3) d(3) by (subst d(4)) simp
    have whole: "c # cs = matched @ rest" using d(4) m by simp
    have rf: "remove_first matched (c # cs) = rest"
      unfolding whole by (rule remove_first_prefix) (simp add: m)
    have at: "bracket_at (matched @ rest) = Some (name, grp, length matched)"
      using at0 unfolding whole by (simp add: d(3) m)
    have "c # cs = [] @ matched @ rest" using whole by simp
    with m d(1,2) rf at show ?thesis
      by (intro conjI exI [where x = "[]"] exI [where x = rest]) simp_all
  next
    case None
    with Cons.prems have rec: "bracket_match cs = Some (name, grp, matched)" by simp
    from Cons.IH [OF rec] obtain pre suf where
      m: "matched = bracket_text name grp" "name \<noteq> []" "\<forall>c\<in>set name. is_ident_char c"
      and cs: "cs = pre @ matched @ suf"
      and at: "bracket_at (matched @ suf) = Some (name, grp, length matched)"
      and before: "\<forall>i<length pre. bracket_at (drop i cs) = None"
      and rf: "remove_first matched cs = pre @ suf"
      by blast
    have neq: "take (length matched) (c # cs) \<noteq> matched"
    proof
      assume "take (length matched) (c # cs) = matched"
      then have "c # cs = matched @ drop (length matched) (c # cs)"
        by (metis append_take_drop_id)
      then have "bracket_at (c # cs) = bracket_at (bracket_text name grp @ drop (length matched) (c # cs))"
        by (simp add: m(1))
      also have "\<dots> = Some (name, grp, length matched)"
        using at unfolding m(1) by (rule bracket_at_local)
      finally show False using None by simp
    qed
    have before': "\<forall>i<length (c # pre). bracket_at (drop i (c # cs)) = None"
    proof (intro allI impI)
      fix i assume "i < length (c # pre)"
      then show "bracket_at (drop i (c # cs)) = None"
        using None before by (cases i) auto
    qed
    have "c # cs = (c # pre) @ matched @ suf" by (simp add: cs)
    moreover have "remove_first matched (c # cs) = (c # pre) @ suf"
      using neq rf by simp
    ultimately show ?thesis using m at before' by blast
  qed
qed

lemma json_sniff_nothing:
  "fst (json_sniff parse now content) = [] \<Longrightarrow> json_sniff parse now content = ([], content)"
  by (auto simp: json_sniff_def split: if_splits option.splits)

lemma bracket_text_brackets:
  "CHR ''['' \<in> set (bracket_text name grp)" "CHR '']'' \<in> set (bracket_text name grp)"
  by (simp_all add: bracket_text_def split: option.splits)

text \<open>
  Claim C5. Let the stream have given no tool call, the JSON fallback none either, and let
  the content hold a match of the bracket pattern: \<open>matched\<close> is \<^verbatim>\<open>[name]\<close> or
  \<^verbatim>\<open>[name(raw)]\<close> with a non-empty identifier \<open>name\<close>, and no match starts before it. When
  \<open>name\<close> is the name of a tool of the manifest, the resolution gives exactly one
  invocation of it, with no arguments when there are no parentheses (or nothing between
  them), with the parsed \<open>raw\<close> when it parses as JSON and with \<^verbatim>\<open>{input: raw}\<close> otherwise,
  and the content with the match taken out (and trimmed). When \<open>name\<close> is not in the
  manifest, the resolution gives no invocation and leaves the content as it is.
\<close>

theorem C5_bracket_sniff:
  assumes unsniffed: "fst (json_sniff parse now content) = []"
    and matches: "bracket_match content = Some (name, grp, matched)"
  shows "matched = bracket_text name grp \<and> name \<noteq> [] \<and> (\<forall>c\<in>set name. is_ident_char c)
       \<and> (\<exists>pre suf. content = pre @ matched @ suf
             \<and> (\<forall>i<length pre. bracket_at (drop i content) = None)
             \<and> resolve_tool_calls parse now mcpTools [] content =
                 (if list_ex (\<lambda>t. fn_name t = name) mcpTools
                  then ([JObject
                           [(''id'', JString (''call_fallback_bracket_'' @ nat_text now)),
                            (''function'', JObject
                               [(''name'', JString name),
                                (''arguments'',
                                   (case grp of
                                      None \<Rightarrow> JObject []
                                    | Some raw \<Rightarrow>
                                        (if raw = [] then JObject []
                                         else (case parse raw of
                                                 Some v \<Rightarrow> v
                                               | None \<Rightarrow> JObject [(''input'', JString raw)]))))])]],
                        trim (pre @ suf))
                  else ([], content)))"
proof -
  from bracket_match_SomeD [OF matches] obtain pre suf where
    m: "matched = bracket_text name grp" "name \<noteq> []" "\<forall>c\<in>set name. is_ident_char c"
    and c: "content = pre @ matched @ suf"
    and before: "\<forall>i<length pre. bracket_at (drop i content) = None"
    and rf: "remove_first matched content = pre @ suf"
    by blast
  have brackets: "CHR ''['' \<in> set content" "CHR '']'' \<in> set content"
    using bracket_text_brackets [of name grp] by (simp_all add: c m(1))
  have "resolve_tool_calls parse now mcpTools [] content = bracket_sniff parse now mcpTools content"
    using json_sniff_nothing [OF unsniffed] by (simp add: resolve_tool_calls_def)
  also have "\<dots> = (if list_ex (\<lambda>t. fn_name t = name) mcpTools
                  then ([JObject
                           [(''id'', JString (''call_fallback_bracket_'' @ nat_text now)),
                            (''function'', JObject
                               [(''name'', JString name),
                                (''arguments'',
                                   (case grp of
                                      None \<Rightarrow> JObject []
                                    | Some raw \<Rightarrow>
                                        (if raw = [] then JObject []
                                         else (case parse raw of
                                                 Some v \<Rightarrow> v
                                               | None \<Rightarrow> JObject [(''input'', JString raw)]))))])]],
                        trim (pre @ suf))
                  else ([], content))"
    using brackets by (simp add: bracket_sniff_def matches rf bracket_args_def)
  finally show ?thesis using m c before by blast
qed

text \<open>Facts for running the bracket fallback on the examples.\<close>

lemmas bracket_eval = resolve_tool_calls_def json_sniff_def bracket_sniff_def bracket_args_def
  bracket_at_def is_ident_char_def starts_def trim_def is_js_space_def nat_text.simps Let_def

lemma bracket_match_time:
  "bracket_match ''[get_current_time]'' = Some (''get_current_time'', None, ''[get_current_time]'')"
  by (simp add: bracket_at_def is_ident_char_def starts_def)

theorem C5_witness:
  "resolve_tool_calls JSON_parse 1700000000000
      [\<lparr>fn_name = ''get_current_time'', fn_description = JString ''The time'',
        fn_parameters = JObject [], fn_serverUrl = ''http://localhost:8000''\<rparr>]
      [] ''[get_current_time]''
     = ([JObject [(''id'', JString ''call_fallback_bracket_1700000000000''),
                  (''function'', JObject [(''name'', JString ''get_current_time''),
                                          (''arguments'', JObject [])])]],
        [])
   \<and> resolve_tool_calls JSON_parse 1700000000000
      [\<lparr>fn_name = ''get_weather'', fn_description = JString ''The weather'',
        fn_parameters = JObject [], fn_serverUrl = ''http://localhost:8000''\<rparr>]
      [] ''[get_current_time]''
     = ([], ''[get_current_time]'')"
proof -
  have unsniffed: "fst (json_sniff JSON_parse 1700000000000 ''[get_current_time]'') = []"
    by (simp add: json_sniff_def trim_def is_js_space_def)
  have whole: "pre = [] \<and> suf = []"
    if "''[get_current_time]'' = pre @ ''[get_current_time]'' @ suf" for pre suf :: string
  proof -
    from that have "length ''[get_current_time]'' = length (pre @ ''[get_current_time]'' @ suf)"
      by (rule arg_cong)
    then have "length pre + length suf = 0" by simp
    then show ?thesis by simp
  qed
  let ?call = "\<lambda>pre suf. ([JObject
                           [(''id'', JString (''call_fallback_bracket_'' @ nat_text 1700000000000)),
                            (''function'', JObject
                               [(''name'', JString ''get_current_time''),
                                (''arguments'',
                                   (case None of
                                      None \<Rightarrow> JObject []
                                    | Some raw \<Rightarrow>
                                        (if raw = [] then JObject []
                                         else (case JSON_parse raw of
                                                 Some v \<Rightarrow> v
                                               | None \<Rightarrow> JObject [(''input'', JString raw)]))))])]],
                        trim (pre @ suf))"
  from C5_bracket_sniff [OF unsniffed bracket_match_time,
        of "[\<lparr>fn_name = ''get_current_time'', fn_description = JString ''The time'',
              fn_parameters = JObject [], fn_serverUrl = ''http://localhost:8000''\<rparr>]"]
  obtain pre suf where c: "''[get_current_time]'' = pre @ ''[get_current_time]'' @ suf"
    and r: "resolve_tool_calls JSON_parse 1700000000000
      [\<lparr>fn_name = ''get_current_time'', fn_description = JString ''The time'',
        fn_parameters = JObject [], fn_serverUrl = ''http://localhost:8000''\<rparr>]
      [] ''[get_current_time]''
     = (if list_ex (\<lambda>t. fn_name t = ''get_current_time'')
            [\<lparr>fn_name = ''get_current_time'', fn_description = JString ''The time'',
              fn_parameters = JObject [], fn_serverUrl = ''http://localhost:8000''\<rparr>]
        then ?call pre suf else ([], ''[get_current_time]''))"
    by blast
  from whole [OF c] r have known: "resolve_tool_calls JSON_parse 1700000000000
      [\<lparr>fn_name = ''get_current_time'', fn_description = JString ''The time'',
        fn_parameters = JObject [], fn_serverUrl = ''http://localhost:8000''\<rparr>]
      [] ''[get_current_time]''
     = ([JObject [(''id'', JString ''call_fallback_bracket_1700000000000''),
                  (''function'', JObject [(''name'', JString ''get_current_time''),
                                          (''arguments'', JObject [])])]],
        [])"
    by (simp add: trim_def nat_text.simps)
  from C5_bracket_sniff [OF unsniffed bracket_match_time,
        of "[\<lparr>fn_name = ''get_weather'', fn_description = JString ''The weather'',
              fn_parameters = JObject [], fn_serverUrl = ''http://localhost:8000''\<rparr>]"]
  obtain pre' suf' where r': "resolve_tool_calls JSON_parse 1700000000000
      [\<lparr>fn_name = ''get_weather'', fn_description = JString ''The weather'',
        fn_parameters = JObject [], fn_serverUrl = ''http://localhost:8000''\<rparr>]
      [] ''[get_current_time]''
     = (if list_ex (\<lambda>t. fn_name t = ''get_current_time'')
            [\<lparr>fn_name = ''get_weather'', fn_description = JString ''The weather'',
              fn_parameters = JObject [], fn_serverUrl = ''http://localhost:8000''\<rparr>]
        then ?call pre' suf' else ([], ''[get_current_time]''))"
    by blast
  then have unknown: "resolve_tool_calls JSON_parse 1700000000000
      [\<lparr>fn_name = ''get_weather'', fn_description = JString ''The weather'',
        fn_parameters = JObject [], fn_serverUrl = ''http://localhost:8000''\<rparr>]
      [] ''[get_current_time]''
     = ([], ''[get_current_time]'')"
    by simp
  from known unknown show ?thesis by (rule conjI)
qed

text \<open>
  Claim C5 as stated fails for empty parentheses: the second group of \<^verbatim>\<open>[name()]\<close> is the
  empty string, which does not parse as JSON, and yet the arguments are empty, not
  \<^verbatim>\<open>{input: ""}\<close>, because the program tests the group for truthiness before parsing it.
\<close>

theorem C5_counterexample:
  "resolve_tool_calls JSON_parse 1700000000000
      [\<lparr>fn_name = ''get_current_time'', fn_description = JString ''The time'',
        fn_parameters = JObject [], fn_serverUrl = ''http://localhost:8000''\<rparr>]
      [] ''[get_current_time()]''
     = ([JObject [(''id'', JString ''call_fallback_bracket_1700000000000''),
                  (''function'', JObject [(''name'', JString ''get_current_time''),
                                          (''arguments'', JObject [])])]],
        [])
   \<and> bracket_match ''[get_current_time()]''
       = Some (''get_current_time'', Some [], ''[get_current_time()]'')
   \<and> JSON_parse [] = None
   \<and> JObject [] \<noteq> JObject [(''input'', JString [])]"
  by (simp add: bracket_eval JSON_parse_def parse_value.simps skip_ws_def)

section \<open>A turn with a sniffed tool call, from the stream to the follow-up request\<close>

lemma parse_bracket_line:
  "JSON_parse ''{\"message\":{\"role\":\"assistant\",\"content\":\"[get_current_time]\"},\"done\":true}''
     = Some (JObject [(''message'', JObject [(''role'', JString ''assistant''),
                                              (''content'', JString ''[get_current_time]'')]),
                      (''done'', JBool True)])"
  by (simp add: json_eval)

lemma bracket_turn_streamed:
  "readStream JSON_parse object_String object_Number (JArray [])
      [''{\"message\":{\"role\":\"assistant\",\"content\":\"[get_current_time]\"},\"done\":true}''
         @ [CHR 0x0A]]
      [JObject [(''role'', JString ''user''), (''content'', JString ''What time is it?'')]]
     = \<lparr>ss_content = ''[get_current_time]'', ss_toolCalls = [],
        ss_message = JObject [(''role'', JString ''assistant''),
                              (''content'', JString ''[get_current_time]'')],
        ss_messages =
          [JObject [(''role'', JString ''user''), (''content'', JString ''What time is it?'')],
           JObject [(''role'', JString ''assistant''), (''content'', JString ''[get_current_time]''),
                    (''sources'', JArray []),
                    (''stats'', JObject [(''totalTokens'', JUndefined),
                                         (''tokensPerSecond'', JNumber NaN)])]]\<rparr>"
  by (simp add: stream_eval parse_bracket_line js_div_def)

lemma bracket_turn_resolved:
  "resolve_tool_calls JSON_parse 1700000000000
      [\<lparr>fn_name = ''get_current_time'', fn_description = JString ''The time'',
        fn_parameters = JObject [], fn_serverUrl = ''http://localhost:8000''\<rparr>]
      [] ''[get_current_time]''
     = ([JObject [(''id'', JString ''call_fallback_bracket_1700000000000''),
                  (''function'', JObject [(''name'', JString ''get_current_time''),
                                          (''arguments'', JObject [])])]],
        [])"
  by (simp add: bracket_eval)

text \<open>
  Claim C2, evaluated on a turn the program can meet. The model answers
  \<^verbatim>\<open>[get_current_time]\<close> as plain text, the manifest has the tool, and the bracket fallback
  resolves one invocation. The tool message carries the synthesized id
  \<^verbatim>\<open>call_fallback_bracket_1700000000000\<close>, while the assistant message appended before it
  is the last streamed message with the stripped content: it has no \<^verbatim>\<open>tool_calls\<close> field.
  Both are appended to the history before the follow-up request, which carries them.
\<close>

theorem C2_sniffed_call_has_no_tool_calls_entry:
  "resolve_and_execute JSON_parse empty_object_text object_String 1700000000000
      (\<lambda>idx. 1700000000001)
      (\<lambda>url name args. Inr (JObject [(''result'',
          JObject [(''content'', JArray [JObject [(''text'', JString ''12:00'')]])])]))
      True ''qwen2.5:1.5b''
      [\<lparr>fn_name = ''get_current_time'', fn_description = JString ''The time'',
        fn_parameters = JObject [], fn_serverUrl = ''http://localhost:8000''\<rparr>]
      (readStream JSON_parse object_String object_Number (JArray [])
         [''{\"message\":{\"role\":\"assistant\",\"content\":\"[get_current_time]\"},\"done\":true}''
            @ [CHR 0x0A]]
         [JObject [(''role'', JString ''user''), (''content'', JString ''What time is it?'')]])
      \<lparr>ts_history =
         [JObject [(''role'', JString ''system''), (''content'', JString ''You are an agent.'')],
          JObject [(''role'', JString ''user''), (''content'', JString ''What time is it?'')]],
       ts_messages = [], ts_mcpContext = [], ts_requests = [], ts_error = None\<rparr>
   = \<lparr>ts_history =
         [JObject [(''role'', JString ''system''), (''content'', JString ''You are an agent.'')],
          JObject [(''role'', JString ''user''), (''content'', JString ''What time is it?'')],
          JObject [(''role'', JString ''assistant''), (''content'', JString [])],
          JObject [(''role'', JString ''tool''), (''content'', JString ''12:00''),
                   (''tool_call_id'', JString ''call_fallback_bracket_1700000000000'')]],
       ts_messages =
         [JObject [(''role'', JString ''user''), (''content'', JString ''What time is it?'')],
          JObject [(''role'', JString ''assistant''), (''content'', JString ''[get_current_time]''),
                   (''sources'', JArray []),
                   (''stats'', JObject [(''totalTokens'', JUndefined),
                                        (''tokensPerSecond'', JNumber NaN)])],
          JObject [(''role'', JString ''assistant''), (''content'', JString [])],
          JObject [(''role'', JString ''tool''), (''content'', JString ''12:00''),
                   (''tool_call_id'', JString ''call_fallback_bracket_1700000000000'')]],
       ts_mcpContext =
         [JObject [(''type'', JString ''tool''), (''name'', JString ''get_current_time''),
                   (''server'', JString ''http://localhost:8000'')]],
       ts_requests =
         [ToolsCall ''http://localhost:8000'' (JString ''get_current_time'') (JObject []),
          ChatRequest ''qwen2.5:1.5b''
            [JObject [(''role'', JString ''system''), (''content'', JString ''You are an agent.'')],
             JObject [(''role'', JString ''user''), (''content'', JString ''What time is it?'')],
             JObject [(''role'', JString ''assistant''), (''content'', JString [])],
             JObject [(''role'', JString ''tool''), (''content'', JString ''12:00''),
                      (''tool_call_id'', JString ''call_fallback_bracket_1700000000000'')]]
            (Some [JObject [(''type'', JString ''function''),
                     (''function'', JObject [(''name'', JString ''get_current_time''),
                                             (''description'', JString ''The time''),
                                             (''parameters'', JObject [])])]])],
       ts_error = None\<rparr>
   \<and> opt_prop (JObject [(''role'', JString ''assistant''), (''content'', JString [])]) ''tool_calls''
       = JUndefined"
  unfolding bracket_turn_streamed
  by (simp add: resolve_and_execute_def bracket_turn_resolved tool_phase_def executeMcpTool_def
      JSON_stringify_def js_or_def js_String_def offered_tools_def Let_def)

section \<open>The parser of the examples: its length tests never fail\<close>


lemma parse_string_chars_shorter:
  "parse_string_chars s = Some (k, r) \<Longrightarrow> length r < length s"
proof (induction s arbitrary: k r rule: parse_string_chars.induct)
  case 1
  then show ?case by simp
next
  case (2 c cs)
  then show ?case
    by (auto split: if_splits list.splits option.splits prod.splits simp: less_Suc_eq)
       (fastforce+)?
qed

lemma parse_number_shorter:
  "parse_number cs = Some (n, r) \<Longrightarrow> length r < length cs"
proof -
  assume a: "parse_number cs = Some (n, r)"
  have dw: "length (dropWhile is_digit xs) \<le> length xs" for xs
    by (rule length_dropWhile_le)
  have dw_lt: "takeWhile is_digit xs \<noteq> [] \<Longrightarrow> length (dropWhile is_digit xs) < length xs" for xs
    by (cases xs) (auto simp: le_imp_less_Suc length_dropWhile_le split: if_splits)
  have frac: "parse_fraction xs = Some (f, y) \<Longrightarrow> length y \<le> length xs" for xs f y
    using dw [of "tl xs"]
    by (auto simp: parse_fraction_def Let_def split: if_splits)
  have expo: "parse_exponent xs = Some (e, y) \<Longrightarrow> length y \<le> length xs" for xs e y
    using dw [of "tl xs"] dw [of "tl (tl xs)"]
    by (auto simp: parse_exponent_def Let_def split: if_splits)
  let ?cs1 = "if starts (CHR ''-'') cs then tl cs else cs"
  from a obtain fp cs3 ex where
    ip: "takeWhile is_digit ?cs1 \<noteq> []"
    and f: "parse_fraction (dropWhile is_digit ?cs1) = Some (fp, cs3)"
    and e: "parse_exponent cs3 = Some (ex, r)"
    by (auto simp: parse_number_def Let_def split: if_splits option.splits)
  from dw_lt [OF ip] frac [OF f] expo [OF e] have "length r < length ?cs1" by simp
  then show ?thesis by (auto split: if_splits)
qed

lemma length_skip_ws: "length (skip_ws cs) \<le> length cs"
  by (simp add: skip_ws_def length_dropWhile_le)

lemma length_tl_skip_ws: "starts c (skip_ws cs) \<Longrightarrow> length (tl (skip_ws cs)) < length cs"
  using length_skip_ws [of cs] by (cases "skip_ws cs") (auto simp: starts_def)

lemma parse_consumes:
  "(\<forall>v rest. parse_value cs = Some (v, rest) \<longrightarrow> length rest < length cs)"
  "(\<forall>vs rest. parse_elements cs' = Some (vs, rest) \<longrightarrow> length rest < length cs')"
  "(\<forall>kvs rest. parse_members cs'' = Some (kvs, rest) \<longrightarrow> length rest < length cs'')"
proof (induction cs and cs' and cs'' rule: parse_value_parse_elements_parse_members.induct)
  case (1 cs)
  show ?case
  proof (intro allI impI)
    fix v rest assume a: "parse_value cs = Some (v, rest)"
    then obtain c r where cs: "cs = c # r"
      by (cases cs) (auto simp: parse_value.simps)
    consider (obj) "c = CHR ''{''" | (arr) "c \<noteq> CHR ''{''" "c = CHR ''[''"
      | (str) "c \<noteq> CHR ''{''" "c \<noteq> CHR ''[''" "c = CHR 0x22"
      | (num) "c \<noteq> CHR ''{''" "c \<noteq> CHR ''[''" "c \<noteq> CHR 0x22" "c = CHR ''-'' \<or> is_digit c"
      | (lit) "c \<noteq> CHR ''{''" "c \<noteq> CHR ''[''" "c \<noteq> CHR 0x22" "\<not> (c = CHR ''-'' \<or> is_digit c)"
      by blast
    then show "length rest < length cs"
    proof cases
      case obj
      show ?thesis
      proof (cases "starts (CHR ''}'') (skip_ws r)")
        case True
        with a obj have "rest = tl (skip_ws r)"
          by (simp add: parse_value.simps cs)
        with length_tl_skip_ws [OF True] show ?thesis by (simp add: cs)
      next
        case False
        with a obj obtain kvs where "parse_members (skip_ws r) = Some (kvs, rest)"
          by (auto simp: parse_value.simps cs)
        with "1.IH"(1) [OF cs obj False] have "length rest < length (skip_ws r)" by blast
        with length_skip_ws [of r] show ?thesis by (simp add: cs)
      qed
    next
      case arr
      show ?thesis
      proof (cases "starts (CHR '']'') (skip_ws r)")
        case True
        with a arr have "rest = tl (skip_ws r)"
          by (simp add: parse_value.simps cs)
        with length_tl_skip_ws [OF True] show ?thesis by (simp add: cs)
      next
        case False
        with a arr obtain xs where "parse_elements (skip_ws r) = Some (xs, rest)"
          by (auto simp: parse_value.simps cs)
        with "1.IH"(2) [OF cs arr(1) arr(2) False] have "length rest < length (skip_ws r)" by blast
        with length_skip_ws [of r] show ?thesis by (simp add: cs)
      qed
    next
      case str
      with a obtain k where "parse_string_chars r = Some (k, rest)"
        by (auto simp: parse_value.simps cs)
      from parse_string_chars_shorter [OF this] show ?thesis by (simp add: cs)
    next
      case num
      with a obtain n where "parse_number cs = Some (n, rest)"
        by (auto simp: parse_value.simps cs)
      from parse_number_shorter [OF this] show ?thesis .
    next
      case lit
      with a have "(take 4 cs = ''true'' \<and> rest = drop 4 cs)
          \<or> (take 5 cs = ''false'' \<and> rest = drop 5 cs)
          \<or> (take 4 cs = ''null'' \<and> rest = drop 4 cs)"
        by (auto simp: parse_value.simps cs split: if_splits)
      then show ?thesis
        by (auto simp: cs dest!: arg_cong [where f = length])
    qed
  qed
next
  case (2 cs)
  show ?case
  proof (intro allI impI)
    fix vs rest assume a: "parse_elements cs = Some (vs, rest)"
    then obtain v r where v: "parse_value cs = Some (v, r)" and lt: "length r < length cs"
      by (subst (asm) parse_elements.simps) (auto split: option.splits if_splits)
    show "length rest < length cs"
    proof (cases "starts (CHR '','') (skip_ws r)")
      case True
      with a v lt obtain vs' where "parse_elements (skip_ws (tl (skip_ws r))) = Some (vs', rest)"
        by (subst (asm) parse_elements.simps) auto
      with "2.IH"(2) [OF v refl lt True]
      have "length rest < length (skip_ws (tl (skip_ws r)))" by blast
      with length_skip_ws [of "tl (skip_ws r)"] length_tl_skip_ws [OF True] lt
      show ?thesis by simp
    next
      case False
      with a v lt have e: "starts (CHR '']'') (skip_ws r)" and "rest = tl (skip_ws r)"
        by (subst (asm) parse_elements.simps; simp split: if_splits)+
      with length_tl_skip_ws [OF e] lt show ?thesis by simp
    qed
  qed
next
  case (3 cs)
  show ?case
  proof (intro allI impI)
    fix kvs rest assume a: "parse_members cs = Some (kvs, rest)"
    then obtain k r1 v r where q: "starts (CHR 0x22) cs"
      and k: "parse_string_chars (tl cs) = Some (k, r1)"
      and colon: "starts (CHR '':'') (skip_ws r1) \<and> length r1 < length cs"
      and v: "parse_value (skip_ws (tl (skip_ws r1))) = Some (v, r)"
      and lt: "length r < length cs"
      by (subst (asm) parse_members.simps) (auto split: option.splits if_splits)
    show "length rest < length cs"
    proof (cases "starts (CHR '','') (skip_ws r)")
      case True
      with a q k colon v lt obtain kvs' where
        "parse_members (skip_ws (tl (skip_ws r))) = Some (kvs', rest)"
        by (subst (asm) parse_members.simps) auto
      with "3.IH"(2) [OF q k refl colon v refl lt True]
      have "length rest < length (skip_ws (tl (skip_ws r)))" by blast
      with length_skip_ws [of "tl (skip_ws r)"] length_tl_skip_ws [OF True] lt
      show ?thesis by simp
    next
      case False
      with a q k colon v lt have e: "starts (CHR ''}'') (skip_ws r)" and "rest = tl (skip_ws r)"
        by (subst (asm) parse_members.simps; simp split: if_splits)+
      with length_tl_skip_ws [OF e] lt show ?thesis by simp
    qed
  qed
qed


text \<open>So the length tests of the parser never fail: it satisfies the plain equations.\<close>

lemma parse_elements_plain:
  "parse_elements cs =
     (case parse_value cs of
        None \<Rightarrow> None
      | Some (v, rest) \<Rightarrow>
          (if starts (CHR '','') (skip_ws rest)
           then map_option (\<lambda>(vs, r). (v # vs, r)) (parse_elements (skip_ws (tl (skip_ws rest))))
           else if starts (CHR '']'') (skip_ws rest) then Some ([v], tl (skip_ws rest))
           else None))"
  using parse_consumes(1) [of cs]
  by (subst parse_elements.simps) (auto split: option.splits)

lemma parse_members_plain:
  "parse_members cs =
     (if starts (CHR 0x22) cs then
        (case parse_string_chars (tl cs) of
           None \<Rightarrow> None
         | Some (k, r1) \<Rightarrow>
             (if starts (CHR '':'') (skip_ws r1) then
                (case parse_value (skip_ws (tl (skip_ws r1))) of
                   None \<Rightarrow> None
                 | Some (v, rest) \<Rightarrow>
                     (if starts (CHR '','') (skip_ws rest)
                      then map_option (\<lambda>(kvs, r). ((k, v) # kvs, r))
                             (parse_members (skip_ws (tl (skip_ws rest))))
                      else if starts (CHR ''}'') (skip_ws rest) then Some ([(k, v)], tl (skip_ws rest))
                      else None))
              else None))
      else None)"
proof (cases "starts (CHR 0x22) cs")
  case False
  then show ?thesis by (subst parse_members.simps) simp
next
  case q: True
  show ?thesis
  proof (cases "parse_string_chars (tl cs)")
    case None
    with q show ?thesis by (subst parse_members.simps) simp
  next
    case (Some kr)
    obtain k r1 where kr: "kr = (k, r1)" by (cases kr) auto
    from parse_string_chars_shorter [OF Some [unfolded kr]] have r1: "length r1 < length cs"
      by (cases cs) auto
    show ?thesis
    proof (cases "starts (CHR '':'') (skip_ws r1)")
      case False
      with q Some kr show ?thesis by (subst parse_members.simps) simp
    next
      case colon: True
      have le: "length (skip_ws (tl (skip_ws r1))) \<le> length cs"
        using length_skip_ws [of "tl (skip_ws r1)"] length_tl_skip_ws [OF colon] r1 by simp
      show ?thesis
        using q Some kr colon r1 le parse_consumes(1) [of "skip_ws (tl (skip_ws r1))"]
        by (subst parse_members.simps) (auto split: option.splits)
    qed
  qed
qed

end
